theory Spec2Isabelle
  imports Complex_Main
begin

section \<open>The timetable generator: data model\<close>

text \<open>
  The generator is the TypeScript class \<open>TimetableGenerator\<close>. Its objects are modelled
  by value:
  \<^item> a JavaScript object used as a dictionary (\<open>Record<string, ...>\<close>) is an association
    list in insertion order, which is the order \<open>Object.keys\<close> and \<open>Object.values\<close> walk
    for the property names used here (day names and slot labels, never array indices);
    an object has no key twice, which \<open>distinctKeys\<close> below states where a theorem needs it;
  \<^item> a property that may be \<open>undefined\<close> is an \<open>option\<close> (\<open>None\<close> is \<open>undefined\<close>);
  \<^item> a schedule entry is \<open>null\<close>, \<open>undefined\<close> or a class, since reading a missing key
    gives \<open>undefined\<close> and \<open>mutate\<close> can store it;
  \<^item> a \<open>TypeError\<close> (a property read on \<open>undefined\<close>) is the left summand of the result;
  \<^item> the numeric parameters are integers (\<open>int\<close>), which a double holds exactly below
    \<open>2^53\<close>; the fitness is a \<open>number\<close>: a real, the exact value of which the IEEE double
    of the source is the rounding, or \<open>NaN\<close>;
  \<^item> every \<open>Math.floor(Math.random() * n)\<close> is an argument \<open>r\<close> of the model, read as the
    index \<open>r mod n\<close> (\<open>0\<close> when \<open>n = 0\<close>): all indices \<open>0..n-1\<close> and no other.
\<close>

datatype error = TypeError

datatype number = Number real | NaN

text \<open>
  An optional numeric property of an object that may have gone through JSON: it is
  missing, \<open>null\<close> (what \<open>JSON.stringify\<close> writes for \<open>NaN\<close>), or a number.
\<close>

datatype numberProperty = Missing | NullNumber | Value number

record ClassInfo =
  subject :: "string option"
  faculty :: "string option"
  room :: "string option"
  color :: "string option"

datatype cell = Null | Undefined | Class ClassInfo

type_synonym dayObj = "(string \<times> cell) list"

type_synonym scheduleObj = "(string \<times> dayObj) list"

record Batch =
  batch_id :: int
  name :: string
  schedule :: scheduleObj

subsection \<open>Strings and numbers of the host language\<close>

definition digitChar :: "nat \<Rightarrow> char" where
  "digitChar d = char_of (of_char (CHR ''0'') + d)"

text \<open>\<open>Number.prototype.toString\<close> on a natural number.\<close>

fun toString :: "nat \<Rightarrow> string" where
  "toString n = (if n < 10 then [digitChar n] else toString (n div 10) @ [digitChar (n mod 10)])"

declare toString.simps [simp del]

text \<open>\<open>s.padStart(2, '0')\<close>.\<close>

definition padStart2 :: "string \<Rightarrow> string" where
  "padStart2 s = replicate (2 - length s) (CHR ''0'') @ s"

definition digitVal :: "char \<Rightarrow> nat option" where
  "digitVal c = (if of_char (CHR ''0'') \<le> (of_char c :: nat) \<and> (of_char c :: nat) \<le> of_char (CHR ''9'')
                 then Some (of_char c - of_char (CHR ''0'')) else None)"

text \<open>
  \<open>const [hour, minute] = time.split(':').map(Number)\<close> followed by
  \<open>hour * 60 + minute\<close>, for a time in the form \<open>HH:MM\<close> (two decimal digits, a colon,
  two decimal digits). What \<open>split\<close> and \<open>Number\<close> make of any other string is not modelled:
  the result is \<open>None\<close> there.
\<close>

fun totalMinutes :: "string \<Rightarrow> nat option" where
  "totalMinutes [h1, h0, c, m1, m0] =
     (case (digitVal h1, digitVal h0, digitVal m1, digitVal m0) of
        (Some a, Some b, Some d, Some e) \<Rightarrow>
          (if c = CHR '':'' then Some ((10 * a + b) * 60 + (10 * d + e)) else None)
      | _ \<Rightarrow> None)"
| "totalMinutes _ = None"

subsection \<open>Slot Grid Builder: \<open>generateTimeSlots\<close>\<close>

text \<open>The template literal that names the slot starting at \<open>minutes\<close>.\<close>

definition timeSlotLabel :: "nat \<Rightarrow> string" where
  "timeSlotLabel minutes =
     (let currentHour = minutes div 60;
          currentMinute = minutes mod 60;
          nextHour = (minutes + 60) div 60;
          nextMinute = (minutes + 60) mod 60
      in padStart2 (toString currentHour) @ '':'' @ padStart2 (toString currentMinute) @ ''-'' @
         padStart2 (toString nextHour) @ '':'' @ padStart2 (toString nextMinute))"

text \<open>
  The loop \<open>for (minutes = start; minutes < end && slots.length < maxClasses; minutes += 60)\<close>
  with its accumulator \<open>slots\<close>.
\<close>

function slotLoop :: "int \<Rightarrow> nat \<Rightarrow> nat \<Rightarrow> string list \<Rightarrow> string list" where
  "slotLoop maxClasses endTotalMinutes minutes slots =
     (if minutes < endTotalMinutes \<and> int (length slots) < maxClasses
      then slotLoop maxClasses endTotalMinutes (minutes + 60) (slots @ [timeSlotLabel minutes])
      else slots)"
  by pat_completeness auto
termination
  by (relation "measure (\<lambda>(maxClasses, endTotalMinutes, minutes, slots). endTotalMinutes - minutes)") auto

declare slotLoop.simps [simp del]

definition generateTimeSlots :: "int \<Rightarrow> string \<Rightarrow> string \<Rightarrow> string list option" where
  "generateTimeSlots maxClasses startTime endTime =
     (case (totalMinutes startTime, totalMinutes endTime) of
        (Some startTotalMinutes, Some endTotalMinutes) \<Rightarrow>
          Some (slotLoop maxClasses endTotalMinutes startTotalMinutes [])
      | _ \<Rightarrow> None)"


subsection \<open>Objects, cells and exceptions\<close>

datatype ConflictType = faculty_conflict | room_conflict

text \<open>
  A conflict object. \<open>resource\<close> is its \<open>faculty\<close> property (a faculty conflict) or its
  \<open>room\<close> property (a room conflict); \<open>conflictBatches\<close> is the two-element array \<open>batches\<close>.
\<close>

record Conflict =
  conflictType :: ConflictType
  description :: string
  details :: string
  conflictDay :: string
  conflictSlot :: string
  conflictBatches :: "nat \<times> nat"
  resource :: "string option"
  severity :: string

record Timetable =
  batches :: "Batch list"
  fitness :: numberProperty
  conflicts :: "Conflict list option"
  algorithm :: "string option"

text \<open>A candidate assignment: the class with the batch, day and slot it is meant for.\<close>

record Assignment = ClassInfo +
  batch :: int
  day :: string
  slot :: string

text \<open>Sequencing of computations that may throw.\<close>

definition thenE :: "error + 'a \<Rightarrow> ('a \<Rightarrow> error + 'b) \<Rightarrow> error + 'b" where
  "thenE m f = (case m of Inl e \<Rightarrow> Inl e | Inr x \<Rightarrow> f x)"

text \<open>A \<open>forEach\<close> whose body pushes onto one result array and may throw.\<close>

primrec concatMapE :: "('a \<Rightarrow> error + 'b list) \<Rightarrow> 'a list \<Rightarrow> error + 'b list" where
  "concatMapE f [] = Inr []"
| "concatMapE f (x # xs) =
     (case f x of
        Inl e \<Rightarrow> Inl e
      | Inr ys \<Rightarrow> (case concatMapE f xs of Inl e \<Rightarrow> Inl e | Inr zs \<Rightarrow> Inr (ys @ zs)))"

text \<open>A \<open>forEach\<close> whose body updates the state and may throw.\<close>

primrec foldE :: "('a \<Rightarrow> 's \<Rightarrow> error + 's) \<Rightarrow> 'a list \<Rightarrow> 's \<Rightarrow> error + 's" where
  "foldE f [] st = Inr st"
| "foldE f (x # xs) st = (case f x st of Inl e \<Rightarrow> Inl e | Inr st' \<Rightarrow> foldE f xs st')"

text \<open>Truthiness of a schedule entry: an object is truthy, \<open>null\<close> and \<open>undefined\<close> are not.\<close>

definition truthy :: "cell \<Rightarrow> bool" where
  "truthy c = (case c of Class _ \<Rightarrow> True | _ \<Rightarrow> False)"

text \<open>\<open>Object.keys(obj)\<close>, \<open>obj[k]\<close> and \<open>obj[k] = v\<close> on a dictionary.\<close>

definition keys :: "(string \<times> 'v) list \<Rightarrow> string list" where
  "keys obj = map fst obj"

definition getProp :: "dayObj \<Rightarrow> string \<Rightarrow> cell" where
  "getProp obj k = (case map_of obj k of None \<Rightarrow> Undefined | Some c \<Rightarrow> c)"

fun setProp :: "(string \<times> 'v) list \<Rightarrow> string \<Rightarrow> 'v \<Rightarrow> (string \<times> 'v) list" where
  "setProp [] k v = [(k, v)]"
| "setProp ((k', v') # obj) k v =
     (if k' = k then (k, v) # obj else (k', v') # setProp obj k v)"

text \<open>\<open>batch.schedule[d][s]\<close>: reading a property of \<open>undefined\<close> throws.\<close>

definition getCell :: "Batch \<Rightarrow> string \<Rightarrow> string \<Rightarrow> error + cell" where
  "getCell b d s =
     (case map_of (schedule b) d of
        None \<Rightarrow> Inl TypeError
      | Some obj \<Rightarrow> Inr (getProp obj s))"

text \<open>\<open>batch.schedule[d][s] = v\<close>: the day object is updated in place.\<close>

definition setCell :: "Batch \<Rightarrow> string \<Rightarrow> string \<Rightarrow> cell \<Rightarrow> error + Batch" where
  "setCell b d s v =
     (case map_of (schedule b) d of
        None \<Rightarrow> Inl TypeError
      | Some obj \<Rightarrow> Inr (b\<lparr>schedule := setProp (schedule b) d (setProp obj s v)\<rparr>))"

text \<open>A value inside a template literal, and as a property name: \<open>undefined\<close> prints as such.\<close>

definition str :: "string option \<Rightarrow> string" where
  "str x = (case x of None \<Rightarrow> ''undefined'' | Some s \<Rightarrow> s)"

text \<open>\<open>s.includes(p)\<close>.\<close>

fun includes_str :: "string \<Rightarrow> string \<Rightarrow> bool" where
  "includes_str [] p = (p = [])"
| "includes_str (c # cs) p = (take (length p) (c # cs) = p \<or> includes_str cs p)"

text \<open>\<open>xs[i]\<close> for a natural index: \<open>undefined\<close> out of range.\<close>

definition nthOpt :: "'a list \<Rightarrow> nat \<Rightarrow> 'a option" where
  "nthOpt xs i = (if i < length xs then Some (xs ! i) else None)"

text \<open>
  \<open>xs[Math.floor(Math.random() * xs.length)]\<close> with the draw \<open>r\<close>: an element of \<open>xs\<close>, or
  \<open>undefined\<close> when \<open>xs\<close> is empty.
\<close>

definition pick :: "nat \<Rightarrow> 'a list \<Rightarrow> 'a option" where
  "pick r xs = (if xs = [] then None else Some (xs ! (r mod length xs)))"

text \<open>
  \<open>JSON.parse(JSON.stringify(t))\<close>: a property whose value is \<open>undefined\<close> is left out,
  a number that is \<open>NaN\<close> comes back as \<open>null\<close>, and everything else is copied as it is.
\<close>

definition jsonNumber :: "numberProperty \<Rightarrow> numberProperty" where
  "jsonNumber p = (case p of Value NaN \<Rightarrow> NullNumber | _ \<Rightarrow> p)"

definition deepCopy :: "Timetable \<Rightarrow> Timetable" where
  "deepCopy t =
     t\<lparr>batches :=
         map (\<lambda>b. b\<lparr>schedule :=
                       map (\<lambda>(d, obj). (d, filter (\<lambda>(s, c). c \<noteq> Undefined) obj)) (schedule b)\<rparr>)
             (batches t),
       fitness := jsonNumber (fitness t)\<rparr>"

subsection \<open>Constraint Checker: \<open>isValidAssignment\<close>\<close>

text \<open>The loop over \<open>timetable.batches\<close>, with its two early returns.\<close>

fun validAgainst :: "Batch list \<Rightarrow> Assignment \<Rightarrow> error + bool" where
  "validAgainst [] a = Inr True"
| "validAgainst (b # bs) a =
     (if batch_id b = batch a then validAgainst bs a
      else
        (case getCell b (day a) (slot a) of
           Inl e \<Rightarrow> Inl e
         | Inr (Class existingClass) \<Rightarrow>
             (if faculty existingClass = faculty a then Inr False
              else if room existingClass = room a
              then (case room a of
                      None \<Rightarrow> Inl TypeError
                    | Some r \<Rightarrow> if \<not> includes_str r ''Lab'' then Inr False else validAgainst bs a)
              else validAgainst bs a)
         | Inr _ \<Rightarrow> validAgainst bs a))"

definition isValidAssignment :: "Timetable \<Rightarrow> Assignment \<Rightarrow> error + bool" where
  "isValidAssignment t a = validAgainst (batches t) a"

subsection \<open>Conflict Detector: \<open>detectConflicts\<close>\<close>

definition facultyConflict :: "string \<Rightarrow> string \<Rightarrow> nat \<Rightarrow> nat \<Rightarrow> ClassInfo \<Rightarrow> Conflict" where
  "facultyConflict d s batchIndex otherBatchIndex class1 =
     \<lparr>conflictType = faculty_conflict,
      description = ''Faculty '' @ str (faculty class1) @ '' assigned to multiple batches'',
      details = d @ '' '' @ s @ '': Batch '' @ toString (batchIndex + 1) @ '' and Batch '' @
                toString (otherBatchIndex + 1),
      conflictDay = d,
      conflictSlot = s,
      conflictBatches = (batchIndex, otherBatchIndex),
      resource = faculty class1,
      severity = ''high''\<rparr>"

definition roomConflict ::
  "string \<Rightarrow> string \<Rightarrow> nat \<Rightarrow> nat \<Rightarrow> ClassInfo \<Rightarrow> ClassInfo \<Rightarrow> Conflict" where
  "roomConflict d s batchIndex otherBatchIndex class1 class2 =
     \<lparr>conflictType = room_conflict,
      description = ''Room '' @ str (room class1) @ '' double-booked'',
      details = d @ '' '' @ s @ '': '' @ str (subject class1) @ '' and '' @ str (subject class2),
      conflictDay = d,
      conflictSlot = s,
      conflictBatches = (batchIndex, otherBatchIndex),
      resource = room class1,
      severity = ''medium''\<rparr>"

text \<open>
  The body of the inner \<open>forEach\<close>: \<open>class1\<close> of batch \<open>batchIndex\<close> at \<open>(d, s)\<close> against
  the batch \<open>otherBatch\<close> at \<open>otherBatchIndex\<close>.
\<close>

definition conflictsWith ::
  "string \<Rightarrow> string \<Rightarrow> nat \<Rightarrow> ClassInfo \<Rightarrow> nat \<times> Batch \<Rightarrow> error + Conflict list" where
  "conflictsWith d s batchIndex class1 other =
     (case other of (otherBatchIndex, otherBatch) \<Rightarrow>
        if batchIndex = otherBatchIndex then Inr []
        else
          (case getCell otherBatch d s of
             Inl e \<Rightarrow> Inl e
           | Inr (Class class2) \<Rightarrow>
               (let facultyPart =
                      (if faculty class1 = faculty class2
                       then [facultyConflict d s batchIndex otherBatchIndex class1] else [])
                in if room class1 = room class2
                   then (case room class1 of
                           None \<Rightarrow> Inl TypeError
                         | Some r \<Rightarrow>
                             Inr (facultyPart @
                                  (if \<not> includes_str r ''Lab''
                                   then [roomConflict d s batchIndex otherBatchIndex class1 class2]
                                   else [])))
                   else Inr facultyPart)
           | Inr _ \<Rightarrow> Inr []))"

definition conflictsOfBatch :: "Batch list \<Rightarrow> nat \<times> Batch \<Rightarrow> error + Conflict list" where
  "conflictsOfBatch bs this =
     (case this of (batchIndex, b) \<Rightarrow>
        concatMapE
          (\<lambda>d. case map_of (schedule b) d of
                  None \<Rightarrow> Inl TypeError
                | Some obj \<Rightarrow>
                    concatMapE
                      (\<lambda>s. case getProp obj s of
                              Class class1 \<Rightarrow>
                                concatMapE (conflictsWith d s batchIndex class1) (enumerate 0 bs)
                            | _ \<Rightarrow> Inr [])
                      (keys obj))
          (keys (schedule b)))"

definition detectConflicts :: "Timetable \<Rightarrow> error + Conflict list" where
  "detectConflicts t = concatMapE (conflictsOfBatch (batches t)) (enumerate 0 (batches t))"

subsection \<open>Notions used to state the properties\<close>

text \<open>
  The entry of batch number \<open>i\<close> at day \<open>d\<close> and slot \<open>s\<close>, as
  \<open>timetable.batches[i].schedule[d]?.[s]\<close> reads it: \<open>undefined\<close> where a key is missing.
\<close>

definition cellAt :: "Timetable \<Rightarrow> nat \<Rightarrow> string \<Rightarrow> string \<Rightarrow> cell" where
  "cellAt t i d s =
     (case map_of (schedule (batches t ! i)) d of None \<Rightarrow> Undefined | Some obj \<Rightarrow> getProp obj s)"

text \<open>No object of the timetable has a key twice (true of every JavaScript object).\<close>

definition distinctKeys :: "Timetable \<Rightarrow> bool" where
  "distinctKeys t =
     (\<forall>b \<in> set (batches t). distinct (keys (schedule b)) \<and>
        (\<forall>(d, obj) \<in> set (schedule b). distinct (keys obj)))"

text \<open>
  The conflict \<open>c\<close> is a report of kind \<open>k\<close> at \<open>(d, s)\<close> whose \<open>batches\<close> array is
  \<open>[i, j]\<close>.
\<close>

definition reportsPair ::
  "ConflictType \<Rightarrow> string \<Rightarrow> string \<Rightarrow> nat \<Rightarrow> nat \<Rightarrow> Conflict \<Rightarrow> bool" where
  "reportsPair k d s i j c =
     (conflictType c = k \<and> conflictDay c = d \<and> conflictSlot c = s \<and> conflictBatches c = (i, j))"

text \<open>
  Two classes held at the same day and slot collide: in the faculty kind when their faculty
  is the same, in the room kind when their room is the same and is not a lab.
\<close>

definition collide :: "ConflictType \<Rightarrow> ClassInfo \<Rightarrow> ClassInfo \<Rightarrow> bool" where
  "collide k class1 class2 =
     (case k of
        faculty_conflict \<Rightarrow> faculty class1 = faculty class2
      | room_conflict \<Rightarrow>
          room class1 = room class2 \<and>
          (case room class1 of None \<Rightarrow> False | Some r \<Rightarrow> \<not> includes_str r ''Lab''))"

text \<open>The list a run of the detector returns, when it returns.\<close>

definition projr_option :: "error + 'a \<Rightarrow> 'a option" where
  "projr_option r = (case r of Inl e \<Rightarrow> None | Inr x \<Rightarrow> Some x)"

text \<open>
  The scenario of two batches, one day and one slot, with the faculty \<open>X\<close> teaching both
  batches in that slot, each batch in its own room.
\<close>

definition sameFacultyScenario :: Timetable where
  "sameFacultyScenario =
     \<lparr>batches =
        [\<lparr>batch_id = 0, name = ''Batch 1'',
          schedule =
            [(''Monday'',
              [(''09:00-10:00'',
                Class \<lparr>subject = Some ''A'', faculty = Some ''X'', room = Some ''Room-101'',
                       color = Some ''#3B82F6''\<rparr>)])]\<rparr>,
         \<lparr>batch_id = 1, name = ''Batch 2'',
          schedule =
            [(''Monday'',
              [(''09:00-10:00'',
                Class \<lparr>subject = Some ''B'', faculty = Some ''X'', room = Some ''Room-102'',
                       color = Some ''#EF4444''\<rparr>)])]\<rparr>],
      fitness = Missing, conflicts = None, algorithm = None\<rparr>"

text \<open>
  The rejection condition of the Constraint Checker in the words of the specification:
  the batch \<open>b\<close> is not the candidate's batch, its entry at the candidate's day and slot is
  occupied, and that class has the candidate's faculty, or has the candidate's room and
  the room name does not denote a lab.
\<close>

definition spec_rejects :: "Assignment \<Rightarrow> Batch \<Rightarrow> bool" where
  "spec_rejects a b =
     (batch_id b \<noteq> batch a \<and>
      (case getCell b (day a) (slot a) of
         Inr (Class existing) \<Rightarrow>
           faculty existing = faculty a \<or>
           (room existing = room a \<and>
            (case room a of None \<Rightarrow> False | Some r \<Rightarrow> \<not> includes_str r ''Lab''))
       | _ \<Rightarrow> False))"

subsection \<open>The generator object\<close>

record Parameters =
  classrooms :: int
  batches_param :: int
  subjects_param :: int
  maxClasses :: int
  frequency :: int
  faculty_param :: int
  leaveRequests :: int
  algorithm_param :: string
  startTime :: string
  endTime :: string
  workingDays :: "string list"

text \<open>
  The fields of \<open>TimetableGenerator\<close>; \<open>courseSubjects\<close> and \<open>courseFaculty\<close> are
  \<open>courseData.subjects\<close> and \<open>courseData.faculty\<close>, and \<open>subjectColors\<close> is read at a
  property name.
\<close>

record Generator =
  courseSubjects :: "string list"
  courseFaculty :: "string list"
  parameters :: Parameters
  timeSlots :: "string list"
  days :: "string list"
  rooms :: "string list"
  subjectColors :: "string \<Rightarrow> string option"

text \<open>A \<open>forEach\<close> over objects each of which is updated on its own, and may throw.\<close>

primrec mapE :: "('a \<Rightarrow> error + 'b) \<Rightarrow> 'a list \<Rightarrow> error + 'b list" where
  "mapE f [] = Inr []"
| "mapE f (x # xs) =
     (case f x of
        Inl e \<Rightarrow> Inl e
      | Inr y \<Rightarrow> (case mapE f xs of Inl e \<Rightarrow> Inl e | Inr ys \<Rightarrow> Inr (y # ys)))"

subsection \<open>Genetic operators: \<open>crossover\<close> and \<open>mutate\<close>\<close>

text \<open>
  The body of the innermost loop of \<open>crossover\<close> at day \<open>d\<close> and slot \<open>s\<close>:
  \<open>parent2Batch\<close> is \<open>parent2.batches[batchIndex]\<close>, \<open>undefined\<close> when parent 2 has fewer
  batches. The class of parent 2 is copied by \<open>JSON.parse(JSON.stringify(...))\<close>.
\<close>

definition crossoverSlot :: "Batch option \<Rightarrow> string \<Rightarrow> string \<Rightarrow> Batch \<Rightarrow> error + Batch" where
  "crossoverSlot parent2Batch d s b =
     (case parent2Batch of
        None \<Rightarrow> Inl TypeError
      | Some p2 \<Rightarrow>
          thenE (getCell p2 d s)
            (\<lambda>class2. if truthy class2
                       then thenE (getCell b d s)
                              (\<lambda>c. if \<not> truthy c then setCell b d s class2 else Inr b)
                       else Inr b))"

definition crossoverBatch :: "Generator \<Rightarrow> Timetable \<Rightarrow> nat \<times> Batch \<Rightarrow> error + Batch" where
  "crossoverBatch g parent2 this =
     (case this of (batchIndex, b0) \<Rightarrow>
        foldE
          (\<lambda>(dayIndex, d) b.
             if int (length (days g)) \<le> 2 * int dayIndex
             then (case map_of (schedule b) d of
                     None \<Rightarrow> Inl TypeError
                   | Some obj \<Rightarrow>
                       foldE (crossoverSlot (nthOpt (batches parent2) batchIndex) d) (keys obj) b)
             else Inr b)
          (enumerate 0 (keys (schedule b0))) b0)"

definition crossover :: "Generator \<Rightarrow> Timetable \<Rightarrow> Timetable \<Rightarrow> error + Timetable" where
  "crossover g parent1 parent2 =
     (let offspring = deepCopy parent1
      in thenE (mapE (crossoverBatch g parent2) (enumerate 0 (batches offspring)))
           (\<lambda>bs. Inr (offspring\<lparr>batches := bs\<rparr>)))"

text \<open>The draws of one call of \<open>mutate\<close>, in the order of the calls of \<open>Math.random\<close>.\<close>

record MutationDraws =
  batchDraw :: nat
  emptyDraw :: nat
  filledDraw :: nat
  day1Draw :: nat
  day2Draw :: nat
  slot1Draw :: nat
  slot2Draw :: nat

text \<open>
  The coordinates of a batch in the order of \<open>Object.keys\<close>, each with the truthiness of
  its entry; \<open>emptySlots\<close> and \<open>filledSlots\<close> are its two parts.
\<close>

definition coordinates :: "Batch \<Rightarrow> error + ((string \<times> string) \<times> bool) list" where
  "coordinates b =
     concatMapE
       (\<lambda>d. case map_of (schedule b) d of
               None \<Rightarrow> Inl TypeError
             | Some obj \<Rightarrow> Inr (map (\<lambda>s. ((d, s), truthy (getProp obj s))) (keys obj)))
       (keys (schedule b))"

text \<open>\<open>Object.keys(batch.schedule[d])\<close>, which throws when \<open>d\<close> is not a key.\<close>

definition dayKeys :: "Batch \<Rightarrow> string \<Rightarrow> error + string list" where
  "dayKeys b d = (case map_of (schedule b) d of None \<Rightarrow> Inl TypeError | Some obj \<Rightarrow> Inr (keys obj))"

text \<open>The first branch: move the class of a random filled slot to a random empty slot.\<close>

definition moveClass :: "Batch \<Rightarrow> string \<times> string \<Rightarrow> string \<times> string \<Rightarrow> error + Batch" where
  "moveClass b randomEmpty randomFilled =
     thenE (getCell b (fst randomFilled) (snd randomFilled))
       (\<lambda>c. thenE (setCell b (fst randomEmpty) (snd randomEmpty) c)
               (\<lambda>b'. setCell b' (fst randomFilled) (snd randomFilled) Null))"

text \<open>
  The second branch: swap the entries of two random coordinates. With no day at all
  \<open>day1\<close> is \<open>undefined\<close> and \<open>Object.keys\<close> throws; a day without slots gives the slot
  \<open>undefined\<close>, which as a property name is the string \<open>undefined\<close>.
\<close>

definition swapSlots :: "MutationDraws \<Rightarrow> Batch \<Rightarrow> error + Batch" where
  "swapSlots r b =
     (case (pick (day1Draw r) (keys (schedule b)), pick (day2Draw r) (keys (schedule b))) of
        (Some day1, Some day2) \<Rightarrow>
          thenE (dayKeys b day1)
            (\<lambda>slots1. thenE (dayKeys b day2)
               (\<lambda>slots2.
                  let slot1 = str (pick (slot1Draw r) slots1);
                      slot2 = str (pick (slot2Draw r) slots2)
                  in thenE (getCell b day1 slot1)
                       (\<lambda>temp. thenE (getCell b day2 slot2)
                          (\<lambda>c. thenE (setCell b day1 slot1 c)
                                  (\<lambda>b'. setCell b' day2 slot2 temp)))))
      | _ \<Rightarrow> Inl TypeError)"

definition mutate :: "MutationDraws \<Rightarrow> Timetable \<Rightarrow> error + Timetable" where
  "mutate r individual =
     (let mutated = deepCopy individual
      in if batches mutated = [] then Inl TypeError
         else
           (let i = batchDraw r mod length (batches mutated);
                b = batches mutated ! i
            in thenE (coordinates b)
                 (\<lambda>cs. let emptySlots = map fst (filter (\<lambda>c. \<not> snd c) cs);
                            filledSlots = map fst (filter snd cs)
                        in thenE
                             (if emptySlots \<noteq> [] \<and> filledSlots \<noteq> []
                              then moveClass b
                                     (emptySlots ! (emptyDraw r mod length emptySlots))
                                     (filledSlots ! (filledDraw r mod length filledSlots))
                              else swapSlots r b)
                             (\<lambda>b'. Inr (mutated\<lparr>batches := (batches mutated)[i := b']\<rparr>)))))"

text \<open>
  The input has no \<open>undefined\<close> stored as an entry, as its type
  \<open>Record<string, ClassInfo | null>\<close> says; \<open>deepCopy\<close> then returns equal batches.
\<close>

definition noUndefined :: "Timetable \<Rightarrow> bool" where
  "noUndefined t =
     (\<forall>b \<in> set (batches t). \<forall>(d, obj) \<in> set (schedule b). \<forall>(s, c) \<in> set obj. c \<noteq> Undefined)"

text \<open>Two timetables have the same batches, days and slots, in the same order.\<close>

definition sameGrid :: "Timetable \<Rightarrow> Timetable \<Rightarrow> bool" where
  "sameGrid t1 t2 =
     (map (\<lambda>b. map (\<lambda>(d, obj). (d, keys obj)) (schedule b)) (batches t1) =
      map (\<lambda>b. map (\<lambda>(d, obj). (d, keys obj)) (schedule b)) (batches t2))"

subsection \<open>Construction of the generator and of the empty timetable\<close>

text \<open>\<open>xs.slice(0, n)\<close> for an integer \<open>n\<close>: a negative \<open>n\<close> counts from the end.\<close>

definition slice0 :: "int \<Rightarrow> 'a list \<Rightarrow> 'a list" where
  "slice0 n xs = (if n < 0 then take (nat (int (length xs) + n)) xs else take (nat n) xs)"

definition subjectPalette :: "string list" where
  "subjectPalette =
     [''#3B82F6'', ''#EF4444'', ''#10B981'', ''#F59E0B'', ''#8B5CF6'',
      ''#EC4899'', ''#06B6D4'', ''#84CC16'', ''#F97316'', ''#6366F1'',
      ''#14B8A6'', ''#F43F5E'', ''#8B5A2B'', ''#059669'', ''#7C3AED'']"

text \<open>
  \<open>colorMap[subject] = colors[index % colors.length]\<close> for each subject. For the subject
  \<open>__proto__\<close> the write is ignored; a read at that name gives the prototype, an object
  that is no colour string, where the model reads \<open>undefined\<close>.
\<close>

definition generateSubjectColors :: "string list \<Rightarrow> string \<Rightarrow> string option" where
  "generateSubjectColors subjects =
     fold (\<lambda>(index, subj) colorMap.
             if subj = ''__proto__'' then colorMap
             else colorMap(subj \<mapsto> subjectPalette ! (index mod length subjectPalette)))
          (enumerate 0 subjects) Map.empty"

text \<open>
  The constructor. The result is \<open>None\<close> only where the two times are not in the form
  \<open>HH:MM\<close>, which \<open>totalMinutes\<close> does not model.
\<close>

definition newGenerator :: "string list \<Rightarrow> string list \<Rightarrow> Parameters \<Rightarrow> Generator option" where
  "newGenerator subjects facultyNames params =
     (case generateTimeSlots (maxClasses params) (startTime params) (endTime params) of
        None \<Rightarrow> None
      | Some slots \<Rightarrow>
          Some \<lparr>courseSubjects = subjects,
                courseFaculty = facultyNames,
                parameters = params,
                timeSlots = slots,
                days = workingDays params,
                rooms = [''Room-101'', ''Room-102'', ''Room-103'', ''Lab-A'', ''Lab-B'',
                         ''Hall-1'', ''Hall-2'', ''Auditorium''],
                subjectColors = generateSubjectColors subjects\<rparr>)"

definition emptyDay :: "Generator \<Rightarrow> dayObj" where
  "emptyDay g =
     fold (\<lambda>s obj. setProp obj s Null) (slice0 (maxClasses (parameters g)) (timeSlots g)) []"

definition emptySchedule :: "Generator \<Rightarrow> scheduleObj" where
  "emptySchedule g = fold (\<lambda>d sched. setProp sched d (emptyDay g)) (days g) []"

definition createEmptyTimetable :: "Generator \<Rightarrow> Timetable" where
  "createEmptyTimetable g =
     \<lparr>batches =
        map (\<lambda>b. \<lparr>batch_id = int b, name = ''Batch '' @ toString (b + 1),
                   schedule = emptySchedule g\<rparr>)
            [0..<nat (batches_param (parameters g))],
      fitness = Missing, conflicts = None, algorithm = None\<rparr>"

text \<open>
  \<open>Math.floor(n * 0.82)\<close> for an integer \<open>n\<close>, in IEEE double arithmetic. The literal
  \<open>0.82\<close> is the double \<open>7385903388887613 / 2^53\<close>, a little below \<open>82 / 100\<close>; the exact
  product is rounded to 53 significant bits, to nearest and ties to even, before the
  floor is taken. \<open>roundTo53\<close> rounds the numerator of a fraction over a power of two.
\<close>

function bitLength :: "int \<Rightarrow> nat" where
  "bitLength n = (if n \<le> 0 then 0 else Suc (bitLength (n div 2)))"
  by pat_completeness auto
termination
  by (relation "measure nat") auto

declare bitLength.simps [simp del]

definition roundTo53 :: "int \<Rightarrow> int" where
  "roundTo53 m =
     (let shift = bitLength m - 53;
          quotient = m div 2 ^ shift;
          remainder = m mod 2 ^ shift
      in if 2 * remainder > 2 ^ shift \<or> (2 * remainder = 2 ^ shift \<and> odd quotient)
         then (quotient + 1) * 2 ^ shift
         else quotient * 2 ^ shift)"

definition floorTimes082 :: "int \<Rightarrow> int" where
  "floorTimes082 n =
     (let product = roundTo53 (\<bar>n\<bar> * 7385903388887613)
      in if 0 \<le> n then product div 2 ^ 53
         else - ((product + (2 ^ 53 - 1)) div 2 ^ 53))"

definition calculateOptimalClassCount :: "Generator \<Rightarrow> int" where
  "calculateOptimalClassCount g =
     (let totalSlotsPerBatch = int (length (days g)) * maxClasses (parameters g);
          minFreePeriods = 1;
          maxClassesPerBatch = totalSlotsPerBatch - minFreePeriods;
          targetClassesPerBatch = floorTimes082 totalSlotsPerBatch;
          optimalClassesPerBatch = min targetClassesPerBatch maxClassesPerBatch
      in optimalClassesPerBatch * batches_param (parameters g))"

definition getOptimalSlotOrder :: "Generator \<Rightarrow> (string \<times> string) list" where
  "getOptimalSlotOrder g =
     concat (map (\<lambda>d. map (\<lambda>s. (d, s))
                         (take (nat (min (int (length (timeSlots g))) (maxClasses (parameters g))))
                               (timeSlots g)))
                 (days g))"

text \<open>
  \<open>this.rooms[n % Math.min(this.rooms.length, this.parameters.classrooms)]\<close>: the
  remainder has the sign of \<open>n\<close>, is \<open>NaN\<close> for the divisor \<open>0\<close>, and an index that is
  \<open>NaN\<close>, negative or too large reads \<open>undefined\<close>.
\<close>

definition roomFor :: "Generator \<Rightarrow> int \<Rightarrow> string option" where
  "roomFor g n =
     (let m = min (int (length (rooms g))) (classrooms (parameters g))
      in if m = 0 then None
         else if n < 0 \<and> \<bar>n\<bar> mod \<bar>m\<bar> \<noteq> 0 then None
         else nthOpt (rooms g) (nat (\<bar>n\<bar> mod \<bar>m\<bar>)))"

subsection \<open>Gap-Filling Optimizer: \<open>fillGaps\<close>\<close>

text \<open>
  The entries of a batch at the days \<open>ds\<close> and slots \<open>ss\<close>, read as
  \<open>batch.schedule[d][s]\<close> in the order of the two nested \<open>forEach\<close>.
\<close>

definition gridCells ::
  "Batch \<Rightarrow> string list \<Rightarrow> string list \<Rightarrow> error + ((string \<times> string) \<times> cell) list" where
  "gridCells b ds ss =
     concatMapE (\<lambda>d. mapE (\<lambda>s. thenE (getCell b d s) (\<lambda>c. Inr ((d, s), c))) ss) ds"

text \<open>\<open>xs.indexOf(x)\<close>: the first position of \<open>x\<close>, and \<open>-1\<close> when there is none.\<close>

definition indexOf :: "'a \<Rightarrow> 'a list \<Rightarrow> int" where
  "indexOf x xs = (if x \<in> set xs then int (length (takeWhile (\<lambda>y. y \<noteq> x) xs)) else - 1)"

text \<open>
  \<open>this.courseData.faculty[n % this.courseData.faculty.length]\<close>, read like \<open>roomFor\<close>: for
  \<open>n = -1\<close> and one faculty name the remainder is \<open>-0\<close> and the index is \<open>0\<close>.
\<close>

definition facultyFor :: "Generator \<Rightarrow> int \<Rightarrow> string option" where
  "facultyFor g n =
     (let m = int (length (courseFaculty g))
      in if m = 0 then None
         else if n < 0 \<and> \<bar>n\<bar> mod m \<noteq> 0 then None
         else nthOpt (courseFaculty g) (nat (\<bar>n\<bar> mod m)))"

text \<open>
  The candidate \<open>assignment\<close> built for an empty slot of the batch \<open>b\<close>, from the entries
  \<open>cells\<close> of the batch and the draw \<open>r\<close>. \<open>subjectCounts\<close> is a plain \<open>{}\<close> that gets a key
  for each subject. The write \<open>subjectCounts['__proto__'] = 0\<close> is ignored, so that subject
  is no key and never a candidate. After \<open>subjectCounts['hasOwnProperty'] = 0\<close> the call
  \<open>subjectCounts.hasOwnProperty(...)\<close>, made at the first entry that is a class, throws.
  With no key \<open>Math.min()\<close> is \<open>Infinity\<close>, no subject is a candidate, the selected subject
  is \<open>undefined\<close> and its \<open>indexOf\<close> is \<open>-1\<close>.
\<close>

definition gapAssignment ::
  "Generator \<Rightarrow> nat \<Rightarrow> Batch \<Rightarrow> string \<times> string \<Rightarrow> ((string \<times> string) \<times> cell) list \<Rightarrow>
     error + Assignment" where
  "gapAssignment g r b emptySlot cells =
     (let subjects = slice0 (subjects_param (parameters g)) (courseSubjects g);
          ownKeys = filter (\<lambda>subj. subj \<noteq> ''__proto__'') subjects
      in if ''hasOwnProperty'' \<in> set subjects \<and> list_ex (\<lambda>(ds, c). truthy c) cells
         then Inl TypeError
         else
           (let subjectCounts =
                  (\<lambda>subj. length (filter (\<lambda>(ds, c). case c of
                                                      Class classInfo \<Rightarrow> str (subject classInfo) = subj
                                                    | _ \<Rightarrow> False) cells));
                candidateSubjects =
                  (if ownKeys = [] then []
                   else filter (\<lambda>subj. subj \<noteq> ''__proto__'' \<and>
                                       subjectCounts subj = Min (set (map subjectCounts ownKeys)))
                          subjects);
                selectedSubject = pick r candidateSubjects
            in Inr \<lparr>subject = selectedSubject,
                    faculty = facultyFor g (indexOf selectedSubject (map Some subjects)),
                    room = roomFor g (batch_id b),
                    color = None,
                    batch = batch_id b,
                    day = fst emptySlot,
                    slot = snd emptySlot\<rparr>))"

text \<open>
  The body of the loop over the empty slots to fill, for the batch at position \<open>i\<close> and
  the draw \<open>r\<close>.
\<close>

definition fillSlot ::
  "Generator \<Rightarrow> nat \<Rightarrow> nat \<Rightarrow> string \<times> string \<Rightarrow> Timetable \<Rightarrow> error + Timetable" where
  "fillSlot g r i emptySlot optimized =
     (let b = batches optimized ! i
      in thenE (gridCells b (days g) (timeSlots g))
           (\<lambda>cells.
              thenE (gapAssignment g r b emptySlot cells)
                (\<lambda>assignment.
                   thenE (isValidAssignment optimized assignment)
                     (\<lambda>ok. if ok
                            then thenE
                                   (setCell b (fst emptySlot) (snd emptySlot)
                                      (Class \<lparr>subject = subject assignment,
                                              faculty = faculty assignment,
                                              room = room assignment,
                                              color = subjectColors g (str (subject assignment))\<rparr>))
                                   (\<lambda>b'. Inr (optimized\<lparr>batches := (batches optimized)[i := b']\<rparr>))
                            else Inr optimized))))"

text \<open>
  The body of the loop over the batches, for the batch at position \<open>i\<close>; \<open>rnd i k\<close> is the
  draw made for the \<open>k\<close>-th empty slot of that batch.
\<close>

definition fillBatch ::
  "Generator \<Rightarrow> (nat \<Rightarrow> nat \<Rightarrow> nat) \<Rightarrow> nat \<Rightarrow> Timetable \<Rightarrow> error + Timetable" where
  "fillBatch g rnd i optimized =
     thenE (gridCells (batches optimized ! i) (days g)
              (slice0 (maxClasses (parameters g)) (timeSlots g)))
       (\<lambda>cells.
          let currentFilledSlots = length (filter (\<lambda>(ds, c). truthy c) cells);
              emptySlots = map fst (filter (\<lambda>(ds, c). \<not> truthy c) cells);
              totalSlots = int (length (days g)) * maxClasses (parameters g);
              maxAllowedClasses = totalSlots - 1;
              slotsToFill = min (int (length emptySlots)) (maxAllowedClasses - int currentFilledSlots)
          in foldE (\<lambda>(k, emptySlot). fillSlot g (rnd i k) i emptySlot)
               (enumerate 0 (slice0 (max 0 slotsToFill) emptySlots)) optimized)"

definition fillGaps :: "Generator \<Rightarrow> (nat \<Rightarrow> nat \<Rightarrow> nat) \<Rightarrow> Timetable \<Rightarrow> error + Timetable" where
  "fillGaps g rnd t =
     (let optimized = deepCopy t
      in foldE (fillBatch g rnd) [0..<length (batches optimized)] optimized)"

text \<open>
  The coordinates \<open>fillGaps\<close> scans in each batch: the working days and the first
  \<open>maxClasses\<close> time slots.
\<close>

definition gridCoordinates :: "Generator \<Rightarrow> (string \<times> string) list" where
  "gridCoordinates g =
     concat (map (\<lambda>d. map (\<lambda>s. (d, s)) (slice0 (maxClasses (parameters g)) (timeSlots g)))
                 (days g))"

text \<open>
  \<open>currentFilledSlots\<close> of a batch as \<open>fillGaps\<close> counts it: the occupied ones among these
  coordinates.
\<close>

definition filledCount :: "Generator \<Rightarrow> Batch \<Rightarrow> nat" where
  "filledCount g b =
     length (filter (\<lambda>(d, s). case getCell b d s of Inr c \<Rightarrow> truthy c | Inl e \<Rightarrow> False)
               (gridCoordinates g))"

text \<open>
  The most classes a batch can hold after one pass of \<open>fillGaps\<close>: those it has, and
  \<open>min(emptyCount, maxAllowedClasses - filledCount)\<close> more when that is positive.
\<close>

definition fillBound :: "Generator \<Rightarrow> Batch \<Rightarrow> int" where
  "fillBound g b =
     int (filledCount g b) +
     max 0 (min (int (length (gridCoordinates g) - filledCount g b))
                (int (length (days g)) * maxClasses (parameters g) - 1 - int (filledCount g b)))"

subsection \<open>Example inputs\<close>

text \<open>
  A generator for two working days with one slot a day, and two timetables on its grid
  with two batches each.
\<close>

definition twoDays :: Generator where
  "twoDays =
     \<lparr>courseSubjects = [''A'', ''B''],
      courseFaculty = [''X'', ''Y''],
      parameters =
        \<lparr>classrooms = 2, batches_param = 2, subjects_param = 2, maxClasses = 1, frequency = 1,
         faculty_param = 2, leaveRequests = 0, algorithm_param = ''genetic'',
         startTime = ''09:00'', endTime = ''10:00'', workingDays = [''Monday'', ''Tuesday'']\<rparr>,
      timeSlots = [''09:00-10:00''],
      days = [''Monday'', ''Tuesday''],
      rooms = [''Room-101'', ''Room-102'', ''Room-103'', ''Lab-A'', ''Lab-B'',
               ''Hall-1'', ''Hall-2'', ''Auditorium''],
      subjectColors = generateSubjectColors [''A'', ''B'']\<rparr>"

definition classA :: ClassInfo where
  "classA = \<lparr>subject = Some ''A'', faculty = Some ''X'', room = Some ''Room-101'',
             color = Some ''#3B82F6''\<rparr>"

definition classB :: ClassInfo where
  "classB = \<lparr>subject = Some ''B'', faculty = Some ''Y'', room = Some ''Room-102'',
             color = Some ''#EF4444''\<rparr>"

definition mondayOnly :: Timetable where
  "mondayOnly =
     \<lparr>batches =
        [\<lparr>batch_id = 0, name = ''Batch 1'',
          schedule = [(''Monday'', [(''09:00-10:00'', Class classA)]),
                      (''Tuesday'', [(''09:00-10:00'', Null)])]\<rparr>,
         \<lparr>batch_id = 1, name = ''Batch 2'',
          schedule = [(''Monday'', [(''09:00-10:00'', Class classB)]),
                      (''Tuesday'', [(''09:00-10:00'', Null)])]\<rparr>],
      fitness = Missing, conflicts = None, algorithm = None\<rparr>"

definition bothDays :: Timetable where
  "bothDays =
     \<lparr>batches =
        [\<lparr>batch_id = 0, name = ''Batch 1'',
          schedule = [(''Monday'', [(''09:00-10:00'', Class classB)]),
                      (''Tuesday'', [(''09:00-10:00'', Class classB)])]\<rparr>,
         \<lparr>batch_id = 1, name = ''Batch 2'',
          schedule = [(''Monday'', [(''09:00-10:00'', Class classA)]),
                      (''Tuesday'', [(''09:00-10:00'', Class classA)])]\<rparr>],
      fitness = Missing, conflicts = None, algorithm = None\<rparr>"

definition zeroDraws :: MutationDraws where
  "zeroDraws = \<lparr>batchDraw = 0, emptyDraw = 0, filledDraw = 0, day1Draw = 0, day2Draw = 0,
                slot1Draw = 0, slot2Draw = 0\<rparr>"

text \<open>A generator for one working day with one slot, and the timetable that fills it.\<close>

definition oneSlot :: Generator where
  "oneSlot =
     \<lparr>courseSubjects = [''A'', ''B''],
      courseFaculty = [''X''],
      parameters =
        \<lparr>classrooms = 1, batches_param = 1, subjects_param = 2, maxClasses = 1, frequency = 1,
         faculty_param = 1, leaveRequests = 0, algorithm_param = ''constraint'',
         startTime = ''09:00'', endTime = ''10:00'', workingDays = [''Monday'']\<rparr>,
      timeSlots = [''09:00-10:00''],
      days = [''Monday''],
      rooms = [''Room-101'', ''Room-102'', ''Room-103'', ''Lab-A'', ''Lab-B'',
               ''Hall-1'', ''Hall-2'', ''Auditorium''],
      subjectColors = generateSubjectColors [''A'', ''B'']\<rparr>"

definition oneSlotFull :: Timetable where
  "oneSlotFull =
     \<lparr>batches =
        [\<lparr>batch_id = 0, name = ''Batch 1'',
          schedule = [(''Monday'', [(''09:00-10:00'', Class classA)])]\<rparr>],
      fitness = Missing, conflicts = None, algorithm = None\<rparr>"

subsection \<open>Fitness Evaluator: \<open>calculateFitness\<close>\<close>

text \<open>
  The loop of \<open>calculateGapPenalty\<close> from position \<open>i\<close> on, with its flag \<open>inSequence\<close>;
  the inner loop looks for a class after the gap.
\<close>

primrec gapPenaltyFrom :: "bool \<Rightarrow> cell list \<Rightarrow> nat" where
  "gapPenaltyFrom inSequence [] = 0"
| "gapPenaltyFrom inSequence (c # rest) =
     (if truthy c then gapPenaltyFrom True rest
      else if inSequence
      then (let hasClassesAfter = list_ex truthy rest
            in (if hasClassesAfter then 2 else 0) + gapPenaltyFrom inSequence rest)
      else gapPenaltyFrom inSequence rest)"

definition calculateGapPenalty :: "cell list \<Rightarrow> nat" where
  "calculateGapPenalty daySchedule = gapPenaltyFrom False daySchedule"

text \<open>
  The day objects \<open>Object.values(batch.schedule)\<close> of all batches, in the order the loops of
  \<open>calculateFitness\<close> and \<open>calculateSubjectDistribution\<close> visit them, and the three
  counters of \<open>calculateFitness\<close>.
\<close>

definition dayObjects :: "Timetable \<Rightarrow> dayObj list" where
  "dayObjects t = concat (map (\<lambda>b. map snd (schedule b)) (batches t))"

definition totalSlotsOf :: "Timetable \<Rightarrow> nat" where
  "totalSlotsOf t = sum_list (map length (dayObjects t))"

definition filledSlotsOf :: "Timetable \<Rightarrow> nat" where
  "filledSlotsOf t = sum_list (map (\<lambda>obj. length (filter (\<lambda>(s, c). truthy c) obj)) (dayObjects t))"

definition gapPenaltyOf :: "Generator \<Rightarrow> Timetable \<Rightarrow> nat" where
  "gapPenaltyOf g t =
     sum_list (map (\<lambda>obj. calculateGapPenalty
                             (map (getProp obj) (slice0 (maxClasses (parameters g)) (timeSlots g))))
                   (dayObjects t))"

text \<open>
  The functions a plain object \<open>{}\<close> inherits from \<open>Object.prototype\<close>. It also inherits the
  accessor \<open>__proto__\<close>, whose getter gives the prototype and whose setter ignores a value
  that is no object.
\<close>

definition inheritedFunctions :: "string list" where
  "inheritedFunctions =
     [''constructor'', ''__defineGetter__'', ''__defineSetter__'', ''hasOwnProperty'',
      ''__lookupGetter__'', ''__lookupSetter__'', ''isPrototypeOf'', ''propertyIsEnumerable'',
      ''toString'', ''valueOf'', ''toLocaleString'']"

text \<open>
  The value of a property of \<open>subjectCounts\<close>: a number, or a string that starts with the
  source text of a function and reads as no number.
\<close>

datatype counter = Counter nat | FunctionText

text \<open>
  \<open>subjectCounts[slot.subject] = (subjectCounts[slot.subject] || 0) + 1\<close> for an entry that
  is a class with a truthy (defined, non-empty) subject. \<open>subjectCounts\<close> is a plain \<open>{}\<close>:
  where the subject names an inherited function and is no key yet, the read gives that
  function, which is truthy, and \<open>+ 1\<close> appends \<open>1\<close> to its source text; the string is
  stored and every later \<open>+ 1\<close> appends to it. For \<open>__proto__\<close> the read gives the prototype
  and the write of the resulting string is ignored: the object stays as it is.
\<close>

definition countSubject :: "(string \<times> counter) list \<Rightarrow> cell \<Rightarrow> (string \<times> counter) list" where
  "countSubject subjectCounts c =
     (case c of
        Class classInfo \<Rightarrow>
          (case subject classInfo of
             Some subj \<Rightarrow>
               if subj \<noteq> [] \<and> subj \<noteq> ''__proto__''
               then setProp subjectCounts subj
                      (case map_of subjectCounts subj of
                         None \<Rightarrow> if subj \<in> set inheritedFunctions then FunctionText else Counter 1
                       | Some (Counter n) \<Rightarrow> Counter (n + 1)
                       | Some FunctionText \<Rightarrow> FunctionText)
               else subjectCounts
           | None \<Rightarrow> subjectCounts)
      | _ \<Rightarrow> subjectCounts)"

definition subjectCountsOf :: "Timetable \<Rightarrow> (string \<times> counter) list" where
  "subjectCountsOf t =
     fold (\<lambda>c subjectCounts. countSubject subjectCounts c)
          (concat (map (map snd) (dayObjects t))) []"

text \<open>The counts as numbers, when all of them are.\<close>

primrec numbersOf :: "counter list \<Rightarrow> real list option" where
  "numbersOf [] = Some []"
| "numbersOf (c # cs) =
     (case (c, numbersOf cs) of
        (Counter n, Some xs) \<Rightarrow> Some (real n # xs)
      | _ \<Rightarrow> None)"

text \<open>
  With a string among the counts the sum \<open>counts.reduce((a, b) => a + b, 0)\<close> is a
  concatenation that reads as no number: the mean is \<open>NaN\<close>, and so are the variance and
  \<open>Math.max(0, 15 - variance)\<close>.
\<close>

definition calculateSubjectDistribution :: "Timetable \<Rightarrow> number" where
  "calculateSubjectDistribution t =
     (let counts = map snd (subjectCountsOf t)
      in if counts = [] then Number 0
         else
           (case numbersOf counts of
              None \<Rightarrow> NaN
            | Some xs \<Rightarrow>
                (let mean = sum_list xs / real (length xs);
                     variance = sum_list (map (\<lambda>count. (count - mean)\<^sup>2) xs) / real (length xs)
                 in Number (max 0 (15 - variance)))))"

text \<open>
  Once \<open>subjectDistribution\<close> is \<open>NaN\<close> so is \<open>fitness\<close>, through the bonus and through
  \<open>Math.max(0, fitness)\<close>.
\<close>

definition calculateFitness :: "Generator \<Rightarrow> Timetable \<Rightarrow> error + number" where
  "calculateFitness g t =
     thenE (detectConflicts t)
       (\<lambda>conflicts.
          let fitness0 = 100 - real (length conflicts) * 25;
              filledSlots = filledSlotsOf t;
              totalSlots = totalSlotsOf t;
              gapPenalty = gapPenaltyOf g t;
              fillRatio = (if totalSlots > 0 then real filledSlots / real totalSlots else 0);
              optimalUtilization = 85 / 100;
              utilizationScore =
                (if fillRatio \<le> optimalUtilization then fillRatio * 50
                 else optimalUtilization * 50 - (fillRatio - optimalUtilization) * 20);
              fitness1 = fitness0 + utilizationScore;
              fitness2 = fitness1 - real gapPenalty * 5
          in (case calculateSubjectDistribution t of
                NaN \<Rightarrow> Inr NaN
              | Number subjectDistribution \<Rightarrow>
                  (let fitness3 = fitness2 + subjectDistribution * 8;
                       fitness4 = (if fillRatio > 8 / 10 then fitness3 + (fillRatio - 8 / 10) * 100
                                   else fitness3)
                   in Inr (Number (max 0 fitness4)))))"

text \<open>
  The fitness formula in the words of the specification, as a function of the number of
  conflicts, the fill ratio \<open>r\<close>, the gap penalty and the per-subject occurrence counts.
  The variance is the population variance; for no counts at all it is the quotient
  \<open>0 / 0\<close>, which is \<open>0\<close> in HOL.
\<close>

definition spec_utilizationScore :: "real \<Rightarrow> real" where
  "spec_utilizationScore r = (if r \<le> 85 / 100 then 50 * r else 85 / 100 * 50 - (r - 85 / 100) * 20)"

definition spec_variance :: "real list \<Rightarrow> real" where
  "spec_variance xs =
     sum_list (map (\<lambda>x. (x - sum_list xs / real (length xs))\<^sup>2) xs) / real (length xs)"

definition spec_distributionScore :: "real list \<Rightarrow> real" where
  "spec_distributionScore counts = max 0 (15 - spec_variance counts)"

definition spec_bonus :: "real \<Rightarrow> real" where
  "spec_bonus r = max 0 (r - 8 / 10) * 100"

definition spec_fitness :: "nat \<Rightarrow> real \<Rightarrow> nat \<Rightarrow> real list \<Rightarrow> real" where
  "spec_fitness conflictCount r gapPenalty counts =
     max 0 (100 - 25 * real conflictCount + spec_utilizationScore r - 5 * real gapPenalty +
            8 * spec_distributionScore counts + spec_bonus r)"

text \<open>
  The subjects of the scheduled classes of a timetable, one for each class that has a
  subject, and the per-subject occurrence counts: for each subject that occurs, in the
  order of first occurrence, the number of classes that have it.
\<close>

definition spec_subjectOf :: "cell \<Rightarrow> string list" where
  "spec_subjectOf c =
     (case c of
        Class classInfo \<Rightarrow>
          (case subject classInfo of
             Some subj \<Rightarrow> if subj \<noteq> [] then [subj] else []
           | None \<Rightarrow> [])
      | _ \<Rightarrow> [])"

definition spec_subjects :: "Timetable \<Rightarrow> string list" where
  "spec_subjects t = concat (map spec_subjectOf (concat (map (map snd) (dayObjects t))))"

definition spec_occurrenceCounts :: "Timetable \<Rightarrow> real list" where
  "spec_occurrenceCounts t =
     map (\<lambda>subj. real (count_list (spec_subjects t) subj)) (rev (remdups (rev (spec_subjects t))))"

text \<open>No class has a subject named like a property that every object inherits.\<close>

definition plainSubjects :: "Timetable \<Rightarrow> bool" where
  "plainSubjects t =
     list_all (\<lambda>subj. subj \<notin> set (''__proto__'' # inheritedFunctions)) (spec_subjects t)"

text \<open>The fill ratio of a timetable, \<open>0\<close> for a timetable without any slot.\<close>

definition fillRatioOf :: "Timetable \<Rightarrow> real" where
  "fillRatioOf t =
     (if totalSlotsOf t > 0 then real (filledSlotsOf t) / real (totalSlotsOf t) else 0)"

text \<open>
  A generator for four working days with five slots a day, and a timetable of one batch on
  its grid with 17 of the 20 slots filled by the same class, the three free slots at the
  end of the last day.
\<close>

definition fourDays :: Generator where
  "fourDays =
     \<lparr>courseSubjects = [''A''],
      courseFaculty = [''X''],
      parameters =
        \<lparr>classrooms = 1, batches_param = 1, subjects_param = 1, maxClasses = 5, frequency = 1,
         faculty_param = 1, leaveRequests = 0, algorithm_param = ''constraint'',
         startTime = ''09:00'', endTime = ''14:00'',
         workingDays = [''Monday'', ''Tuesday'', ''Wednesday'', ''Thursday'']\<rparr>,
      timeSlots = [''09:00-10:00'', ''10:00-11:00'', ''11:00-12:00'', ''12:00-13:00'',
                   ''13:00-14:00''],
      days = [''Monday'', ''Tuesday'', ''Wednesday'', ''Thursday''],
      rooms = [''Room-101'', ''Room-102'', ''Room-103'', ''Lab-A'', ''Lab-B'',
               ''Hall-1'', ''Hall-2'', ''Auditorium''],
      subjectColors = generateSubjectColors [''A'']\<rparr>"

definition fullDay :: dayObj where
  "fullDay = map (\<lambda>s. (s, Class classA)) (timeSlots fourDays)"

definition seventeenOfTwenty :: Timetable where
  "seventeenOfTwenty =
     \<lparr>batches =
        [\<lparr>batch_id = 0, name = ''Batch 1'',
          schedule =
            [(''Monday'', fullDay), (''Tuesday'', fullDay), (''Wednesday'', fullDay),
             (''Thursday'',
              [(''09:00-10:00'', Class classA), (''10:00-11:00'', Class classA),
               (''11:00-12:00'', Null), (''12:00-13:00'', Null), (''13:00-14:00'', Null)])]\<rparr>],
      fitness = Missing, conflicts = None, algorithm = None\<rparr>"

subsection \<open>Constraint-first strategy: \<open>constraintProgramming\<close>\<close>

text \<open>An element of the array \<open>assignments\<close>: a class for a batch, with its priority.\<close>

record Request = ClassInfo +
  requestBatch :: int
  priority :: real

text \<open>
  The array \<open>assignments\<close> in the order it is built; \<open>u k\<close> is the value of \<open>Math.random()\<close>
  for its \<open>k\<close>-th element. \<open>Math.ceil(totalClassesNeeded / (subjects.length * batches))\<close> is
  the exact ceiling (the rounded quotient of two integers below \<open>2^53\<close> is an integer only
  when the exact one is, or lies above it); where the divisor is not positive the loops
  below it do not run and \<open>actualFrequency\<close> is not used.
\<close>

definition requests :: "Generator \<Rightarrow> (nat \<Rightarrow> real) \<Rightarrow> Request list" where
  "requests g u =
     (let subjects = slice0 (subjects_param (parameters g)) (courseSubjects g);
          totalClassesNeeded = calculateOptimalClassCount g;
          extraFrequency =
            - ((- totalClassesNeeded) div (int (length subjects) * batches_param (parameters g)));
          actualFrequency = max (frequency (parameters g)) extraFrequency;
          batchCount = nat (batches_param (parameters g))
      in concat (map (\<lambda>(subjectIndex, subj).
           concat (map (\<lambda>freq.
             map (\<lambda>b.
                    \<lparr>subject = Some subj,
                     faculty =
                       (if courseFaculty g = [] then None
                        else Some (courseFaculty g ! (subjectIndex mod length (courseFaculty g)))),
                     room = roomFor g (int b),
                     color = None,
                     requestBatch = int b,
                     priority =
                       u ((subjectIndex * nat actualFrequency + freq) * batchCount + b) +
                       (if int freq < frequency (parameters g) then 1 else 1 / 2)\<rparr>)
                 [0..<batchCount])
             [0..<nat actualFrequency]))
           (enumerate 0 subjects)))"

text \<open>\<open>assignments.sort((a, b) => b.priority - a.priority)\<close>, a stable sort.\<close>

definition sortByPriority :: "Request list \<Rightarrow> Request list" where
  "sortByPriority qs = sort_key (\<lambda>q. - priority q) qs"

text \<open>
  The loop over the attempts for one assignment: it is placed at the first coordinate
  that is empty in its batch and accepted by the Constraint Checker, and dropped when
  there is none.
\<close>

fun placeAt :: "Generator \<Rightarrow> Request \<Rightarrow> (string \<times> string) list \<Rightarrow> Timetable \<Rightarrow> error + Timetable"
  where
  "placeAt g q [] t = Inr t"
| "placeAt g q (attempt # attempts) t =
     (case nthOpt (batches t) (nat (requestBatch q)) of
        None \<Rightarrow> Inl TypeError
      | Some b \<Rightarrow>
          thenE (getCell b (fst attempt) (snd attempt))
            (\<lambda>c. if \<not> truthy c
                 then thenE
                        (isValidAssignment t
                           \<lparr>subject = subject q, faculty = faculty q, room = room q,
                            color = None, batch = requestBatch q,
                            day = fst attempt, slot = snd attempt\<rparr>)
                        (\<lambda>ok. if ok
                               then thenE
                                      (setCell b (fst attempt) (snd attempt)
                                         (Class \<lparr>subject = subject q, faculty = faculty q,
                                                 room = room q,
                                                 color = subjectColors g (str (subject q))\<rparr>))
                                      (\<lambda>b'. Inr (t\<lparr>batches :=
                                                      (batches t)[nat (requestBatch q) := b']\<rparr>))
                               else placeAt g q attempts t)
                 else placeAt g q attempts t))"

text \<open>The timetable after the placement loop, before gap filling.\<close>

definition placeAll :: "Generator \<Rightarrow> (nat \<Rightarrow> real) \<Rightarrow> error + Timetable" where
  "placeAll g u =
     foldE (\<lambda>q. placeAt g q (getOptimalSlotOrder g)) (sortByPriority (requests g u))
       (createEmptyTimetable g)"

definition constraintProgramming ::
  "Generator \<Rightarrow> (nat \<Rightarrow> real) \<Rightarrow> (nat \<Rightarrow> nat \<Rightarrow> nat) \<Rightarrow> error + Timetable" where
  "constraintProgramming g u rnd =
     thenE (placeAll g u)
       (\<lambda>timetable.
          thenE (fillGaps g rnd timetable)
            (\<lambda>optimizedTimetable.
               thenE (calculateFitness g optimizedTimetable)
                 (\<lambda>f. thenE (detectConflicts optimizedTimetable)
                         (\<lambda>cs. Inr (optimizedTimetable
                                       \<lparr>fitness := Value f, conflicts := Some cs,
                                        algorithm := Some ''constraint''\<rparr>)))))"

text \<open>The number of empty entries in the weekly schedule of a batch.\<close>

definition freeSlots :: "Batch \<Rightarrow> nat" where
  "freeSlots b =
     length (filter (\<lambda>c. \<not> truthy c) (concat (map (\<lambda>(d, obj). map snd obj) (schedule b))))"

text \<open>
  A generator for one batch, two subjects and five working days from 09:00 to 12:00 with
  at most six classes a day: three slots a day.
\<close>

definition shortDays :: Generator where
  "shortDays =
     \<lparr>courseSubjects = [''A'', ''B''],
      courseFaculty = [''X''],
      parameters =
        \<lparr>classrooms = 5, batches_param = 1, subjects_param = 2, maxClasses = 6, frequency = 1,
         faculty_param = 1, leaveRequests = 0, algorithm_param = ''constraint'',
         startTime = ''09:00'', endTime = ''12:00'',
         workingDays = [''Monday'', ''Tuesday'', ''Wednesday'', ''Thursday'', ''Friday'']\<rparr>,
      timeSlots = [''09:00-10:00'', ''10:00-11:00'', ''11:00-12:00''],
      days = [''Monday'', ''Tuesday'', ''Wednesday'', ''Thursday'', ''Friday''],
      rooms = [''Room-101'', ''Room-102'', ''Room-103'', ''Lab-A'', ''Lab-B'',
               ''Hall-1'', ''Hall-2'', ''Auditorium''],
      subjectColors = generateSubjectColors [''A'', ''B'']\<rparr>"

text \<open>The scenario of the specification: the same on five slots a day, 09:00 to 14:00.\<close>

definition fiveByFive :: Generator where
  "fiveByFive =
     \<lparr>courseSubjects = [''A'', ''B''],
      courseFaculty = [''X''],
      parameters =
        \<lparr>classrooms = 5, batches_param = 1, subjects_param = 2, maxClasses = 5, frequency = 1,
         faculty_param = 1, leaveRequests = 0, algorithm_param = ''constraint'',
         startTime = ''09:00'', endTime = ''14:00'',
         workingDays = [''Monday'', ''Tuesday'', ''Wednesday'', ''Thursday'', ''Friday'']\<rparr>,
      timeSlots = [''09:00-10:00'', ''10:00-11:00'', ''11:00-12:00'', ''12:00-13:00'',
                   ''13:00-14:00''],
      days = [''Monday'', ''Tuesday'', ''Wednesday'', ''Thursday'', ''Friday''],
      rooms = [''Room-101'', ''Room-102'', ''Room-103'', ''Lab-A'', ''Lab-B'',
               ''Hall-1'', ''Hall-2'', ''Auditorium''],
      subjectColors = generateSubjectColors [''A'', ''B'']\<rparr>"

section \<open>The generator over a store: who writes where\<close>

text \<open>
  To state that a function leaves its argument alone, the day objects, the only objects
  the generator ever writes after their creation, are placed in a store: a list of day
  objects, the address of an object being its position. A batch holds, for every day,
  the address of its day object. Reading is done on the snapshot \<open>load h t\<close> of a
  timetable \<open>t\<close> in the store \<open>h\<close>; a write \<open>batch.schedule[d][s] = v\<close> updates the store at
  the address of day \<open>d\<close>; \<open>JSON.parse(JSON.stringify(t))\<close> allocates a new day object for
  every day of every batch. The operations below follow the same source lines as their
  counterparts by value.
\<close>

type_synonym heap = "dayObj list"

record BatchRef =
  ref_id :: int
  ref_name :: string
  ref_schedule :: "(string \<times> nat) list"

record TimetableRef =
  ref_batches :: "BatchRef list"
  ref_fitness :: numberProperty
  ref_conflicts :: "Conflict list option"
  ref_algorithm :: "string option"

definition deref :: "heap \<Rightarrow> nat \<Rightarrow> dayObj" where
  "deref h a = (if a < length h then h ! a else [])"

definition loadBatch :: "heap \<Rightarrow> BatchRef \<Rightarrow> Batch" where
  "loadBatch h b =
     \<lparr>batch_id = ref_id b, name = ref_name b,
      schedule = map (\<lambda>(d, a). (d, deref h a)) (ref_schedule b)\<rparr>"

definition load :: "heap \<Rightarrow> TimetableRef \<Rightarrow> Timetable" where
  "load h t =
     \<lparr>batches = map (loadBatch h) (ref_batches t), fitness = ref_fitness t,
      conflicts = ref_conflicts t, algorithm = ref_algorithm t\<rparr>"

definition getCellH :: "heap \<Rightarrow> BatchRef \<Rightarrow> string \<Rightarrow> string \<Rightarrow> error + cell" where
  "getCellH h b d s = getCell (loadBatch h b) d s"

definition setCellH :: "heap \<Rightarrow> BatchRef \<Rightarrow> string \<Rightarrow> string \<Rightarrow> cell \<Rightarrow> error + heap" where
  "setCellH h b d s v =
     (case map_of (ref_schedule b) d of
        None \<Rightarrow> Inl TypeError
      | Some a \<Rightarrow> Inr (h[a := setProp (deref h a) s v]))"

fun copyDaysH :: "heap \<Rightarrow> (string \<times> nat) list \<Rightarrow> heap \<times> (string \<times> nat) list" where
  "copyDaysH h [] = (h, [])"
| "copyDaysH h ((d, a) # rest) =
     (case copyDaysH (h @ [filter (\<lambda>(s, c). c \<noteq> Undefined) (deref h a)]) rest of
        (h', rest') \<Rightarrow> (h', (d, length h) # rest'))"

fun copyBatchesH :: "heap \<Rightarrow> BatchRef list \<Rightarrow> heap \<times> BatchRef list" where
  "copyBatchesH h [] = (h, [])"
| "copyBatchesH h (b # bs) =
     (case copyDaysH h (ref_schedule b) of
        (h1, sched) \<Rightarrow>
          (case copyBatchesH h1 bs of
             (h2, bs') \<Rightarrow> (h2, b\<lparr>ref_schedule := sched\<rparr> # bs')))"

definition deepCopyH :: "heap \<Rightarrow> TimetableRef \<Rightarrow> heap \<times> TimetableRef" where
  "deepCopyH h t =
     (case copyBatchesH h (ref_batches t) of
        (h', bs) \<Rightarrow> (h', t\<lparr>ref_batches := bs, ref_fitness := jsonNumber (ref_fitness t)\<rparr>))"

subsection \<open>\<open>fillGaps\<close> over the store\<close>

definition fillSlotH ::
  "Generator \<Rightarrow> nat \<Rightarrow> TimetableRef \<Rightarrow> nat \<Rightarrow> string \<times> string \<Rightarrow> heap \<Rightarrow> error + heap" where
  "fillSlotH g r optimized i emptySlot h =
     (let b = batches (load h optimized) ! i
      in thenE (gridCells b (days g) (timeSlots g))
           (\<lambda>cells.
              thenE (gapAssignment g r b emptySlot cells)
                (\<lambda>assignment.
                   thenE (isValidAssignment (load h optimized) assignment)
                     (\<lambda>ok. if ok
                            then setCellH h (ref_batches optimized ! i) (fst emptySlot) (snd emptySlot)
                                   (Class \<lparr>subject = subject assignment,
                                           faculty = faculty assignment,
                                           room = room assignment,
                                           color = subjectColors g (str (subject assignment))\<rparr>)
                            else Inr h))))"

definition fillBatchH ::
  "Generator \<Rightarrow> (nat \<Rightarrow> nat \<Rightarrow> nat) \<Rightarrow> TimetableRef \<Rightarrow> nat \<Rightarrow> heap \<Rightarrow> error + heap" where
  "fillBatchH g rnd optimized i h =
     thenE (gridCells (batches (load h optimized) ! i) (days g)
              (slice0 (maxClasses (parameters g)) (timeSlots g)))
       (\<lambda>cells.
          let currentFilledSlots = length (filter (\<lambda>(ds, c). truthy c) cells);
              emptySlots = map fst (filter (\<lambda>(ds, c). \<not> truthy c) cells);
              totalSlots = int (length (days g)) * maxClasses (parameters g);
              maxAllowedClasses = totalSlots - 1;
              slotsToFill = min (int (length emptySlots)) (maxAllowedClasses - int currentFilledSlots)
          in foldE (\<lambda>(k, emptySlot). fillSlotH g (rnd i k) optimized i emptySlot)
               (enumerate 0 (slice0 (max 0 slotsToFill) emptySlots)) h)"

definition fillGapsH ::
  "Generator \<Rightarrow> (nat \<Rightarrow> nat \<Rightarrow> nat) \<Rightarrow> heap \<Rightarrow> TimetableRef \<Rightarrow> error + heap \<times> TimetableRef" where
  "fillGapsH g rnd h t =
     (case deepCopyH h t of
        (h0, optimized) \<Rightarrow>
          thenE (foldE (fillBatchH g rnd optimized) [0..<length (ref_batches optimized)] h0)
            (\<lambda>h'. Inr (h', optimized)))"

subsection \<open>\<open>resolveConflictsBySwapping\<close> and \<open>intensiveGapFilling\<close> over the store\<close>

text \<open>\<open>{...class1, batch, day, slot}\<close>: spreading \<open>null\<close> gives no property.\<close>

definition testAssignment :: "cell \<Rightarrow> int \<Rightarrow> string \<Rightarrow> string \<Rightarrow> Assignment" where
  "testAssignment class1 b d s =
     (case class1 of
        Class c \<Rightarrow>
          \<lparr>subject = subject c, faculty = faculty c, room = room c, color = color c,
           batch = b, day = d, slot = s\<rparr>
      | _ \<Rightarrow>
          \<lparr>subject = None, faculty = None, room = None, color = None,
           batch = b, day = d, slot = s\<rparr>)"

text \<open>
  The two nested loops over days and slots that look for an empty, valid coordinate for
  \<open>class1\<close>, left at the first move.
\<close>

fun tryMoveH ::
  "TimetableRef \<Rightarrow> BatchRef \<Rightarrow> cell \<Rightarrow> Conflict \<Rightarrow> (string \<times> string) list \<Rightarrow> heap \<Rightarrow> error + heap"
  where
  "tryMoveH optimized batch1 class1 conflict [] h = Inr h"
| "tryMoveH optimized batch1 class1 conflict (ds # rest) h =
     thenE (getCellH h batch1 (fst ds) (snd ds))
       (\<lambda>c. if \<not> truthy c
            then thenE
                   (isValidAssignment (load h optimized)
                      (testAssignment class1 (int (fst (conflictBatches conflict))) (fst ds) (snd ds)))
                   (\<lambda>ok. if ok
                          then thenE (setCellH h batch1 (fst ds) (snd ds) class1)
                                 (\<lambda>h1. setCellH h1 batch1 (conflictDay conflict)
                                         (conflictSlot conflict) Null)
                          else tryMoveH optimized batch1 class1 conflict rest h)
            else tryMoveH optimized batch1 class1 conflict rest h)"

definition resolveOneH :: "Generator \<Rightarrow> TimetableRef \<Rightarrow> Conflict \<Rightarrow> heap \<Rightarrow> error + heap" where
  "resolveOneH g optimized conflict h =
     (if conflictType conflict = faculty_conflict
      then (case (nthOpt (ref_batches optimized) (fst (conflictBatches conflict)),
                  nthOpt (ref_batches optimized) (snd (conflictBatches conflict))) of
              (Some batch1, Some batch2) \<Rightarrow>
                thenE (getCellH h batch1 (conflictDay conflict) (conflictSlot conflict))
                  (\<lambda>class1.
                     thenE (getCellH h batch2 (conflictDay conflict) (conflictSlot conflict))
                       (\<lambda>class2. tryMoveH optimized batch1 class1 conflict (gridCoordinates g) h))
            | _ \<Rightarrow> Inl TypeError)
      else Inr h)"

definition resolveConflictsBySwappingH ::
  "Generator \<Rightarrow> heap \<Rightarrow> TimetableRef \<Rightarrow> error + heap \<times> TimetableRef" where
  "resolveConflictsBySwappingH g h t =
     (case deepCopyH h t of
        (h0, optimized) \<Rightarrow>
          thenE (detectConflicts (load h0 optimized))
            (\<lambda>cs. thenE (foldE (resolveOneH g optimized) cs h0)
                     (\<lambda>h'. Inr (h', optimized))))"

text \<open>One round of \<open>intensiveGapFilling\<close>; \<open>rnds iteration\<close> are the draws of that round.\<close>

definition intensiveRoundH ::
  "Generator \<Rightarrow> (nat \<Rightarrow> nat \<Rightarrow> nat \<Rightarrow> nat) \<Rightarrow> nat \<Rightarrow> heap \<times> TimetableRef \<Rightarrow>
     error + heap \<times> TimetableRef" where
  "intensiveRoundH g rnds iteration st =
     (case st of (h, optimized) \<Rightarrow>
        thenE (fillGapsH g (rnds iteration) h optimized)
          (\<lambda>(h1, optimized1). resolveConflictsBySwappingH g h1 optimized1))"

definition intensiveGapFillingH ::
  "Generator \<Rightarrow> (nat \<Rightarrow> nat \<Rightarrow> nat \<Rightarrow> nat) \<Rightarrow> heap \<Rightarrow> TimetableRef \<Rightarrow>
     error + heap \<times> TimetableRef" where
  "intensiveGapFillingH g rnds h t = foldE (intensiveRoundH g rnds) [0..<3] (deepCopyH h t)"

subsection \<open>\<open>mutate\<close> and \<open>crossover\<close> over the store\<close>

definition moveClassH ::
  "heap \<Rightarrow> BatchRef \<Rightarrow> string \<times> string \<Rightarrow> string \<times> string \<Rightarrow> error + heap" where
  "moveClassH h b randomEmpty randomFilled =
     thenE (getCellH h b (fst randomFilled) (snd randomFilled))
       (\<lambda>c. thenE (setCellH h b (fst randomEmpty) (snd randomEmpty) c)
               (\<lambda>h1. setCellH h1 b (fst randomFilled) (snd randomFilled) Null))"

definition swapSlotsH :: "MutationDraws \<Rightarrow> heap \<Rightarrow> BatchRef \<Rightarrow> error + heap" where
  "swapSlotsH r h b =
     (case (pick (day1Draw r) (keys (ref_schedule b)), pick (day2Draw r) (keys (ref_schedule b))) of
        (Some day1, Some day2) \<Rightarrow>
          thenE (dayKeys (loadBatch h b) day1)
            (\<lambda>slots1. thenE (dayKeys (loadBatch h b) day2)
               (\<lambda>slots2.
                  let slot1 = str (pick (slot1Draw r) slots1);
                      slot2 = str (pick (slot2Draw r) slots2)
                  in thenE (getCellH h b day1 slot1)
                       (\<lambda>temp. thenE (getCellH h b day2 slot2)
                          (\<lambda>c. thenE (setCellH h b day1 slot1 c)
                                  (\<lambda>h1. setCellH h1 b day2 slot2 temp)))))
      | _ \<Rightarrow> Inl TypeError)"

definition mutateH :: "MutationDraws \<Rightarrow> heap \<Rightarrow> TimetableRef \<Rightarrow> error + heap \<times> TimetableRef" where
  "mutateH r h individual =
     (case deepCopyH h individual of
        (h0, mutated) \<Rightarrow>
          if ref_batches mutated = [] then Inl TypeError
          else
            (let i = batchDraw r mod length (ref_batches mutated);
                 b = ref_batches mutated ! i
             in thenE (coordinates (loadBatch h0 b))
                  (\<lambda>cs. let emptySlots = map fst (filter (\<lambda>c. \<not> snd c) cs);
                             filledSlots = map fst (filter snd cs)
                         in thenE
                              (if emptySlots \<noteq> [] \<and> filledSlots \<noteq> []
                               then moveClassH h0 b
                                      (emptySlots ! (emptyDraw r mod length emptySlots))
                                      (filledSlots ! (filledDraw r mod length filledSlots))
                               else swapSlotsH r h0 b)
                              (\<lambda>h'. Inr (h', mutated)))))"

definition crossoverSlotH ::
  "BatchRef option \<Rightarrow> BatchRef \<Rightarrow> string \<Rightarrow> string \<Rightarrow> heap \<Rightarrow> error + heap" where
  "crossoverSlotH parent2Batch b d s h =
     (case parent2Batch of
        None \<Rightarrow> Inl TypeError
      | Some p2 \<Rightarrow>
          thenE (getCellH h p2 d s)
            (\<lambda>class2. if truthy class2
                       then thenE (getCellH h b d s)
                              (\<lambda>c. if \<not> truthy c then setCellH h b d s class2 else Inr h)
                       else Inr h))"

definition crossoverBatchH ::
  "Generator \<Rightarrow> TimetableRef \<Rightarrow> nat \<times> BatchRef \<Rightarrow> heap \<Rightarrow> error + heap" where
  "crossoverBatchH g parent2 this h0 =
     (case this of (batchIndex, b) \<Rightarrow>
        foldE
          (\<lambda>(dayIndex, d) h.
             if int (length (days g)) \<le> 2 * int dayIndex
             then thenE (dayKeys (loadBatch h b) d)
                    (\<lambda>slots. foldE (crossoverSlotH (nthOpt (ref_batches parent2) batchIndex) b d)
                               slots h)
             else Inr h)
          (enumerate 0 (keys (ref_schedule b))) h0)"

definition crossoverH ::
  "Generator \<Rightarrow> heap \<Rightarrow> TimetableRef \<Rightarrow> TimetableRef \<Rightarrow> error + heap \<times> TimetableRef" where
  "crossoverH g h parent1 parent2 =
     (case deepCopyH h parent1 of
        (h0, offspring) \<Rightarrow>
          thenE (foldE (crossoverBatchH g parent2) (enumerate 0 (ref_batches offspring)) h0)
            (\<lambda>h'. Inr (h', offspring)))"

subsection \<open>Notions used to state the frame property\<close>

text \<open>Every address of the timetable is allocated in the store.\<close>

definition allocated :: "heap \<Rightarrow> TimetableRef \<Rightarrow> bool" where
  "allocated h t =
     (\<forall>b \<in> set (ref_batches t). \<forall>(d, a) \<in> set (ref_schedule b). a < length h)"

text \<open>
  The store \<open>h'\<close> extends \<open>h\<close>: every object of \<open>h\<close> is in \<open>h'\<close> at its address, unchanged.
\<close>

definition extends :: "heap \<Rightarrow> heap \<Rightarrow> bool" where
  "extends h h' = (length h \<le> length h' \<and> take (length h) h' = h)"

text \<open>Every address of the timetable was allocated after the store \<open>h\<close>, in \<open>h'\<close>.\<close>

definition freshIn :: "heap \<Rightarrow> heap \<Rightarrow> TimetableRef \<Rightarrow> bool" where
  "freshIn h h' t =
     (\<forall>b \<in> set (ref_batches t). \<forall>(d, a) \<in> set (ref_schedule b). length h \<le> a \<and> a < length h')"

text \<open>
  Two stores have the same size and the same first \<open>n\<close> objects; every address of a batch is
  at least \<open>n\<close>.
\<close>


definition keeps :: "nat \<Rightarrow> heap \<Rightarrow> heap \<Rightarrow> bool" where
  "keeps n h h' = (length h' = length h \<and> take n h' = take n h)"

definition above :: "nat \<Rightarrow> BatchRef \<Rightarrow> bool" where
  "above n b = (\<forall>(d, a) \<in> set (ref_schedule b). n \<le> a)"


text \<open>
  A store with the day objects of the two example timetables, \<open>mondayOnly\<close> at the
  addresses 0 to 3 and \<open>bothDays\<close> at the addresses 4 to 7.
\<close>

definition exampleStore :: heap where
  "exampleStore =
     [[(''09:00-10:00'', Class classA)], [(''09:00-10:00'', Null)],
      [(''09:00-10:00'', Class classB)], [(''09:00-10:00'', Null)],
      [(''09:00-10:00'', Class classB)], [(''09:00-10:00'', Class classB)],
      [(''09:00-10:00'', Class classA)], [(''09:00-10:00'', Class classA)]]"

definition mondayRefs :: TimetableRef where
  "mondayRefs =
     \<lparr>ref_batches =
        [\<lparr>ref_id = 0, ref_name = ''Batch 1'', ref_schedule = [(''Monday'', 0), (''Tuesday'', 1)]\<rparr>,
         \<lparr>ref_id = 1, ref_name = ''Batch 2'', ref_schedule = [(''Monday'', 2), (''Tuesday'', 3)]\<rparr>],
      ref_fitness = Missing, ref_conflicts = None, ref_algorithm = None\<rparr>"

definition bothRefs :: TimetableRef where
  "bothRefs =
     \<lparr>ref_batches =
        [\<lparr>ref_id = 0, ref_name = ''Batch 1'', ref_schedule = [(''Monday'', 4), (''Tuesday'', 5)]\<rparr>,
         \<lparr>ref_id = 1, ref_name = ''Batch 2'', ref_schedule = [(''Monday'', 6), (''Tuesday'', 7)]\<rparr>],
      ref_fitness = Missing, ref_conflicts = None, ref_algorithm = None\<rparr>"

text \<open>A timetable of one batch in the same store, with both of its slots free.\<close>

definition freeRefs :: TimetableRef where
  "freeRefs =
     \<lparr>ref_batches =
        [\<lparr>ref_id = 0, ref_name = ''Batch 1'', ref_schedule = [(''Monday'', 1), (''Tuesday'', 3)]\<rparr>],
      ref_fitness = Missing, ref_conflicts = None, ref_algorithm = None\<rparr>"

section \<open>Slot Grid Builder: number and shape of the slots\<close>

lemma slotLoop_closed:
  "slotLoop limit e m slots =
     slots @ map (\<lambda>i. timeSlotLabel (m + 60 * i))
               [0..<min (nat (limit - int (length slots))) ((e - m + 59) div 60)]"
proof (induction limit e m slots rule: slotLoop.induct)
  case (1 limit e m slots)
  show ?case
  proof (cases "m < e \<and> int (length slots) < limit")
    case False
    then have "min (nat (limit - int (length slots))) ((e - m + 59) div 60) = 0"
      by auto
    moreover from False have "slotLoop limit e m slots = slots"
      by (subst slotLoop.simps) auto
    ultimately show ?thesis
      by simp
  next
    case True
    define k where "k = min (nat (limit - int (length slots))) ((e - m + 59) div 60)"
    define k' where "k' = min (nat (limit - int (length (slots @ [timeSlotLabel m]))))
                              ((e - (m + 60) + 59) div 60)"
    have "(e - m + 59) div 60 = Suc ((e - (m + 60) + 59) div 60)"
    proof (cases "m + 60 \<le> e")
      case True
      then have "e - m + 59 = (e - (m + 60) + 59) + 60"
        by simp
      then show ?thesis
        by (simp only: div_add_self2)
    next
      case False
      moreover from \<open>m < e \<and> int (length slots) < limit\<close> have "m < e" ..
      ultimately have "60 \<le> e - m + 59" and "e - m + 59 < 120" and z: "e - (m + 60) = 0"
        by linarith+
      then have "(e - m + 59) div 60 = 1"
        by (intro div_nat_eqI) simp_all
      with z show ?thesis
        by simp
    qed
    moreover from True
    have "nat (limit - int (length slots)) =
            Suc (nat (limit - int (length (slots @ [timeSlotLabel m]))))"
      by (simp add: nat_diff_distrib' flip: Suc_nat_eq_nat_zadd1) linarith
    ultimately have k: "k = Suc k'"
      unfolding k_def k'_def by (simp only: min_Suc_Suc)
    have "slotLoop limit e m slots =
            slotLoop limit e (m + 60) (slots @ [timeSlotLabel m])"
      using True by (simp add: slotLoop.simps [of limit e m slots])
    also have "\<dots> = (slots @ [timeSlotLabel m]) @ map (\<lambda>i. timeSlotLabel (m + 60 + 60 * i)) [0..<k']"
      using "1.IH" [OF True] by (simp add: k'_def)
    also have "\<dots> = slots @ map (\<lambda>i. timeSlotLabel (m + 60 * i)) [0..<Suc k']"
    proof -
      have "[0..<Suc k'] = 0 # map Suc [0..<k']"
        by (simp add: upt_conv_Cons map_Suc_upt del: upt_Suc)
      then show ?thesis
        by (simp add: comp_def add.assoc del: upt_Suc)
    qed
    finally show ?thesis
      by (simp add: k k_def [symmetric])
  qed
qed

text \<open>
  C2 (as amended). For start and end times in the form \<open>HH:MM\<close>, with total minutes \<open>s\<close> and
  \<open>e\<close>, and \<open>maxClasses \<ge> 1\<close>, \<open>generateTimeSlots\<close> returns exactly
  \<open>min(maxClasses, ceil((e - s) / 60))\<close> slots (the subtraction is \<open>0\<close> when \<open>e \<le> s\<close>):
  a slot is produced whenever it starts before the end time, so a last slot may run past the
  end time. Slot number \<open>i\<close> is the label of the 60 minutes from \<open>s + 60 i\<close>, so the slots
  are strictly increasing and do not overlap, and the sequence is empty when the start
  time is not before the end time.
\<close>

theorem generateTimeSlots_slots:
  assumes "totalMinutes start = Some s" and "totalMinutes finish = Some e"
    and "1 \<le> limit"
  shows "\<exists>slots. generateTimeSlots limit start finish = Some slots \<and>
           length slots = min (nat limit) ((e - s + 59) div 60) \<and>
           (\<forall>i < length slots. slots ! i = timeSlotLabel (s + 60 * i)) \<and>
           (e \<le> s \<longrightarrow> slots = [])"
  using assms by (simp add: generateTimeSlots_def slotLoop_closed)

text \<open>
  The scenario of the specification: from 09:00 to 12:00 with at most six classes a day
  there are three slots.
\<close>

theorem generateTimeSlots_slots_witness:
  "totalMinutes ''09:00'' = Some 540 \<and> totalMinutes ''12:00'' = Some 720 \<and> (1::int) \<le> 6 \<and>
   generateTimeSlots 6 ''09:00'' ''12:00'' =
     Some [timeSlotLabel 540, timeSlotLabel 600, timeSlotLabel 660] \<and>
   [timeSlotLabel 540, timeSlotLabel 600, timeSlotLabel 660] =
     [''09:00-10:00'', ''10:00-11:00'', ''11:00-12:00'']"
proof -
  have s: "totalMinutes ''09:00'' = Some 540" and e: "totalMinutes ''12:00'' = Some 720"
    by code_simp+
  have m: "(1::int) \<le> 6"
    by simp
  from generateTimeSlots_slots [OF s e m] obtain slots
    where g: "generateTimeSlots 6 ''09:00'' ''12:00'' = Some slots"
      and l: "length slots = 3"
      and n: "\<forall>i < length slots. slots ! i = timeSlotLabel (540 + 60 * i)"
    by auto
  from l n have "slots = [timeSlotLabel 540, timeSlotLabel 600, timeSlotLabel 660]"
    by (auto simp: list_eq_iff_nth_eq less_Suc_eq numeral_3_eq_3)
  moreover have "[timeSlotLabel 540, timeSlotLabel 600, timeSlotLabel 660] =
     [''09:00-10:00'', ''10:00-11:00'', ''11:00-12:00'']"
    by code_simp
  ultimately show ?thesis
    using s e g by simp
qed

text \<open>
  C2 as stated fails: from 09:00 to 11:30 the claimed number of slots is
  \<open>min(6, floor(150 / 60)) = 2\<close>, and the code returns three, the last one ending at 12:00.
\<close>

theorem generateTimeSlots_floor_counterexample:
  "generateTimeSlots 6 ''09:00'' ''11:30'' =
     Some [''09:00-10:00'', ''10:00-11:00'', ''11:00-12:00''] \<and>
   totalMinutes ''09:00'' = Some 540 \<and> totalMinutes ''11:30'' = Some 690 \<and>
   length [''09:00-10:00'', ''10:00-11:00'', ''11:00-12:00''] \<noteq> min 6 ((690 - 540) div 60)"
  by code_simp

text \<open>The generators of the examples are those the constructor builds.\<close>

lemma generateTimeSlots_examples:
  "generateTimeSlots 1 ''09:00'' ''10:00'' = Some [''09:00-10:00'']"
  "generateTimeSlots 5 ''09:00'' ''14:00'' =
     Some [''09:00-10:00'', ''10:00-11:00'', ''11:00-12:00'', ''12:00-13:00'', ''13:00-14:00'']"
  "generateTimeSlots 6 ''09:00'' ''12:00'' = Some [''09:00-10:00'', ''10:00-11:00'', ''11:00-12:00'']"
  by code_simp+

lemma newGenerator_examples:
  "newGenerator [''A'', ''B''] [''X'', ''Y''] (parameters twoDays) = Some twoDays"
  "newGenerator [''A'', ''B''] [''X''] (parameters oneSlot) = Some oneSlot"
  "newGenerator [''A''] [''X''] (parameters fourDays) = Some fourDays"
  "newGenerator [''A'', ''B''] [''X''] (parameters fiveByFive) = Some fiveByFive"
  "newGenerator [''A'', ''B''] [''X''] (parameters shortDays) = Some shortDays"
  by (simp_all add: newGenerator_def generateTimeSlots_examples
        twoDays_def oneSlot_def fourDays_def fiveByFive_def shortDays_def)

text \<open>
  \<open>Math.floor(n * 0.82)\<close> in doubles: up to \<open>n = 149\<close> it is the exact
  \<open>\<lfloor>82 n / 100\<rfloor>\<close>, and at \<open>n = 150\<close> it is one less.
\<close>

lemma floorTimes082_examples:
  "floorTimes082 25 = 20" "floorTimes082 30 = 24" "floorTimes082 150 = 122"
  "floorTimes082 (- 150) = - 123"
  by code_simp+

lemma floorTimes082_small:
  "list_all (\<lambda>n. floorTimes082 n = n * 82 div 100) (map int [0..<150])"
  by code_simp

section \<open>Conflict Detector: one report for each ordered pair of batches\<close>

lemma concatMapE_Inr:
  "concatMapE f xs = Inr r \<Longrightarrow>
     r = concat (map (\<lambda>x. projr (f x)) xs) \<and> (\<forall>x \<in> set xs. \<exists>y. f x = Inr y)"
  by (induction xs arbitrary: r) (auto split: sum.splits)

lemma count_concat:
  "length (filter P (concat xss)) = sum_list (map (\<lambda>xs. length (filter P xs)) xss)"
  by (induction xss) auto

lemma sum_list_single:
  "distinct xs \<Longrightarrow> (\<And>x. x \<in> set xs \<Longrightarrow> x \<noteq> a \<Longrightarrow> h x = 0) \<Longrightarrow>
     sum_list (map h xs) = (if a \<in> set xs then h a else (0::nat))"
proof (induction xs)
  case Nil
  then show ?case by simp
next
  case (Cons x xs)
  show ?case
  proof (cases "x = a")
    case True
    with Cons.prems have "a \<notin> set xs" and "\<And>y. y \<in> set xs \<Longrightarrow> h y = 0"
      by auto
    then have "sum_list (map h xs) = 0"
      by simp
    with True show ?thesis by simp
  next
    case False
    with Cons show ?thesis by simp
  qed
qed

lemma count_concatMapE:
  assumes "concatMapE f xs = Inr r" and "distinct xs"
    and "\<And>x y. x \<in> set xs \<Longrightarrow> f x = Inr y \<Longrightarrow> x \<noteq> a \<Longrightarrow> filter P y = []"
  shows "length (filter P r) = (if a \<in> set xs then length (filter P (projr (f a))) else 0)"
proof -
  from concatMapE_Inr [OF assms(1)]
  have r: "r = concat (map (\<lambda>x. projr (f x)) xs)" and ok: "\<forall>x \<in> set xs. \<exists>y. f x = Inr y"
    by simp_all
  have "length (filter P r) = sum_list (map (\<lambda>x. length (filter P (projr (f x)))) xs)"
    by (simp add: r count_concat comp_def)
  also have "\<dots> = (if a \<in> set xs then length (filter P (projr (f a))) else 0)"
  proof (rule sum_list_single [OF assms(2)])
    fix x assume "x \<in> set xs" and "x \<noteq> a"
    moreover from this ok obtain y where "f x = Inr y" by blast
    ultimately show "length (filter P (projr (f x))) = 0"
      using assms(3) by simp
  qed
  finally show ?thesis .
qed

lemma conflictsWith_count:
  assumes "conflictsWith d s i class1 (j', ob) = Inr r"
  shows "length (filter (reportsPair k d' s' i' j) r) =
           (if d' = d \<and> s' = s \<and> i' = i \<and> j' = j \<and> i \<noteq> j \<and>
               (\<exists>class2. getCell ob d s = Inr (Class class2) \<and> collide k class1 class2)
            then 1 else 0)"
  using assms
  by (cases k)
     (auto simp: conflictsWith_def reportsPair_def collide_def facultyConflict_def roomConflict_def
                 Let_def
           split: if_splits sum.splits cell.splits option.splits)


lemma others_count:
  assumes "concatMapE (conflictsWith d s i class1) (enumerate 0 bs) = Inr r" and "j < length bs"
  shows "length (filter (reportsPair k d' s' i' j) r) =
           (if d' = d \<and> s' = s \<and> i' = i \<and> i \<noteq> j \<and>
               (\<exists>class2. getCell (bs ! j) d s = Inr (Class class2) \<and> collide k class1 class2)
            then 1 else 0)"
proof -
  let ?P = "reportsPair k d' s' i' j"
  let ?a = "(j, bs ! j)"
  have a: "?a \<in> set (enumerate 0 bs)"
    using assms(2) by (simp add: in_set_enumerate_eq)
  with concatMapE_Inr [OF assms(1)] obtain y where y: "conflictsWith d s i class1 ?a = Inr y"
    by blast
  have "length (filter ?P r) =
          (if ?a \<in> set (enumerate 0 bs)
           then length (filter ?P (projr (conflictsWith d s i class1 ?a))) else 0)"
  proof (rule count_concatMapE [OF assms(1)])
    show "distinct (enumerate 0 bs)"
      by (rule distinct_enumerate)
  next
    fix x z
    assume x: "x \<in> set (enumerate 0 bs)" and z: "conflictsWith d s i class1 x = Inr z"
      and ne: "x \<noteq> ?a"
    obtain j' ob where [simp]: "x = (j', ob)"
      by (cases x)
    from x ne have "j' \<noteq> j"
      by (auto simp: in_set_enumerate_eq)
    with conflictsWith_count [OF z [simplified], of k d' s' i' j] show "filter ?P z = []"
      by simp
  qed
  with a y conflictsWith_count [OF y, of k d' s' i' j] show ?thesis
    by simp
qed

lemma slots_count:
  assumes "concatMapE
             (\<lambda>s. case getProp obj s of
                     Class class1 \<Rightarrow> concatMapE (conflictsWith d s i class1) (enumerate 0 bs)
                   | _ \<Rightarrow> Inr [])
             (keys obj) = Inr r"
    and "distinct (keys obj)" and "j < length bs"
  shows "length (filter (reportsPair k d' s' i' j) r) =
           (if d' = d \<and> i' = i \<and> i \<noteq> j \<and>
               (\<exists>class1 class2. getProp obj s' = Class class1 \<and>
                   getCell (bs ! j) d s' = Inr (Class class2) \<and> collide k class1 class2)
            then 1 else 0)"
proof -
  let ?P = "reportsPair k d' s' i' j"
  let ?f = "\<lambda>s. case getProp obj s of
                   Class class1 \<Rightarrow> concatMapE (conflictsWith d s i class1) (enumerate 0 bs)
                 | _ \<Rightarrow> Inr []"
  have other: "filter ?P z = []" if "?f x = Inr z" and "x \<noteq> s'" for x z
  proof (cases "getProp obj x")
    case (Class class1)
    with that others_count [of d x i class1 bs z j k d' s' i'] assms(3) show ?thesis
      by simp
  qed (use that in auto)
  have "length (filter ?P r) = (if s' \<in> set (keys obj) then length (filter ?P (projr (?f s'))) else 0)"
    by (rule count_concatMapE [OF assms(1,2)]) (rule other)
  moreover have "length (filter ?P (projr (?f s'))) =
           (if d' = d \<and> i' = i \<and> i \<noteq> j \<and>
               (\<exists>class1 class2. getProp obj s' = Class class1 \<and>
                   getCell (bs ! j) d s' = Inr (Class class2) \<and> collide k class1 class2)
            then 1 else 0)" if "s' \<in> set (keys obj)"
  proof (cases "getProp obj s'")
    case (Class class1)
    from that concatMapE_Inr [OF assms(1)] obtain y where "?f s' = Inr y"
      by blast
    with Class others_count [of d s' i class1 bs y j k d' s' i'] assms(3) show ?thesis
      by simp
  qed simp_all
  moreover have "getProp obj s' \<noteq> Class class1" if "s' \<notin> set (keys obj)" for class1
    using that by (simp add: getProp_def keys_def map_of_eq_None_iff [THEN iffD2])
  ultimately show ?thesis
    by auto
qed


lemma getCell_Class_iff:
  "getCell b d s = Inr (Class c) \<longleftrightarrow>
     (case map_of (schedule b) d of None \<Rightarrow> Undefined | Some obj \<Rightarrow> getProp obj s) = Class c"
  by (simp add: getCell_def split: option.splits)

lemma batch_count:
  assumes "conflictsOfBatch bs (i, b) = Inr r"
    and "distinct (keys (schedule b))" and "\<forall>(d, obj) \<in> set (schedule b). distinct (keys obj)"
    and "j < length bs"
  shows "length (filter (reportsPair k d' s' i' j) r) =
           (if i' = i \<and> i \<noteq> j \<and>
               (\<exists>class1 class2. getCell b d' s' = Inr (Class class1) \<and>
                   getCell (bs ! j) d' s' = Inr (Class class2) \<and> collide k class1 class2)
            then 1 else 0)"
proof -
  let ?P = "reportsPair k d' s' i' j"
  let ?g = "\<lambda>d obj. concatMapE
             (\<lambda>s. case getProp obj s of
                     Class class1 \<Rightarrow> concatMapE (conflictsWith d s i class1) (enumerate 0 bs)
                   | _ \<Rightarrow> Inr [])
             (keys obj)"
  let ?f = "\<lambda>d. case map_of (schedule b) d of None \<Rightarrow> Inl TypeError | Some obj \<Rightarrow> ?g d obj"
  from assms(1) have run: "concatMapE ?f (keys (schedule b)) = Inr r"
    by (simp add: conflictsOfBatch_def)
  have dist: "distinct (keys obj)" if "map_of (schedule b) d = Some obj" for d obj
    using assms(3) map_of_SomeD [OF that] by auto
  have level: "length (filter ?P z) =
           (if d' = d \<and> i' = i \<and> i \<noteq> j \<and>
               (\<exists>class1 class2. getCell b d s' = Inr (Class class1) \<and>
                   getCell (bs ! j) d s' = Inr (Class class2) \<and> collide k class1 class2)
            then 1 else 0)" if "?f d = Inr z" for d z
  proof (cases "map_of (schedule b) d")
    case None
    with that show ?thesis by simp
  next
    case (Some obj)
    with that have "?g d obj = Inr z"
      by simp
    from slots_count [OF this dist [OF Some] assms(4), of k d' s' i'] Some show ?thesis
      by (simp add: getCell_def)
  qed
  have "length (filter ?P r) =
          (if d' \<in> set (keys (schedule b)) then length (filter ?P (projr (?f d'))) else 0)"
  proof (rule count_concatMapE [OF run assms(2)])
    fix x y assume "?f x = Inr y" and "x \<noteq> d'"
    with level [of x y] show "filter ?P y = []"
      by simp
  qed
  moreover have "length (filter ?P (projr (?f d'))) =
           (if i' = i \<and> i \<noteq> j \<and>
               (\<exists>class1 class2. getCell b d' s' = Inr (Class class1) \<and>
                   getCell (bs ! j) d' s' = Inr (Class class2) \<and> collide k class1 class2)
            then 1 else 0)" if "d' \<in> set (keys (schedule b))"
  proof -
    from that concatMapE_Inr [OF run] obtain y where "?f d' = Inr y"
      by blast
    with level [of d' y] show ?thesis
      by simp
  qed
  moreover have "getCell b d' s' \<noteq> Inr (Class class1)" if "d' \<notin> set (keys (schedule b))" for class1
    using that by (simp add: getCell_def keys_def map_of_eq_None_iff [THEN iffD2])
  ultimately show ?thesis
    by auto
qed

text \<open>
  C1 (as amended). On a timetable whose scan does not throw, for every two different
  batches \<open>i\<close> and \<open>j\<close>, every day \<open>d\<close>, slot \<open>s\<close> and kind \<open>k\<close>, the Conflict Detector
  returns exactly one report of kind \<open>k\<close> at \<open>(d, s)\<close> with \<open>batches = [i, j]\<close> when the
  classes of \<open>i\<close> and \<open>j\<close> at \<open>(d, s)\<close> collide in that kind, and none otherwise. The
  condition is symmetric in \<open>i\<close> and \<open>j\<close>, so every collision of an unordered pair is
  reported twice in each kind: once as \<open>[i, j]\<close> and once as \<open>[j, i]\<close>.
\<close>

theorem detectConflicts_ordered_pairs:
  assumes "detectConflicts t = Inr cs" and "distinctKeys t"
    and "i < length (batches t)" and "j < length (batches t)" and "i \<noteq> j"
  shows "length (filter (reportsPair k d s i j) cs) =
           (if \<exists>class1 class2. cellAt t i d s = Class class1 \<and> cellAt t j d s = Class class2 \<and>
                 collide k class1 class2
            then 1 else 0)"
proof -
  let ?P = "reportsPair k d s i j"
  let ?bs = "batches t"
  let ?a = "(i, ?bs ! i)"
  from assms(1) have run: "concatMapE (conflictsOfBatch ?bs) (enumerate 0 ?bs) = Inr cs"
    by (simp add: detectConflicts_def)
  have wf: "distinct (keys (schedule b)) \<and> (\<forall>(d, obj) \<in> set (schedule b). distinct (keys obj))"
    if "(i', b) \<in> set (enumerate 0 ?bs)" for i' b
    using that assms(2) by (auto simp: distinctKeys_def in_set_enumerate_eq)
  have a: "?a \<in> set (enumerate 0 ?bs)"
    using assms(3) by (simp add: in_set_enumerate_eq)
  with concatMapE_Inr [OF run] obtain y where y: "conflictsOfBatch ?bs ?a = Inr y"
    by blast
  have "length (filter ?P cs) =
          (if ?a \<in> set (enumerate 0 ?bs)
           then length (filter ?P (projr (conflictsOfBatch ?bs ?a))) else 0)"
  proof (rule count_concatMapE [OF run distinct_enumerate])
    fix x z
    assume x: "x \<in> set (enumerate 0 ?bs)" and z: "conflictsOfBatch ?bs x = Inr z"
      and ne: "x \<noteq> ?a"
    obtain i' b where [simp]: "x = (i', b)"
      by (cases x)
    from x ne have "i' \<noteq> i"
      by (auto simp: in_set_enumerate_eq)
    moreover from wf x have "distinct (keys (schedule b))"
      and "\<forall>(d, obj) \<in> set (schedule b). distinct (keys obj)"
      by auto
    from batch_count [OF z [simplified] this assms(4), of k d s i]
    have "length (filter ?P z) =
           (if i = i' \<and> i' \<noteq> j \<and>
               (\<exists>class1 class2. getCell b d s = Inr (Class class1) \<and>
                   getCell (?bs ! j) d s = Inr (Class class2) \<and> collide k class1 class2)
            then 1 else 0)" .
    ultimately show "filter ?P z = []"
      by simp
  qed
  moreover from wf [OF a] have "distinct (keys (schedule (?bs ! i)))"
    and "\<forall>(d, obj) \<in> set (schedule (?bs ! i)). distinct (keys obj)"
    by auto
  from batch_count [OF y this assms(4), of k d s i] y
  have "length (filter ?P (projr (conflictsOfBatch ?bs ?a))) =
           (if i \<noteq> j \<and>
               (\<exists>class1 class2. getCell (?bs ! i) d s = Inr (Class class1) \<and>
                   getCell (?bs ! j) d s = Inr (Class class2) \<and> collide k class1 class2)
            then 1 else 0)"
    by simp
  ultimately show ?thesis
    using a assms(5) by (simp add: getCell_Class_iff cellAt_def)
qed



text \<open>
  In the scenario the detector returns two faculty conflicts, one for \<open>[0, 1]\<close> and one for
  \<open>[1, 0]\<close>.
\<close>

theorem detectConflicts_ordered_pairs_witness:
  "detectConflicts sameFacultyScenario =
     Inr [facultyConflict ''Monday'' ''09:00-10:00'' 0 1
            \<lparr>subject = Some ''A'', faculty = Some ''X'', room = Some ''Room-101'',
             color = Some ''#3B82F6''\<rparr>,
          facultyConflict ''Monday'' ''09:00-10:00'' 1 0
            \<lparr>subject = Some ''B'', faculty = Some ''X'', room = Some ''Room-102'',
             color = Some ''#EF4444''\<rparr>] \<and>
   distinctKeys sameFacultyScenario \<and>
   length (filter (reportsPair faculty_conflict ''Monday'' ''09:00-10:00'' 0 1)
             [facultyConflict ''Monday'' ''09:00-10:00'' 0 1
                \<lparr>subject = Some ''A'', faculty = Some ''X'', room = Some ''Room-101'',
                 color = Some ''#3B82F6''\<rparr>,
              facultyConflict ''Monday'' ''09:00-10:00'' 1 0
                \<lparr>subject = Some ''B'', faculty = Some ''X'', room = Some ''Room-102'',
                 color = Some ''#EF4444''\<rparr>]) = 1"
proof -
  let ?cs = "[facultyConflict ''Monday'' ''09:00-10:00'' 0 1
                \<lparr>subject = Some ''A'', faculty = Some ''X'', room = Some ''Room-101'',
                 color = Some ''#3B82F6''\<rparr>,
              facultyConflict ''Monday'' ''09:00-10:00'' 1 0
                \<lparr>subject = Some ''B'', faculty = Some ''X'', room = Some ''Room-102'',
                 color = Some ''#EF4444''\<rparr>]"
  have r: "detectConflicts sameFacultyScenario = Inr ?cs"
    by code_simp
  have d: "distinctKeys sameFacultyScenario"
    by code_simp
  have n: "0 < length (batches sameFacultyScenario)" "1 < length (batches sameFacultyScenario)"
    "(0::nat) \<noteq> 1"
    by (simp_all add: sameFacultyScenario_def)
  have c: "\<exists>class1 class2.
             cellAt sameFacultyScenario 0 ''Monday'' ''09:00-10:00'' = Class class1 \<and>
             cellAt sameFacultyScenario 1 ''Monday'' ''09:00-10:00'' = Class class2 \<and>
             collide faculty_conflict class1 class2"
    by (simp add: cellAt_def sameFacultyScenario_def getProp_def collide_def)
  from detectConflicts_ordered_pairs
         [OF r d n, of faculty_conflict "''Monday''" "''09:00-10:00''"] c
  have "length (filter (reportsPair faculty_conflict ''Monday'' ''09:00-10:00'' 0 1) ?cs) = 1"
    by simp
  with r d show ?thesis
    by simp
qed

text \<open>
  C1 as stated fails in its own scenario: the collision of the pair of batches 0 and 1 is
  reported by two faculty conflicts, not by exactly one.
\<close>

theorem detectConflicts_pair_twice_counterexample:
  "detectConflicts sameFacultyScenario =
     Inr [facultyConflict ''Monday'' ''09:00-10:00'' 0 1
            \<lparr>subject = Some ''A'', faculty = Some ''X'', room = Some ''Room-101'',
             color = Some ''#3B82F6''\<rparr>,
          facultyConflict ''Monday'' ''09:00-10:00'' 1 0
            \<lparr>subject = Some ''B'', faculty = Some ''X'', room = Some ''Room-102'',
             color = Some ''#EF4444''\<rparr>] \<and>
   length (filter (\<lambda>c. conflictType c = faculty_conflict \<and>
                        conflictBatches c \<in> {(0, 1), (1, 0)})
             [facultyConflict ''Monday'' ''09:00-10:00'' 0 1
                \<lparr>subject = Some ''A'', faculty = Some ''X'', room = Some ''Room-101'',
                 color = Some ''#3B82F6''\<rparr>,
              facultyConflict ''Monday'' ''09:00-10:00'' 1 0
                \<lparr>subject = Some ''B'', faculty = Some ''X'', room = Some ''Room-102'',
                 color = Some ''#EF4444''\<rparr>]) = 2"
  by code_simp

text \<open>
  C7. The Conflict Detector is a function of the batches of the timetable alone: it takes
  no random draw and reads nothing of the generator, so two runs on the same timetable
  return the same list, in order and content; and since it does not read the fitness,
  the conflicts or the algorithm tag, this also holds for a second run made after the
  result of the first has been attached to the timetable.
\<close>

theorem detectConflicts_deterministic:
  "(let first = detectConflicts t; second = detectConflicts t in first = second) \<and>
   detectConflicts (t\<lparr>fitness := f, conflicts := projr_option (detectConflicts t),
                      algorithm := a\<rparr>) = detectConflicts t"
  by (simp add: detectConflicts_def)

section \<open>Constraint Checker: when a candidate is rejected\<close>

lemma validAgainst_result:
  "validAgainst bs a = Inr ok \<Longrightarrow> ok = (\<not> (\<exists>b \<in> set bs. spec_rejects a b))"
proof (induction bs)
  case Nil
  then show ?case by simp
next
  case (Cons b bs)
  show ?case
  proof (cases "spec_rejects a b")
    case True
    with Cons.prems show ?thesis
      by (auto simp: spec_rejects_def split: sum.splits cell.splits option.splits if_splits)
  next
    case False
    with Cons.prems have "validAgainst bs a = Inr ok"
      by (auto simp: spec_rejects_def split: sum.splits cell.splits option.splits if_splits)
    with Cons.IH False show ?thesis
      by simp
  qed
qed

lemma validAgainst_returns:
  "\<forall>b \<in> set bs. batch_id b \<noteq> batch a \<longrightarrow> day a \<in> set (keys (schedule b)) \<Longrightarrow>
   room a \<noteq> None \<Longrightarrow> \<exists>ok. validAgainst bs a = Inr ok"
proof (induction bs)
  case Nil
  show ?case by auto
next
  case (Cons b bs)
  then obtain ok where ok: "validAgainst bs a = Inr ok"
    by auto
  show ?case
  proof (cases "batch_id b = batch a")
    case True
    with ok show ?thesis by simp
  next
    case False
    with Cons.prems have "day a \<in> set (keys (schedule b))"
      by simp
    then obtain obj where "map_of (schedule b) (day a) = Some obj"
      by (auto simp: keys_def dest: weak_map_of_SomeI)
    then have "getCell b (day a) (slot a) = Inr (getProp obj (slot a))"
      by (simp add: getCell_def)
    with False ok Cons.prems(2) show ?thesis
      by (auto split: cell.splits)
  qed
qed

text \<open>
  C6. Whenever \<open>isValidAssignment\<close> returns, it returns \<open>false\<close> exactly when some batch
  other than the candidate's batch has an occupied entry at the candidate's day and slot
  whose faculty is the candidate's, or whose room is the candidate's and is not a lab; and
  it returns \<open>true\<close> otherwise. It does return when every other batch has the candidate's
  day among its keys and the candidate has a room name (reading a slot of a missing day,
  or calling \<open>includes\<close> on a missing room name, throws).
\<close>

theorem isValidAssignment_rejects_iff:
  "(\<forall>ok. isValidAssignment t a = Inr ok \<longrightarrow>
       (ok = False \<longleftrightarrow> (\<exists>b \<in> set (batches t). spec_rejects a b))) \<and>
   ((\<forall>b \<in> set (batches t). batch_id b \<noteq> batch a \<longrightarrow> day a \<in> set (keys (schedule b))) \<and>
    room a \<noteq> None \<longrightarrow> (\<exists>ok. isValidAssignment t a = Inr ok))"
  using validAgainst_result [of "batches t" a] validAgainst_returns [of "batches t" a]
  unfolding isValidAssignment_def by blast


theorem isValidAssignment_rejects_iff_witness:
  "isValidAssignment sameFacultyScenario
     \<lparr>subject = Some ''C'', faculty = Some ''X'', room = Some ''Room-103'', color = None,
      batch = 0, day = ''Monday'', slot = ''09:00-10:00''\<rparr> = Inr False \<and>
   (\<exists>b \<in> set (batches sameFacultyScenario).
      spec_rejects
        \<lparr>subject = Some ''C'', faculty = Some ''X'', room = Some ''Room-103'', color = None,
         batch = 0, day = ''Monday'', slot = ''09:00-10:00''\<rparr> b)"
proof -
  let ?a = "\<lparr>subject = Some ''C'', faculty = Some ''X'', room = Some ''Room-103'', color = None,
             batch = 0, day = ''Monday'', slot = ''09:00-10:00''\<rparr>"
  have wf: "(\<forall>b \<in> set (batches sameFacultyScenario).
               batch_id b \<noteq> batch ?a \<longrightarrow> day ?a \<in> set (keys (schedule b))) \<and> room ?a \<noteq> None"
    by (simp add: sameFacultyScenario_def keys_def)
  have r: "isValidAssignment sameFacultyScenario ?a = Inr False"
    by code_simp
  from isValidAssignment_rejects_iff [of sameFacultyScenario ?a] wf r show ?thesis
    by blast
qed

section \<open>Genetic operators: what crossover and mutation leave alone\<close>


lemma thenE_Inr_iff: "thenE m f = Inr y \<longleftrightarrow> (\<exists>x. m = Inr x \<and> f x = Inr y)"
  by (cases m) (simp_all add: thenE_def)

lemma foldE_invariant:
  assumes "foldE f xs st = Inr st'" and "P st"
    and "\<And>x s s'. x \<in> set xs \<Longrightarrow> P s \<Longrightarrow> f x s = Inr s' \<Longrightarrow> P s'"
  shows "P st'"
  using assms
proof (induction xs arbitrary: st)
  case Nil
  then show ?case by simp
next
  case (Cons x xs)
  from Cons.prems(1) obtain s1 where s1: "f x st = Inr s1" "foldE f xs s1 = Inr st'"
    by (auto split: sum.splits)
  from Cons.prems(3) [OF _ Cons.prems(2) s1(1)] have "P s1"
    by simp
  show ?case
  proof (rule Cons.IH [OF s1(2) \<open>P s1\<close>])
    fix x' s s'
    assume "x' \<in> set xs" and "P s" and "f x' s = Inr s'"
    then show "P s'"
      using Cons.prems(3) [of x' s s'] by simp
  qed
qed

lemma foldE_returns:
  assumes "I st" and "\<And>x s. x \<in> set xs \<Longrightarrow> I s \<Longrightarrow> \<exists>s'. f x s = Inr s' \<and> I s'"
  shows "\<exists>st'. foldE f xs st = Inr st' \<and> I st'"
  using assms
proof (induction xs arbitrary: st)
  case Nil
  then show ?case by simp
next
  case (Cons x xs)
  from Cons.prems obtain s' where s': "f x st = Inr s'" "I s'"
    by (meson list.set_intros(1))
  from Cons.IH [OF s'(2)] Cons.prems(2) obtain st' where "foldE f xs s' = Inr st'" "I st'"
    by (meson list.set_intros(2))
  with s' show ?case by simp
qed

lemma mapE_Inr:
  "mapE f xs = Inr ys \<Longrightarrow> length ys = length xs \<and> (\<forall>i < length xs. f (xs ! i) = Inr (ys ! i))"
proof (induction xs arbitrary: ys)
  case Nil
  then show ?case by simp
next
  case (Cons x xs)
  then show ?case
    by (auto split: sum.splits simp: nth_Cons split: nat.splits)
qed

lemma mapE_returns:
  "(\<And>x. x \<in> set xs \<Longrightarrow> \<exists>y. f x = Inr y) \<Longrightarrow> \<exists>ys. mapE f xs = Inr ys"
proof (induction xs)
  case Nil
  then show ?case by simp
next
  case (Cons x xs)
  then obtain y ys where "f x = Inr y" "mapE f xs = Inr ys"
    by (meson list.set_intros)
  then show ?case by simp
qed

lemma map_of_setProp:
  "map_of (setProp obj k v) k' = (if k' = k then Some v else map_of obj k')"
  by (induction obj k v rule: setProp.induct) auto

lemma keys_setProp: "map_of obj k = Some v' \<Longrightarrow> keys (setProp obj k v) = keys obj"
  by (induction obj k v rule: setProp.induct) (auto simp: keys_def split: if_splits)

lemma getCell_setCell:
  assumes "setCell b d s v = Inr b'"
  shows "getCell b' d' s' = (if d' = d \<and> s' = s then Inr v else getCell b d' s')"
proof (cases "map_of (schedule b) d")
  case None
  with assms show ?thesis by (simp add: setCell_def)
next
  case (Some obj)
  with assms have "schedule b' = setProp (schedule b) d (setProp obj s v)"
    by (auto simp: setCell_def)
  with Some show ?thesis
    by (simp add: getCell_def getProp_def map_of_setProp)
qed

lemma keys_setCell: "setCell b d s v = Inr b' \<Longrightarrow> keys (schedule b') = keys (schedule b)"
  by (auto simp: setCell_def keys_setProp split: option.splits)

lemma setCell_returns: "d \<in> set (keys (schedule b)) \<Longrightarrow> \<exists>b'. setCell b d s v = Inr b'"
  by (auto simp: setCell_def keys_def split: option.splits dest: weak_map_of_SomeI)

lemma getCell_returns: "d \<in> set (keys (schedule b)) \<Longrightarrow> \<exists>c. getCell b d s = Inr c"
  by (auto simp: getCell_def keys_def split: option.splits dest: weak_map_of_SomeI)

lemma crossoverSlot_keeps:
  assumes "crossoverSlot p2b d' s' b = Inr b'" and "getCell b d s = Inr (Class c)"
  shows "getCell b' d s = Inr (Class c)"
proof -
  from assms(1) consider "b' = b"
    | class2 c0 where "getCell b d' s' = Inr c0" "\<not> truthy c0" "setCell b d' s' class2 = Inr b'"
    by (auto simp: crossoverSlot_def thenE_Inr_iff split: option.splits if_splits)
  then show ?thesis
  proof cases
    case 1
    with assms(2) show ?thesis by simp
  next
    case 2
    with assms(2) have "\<not> (d = d' \<and> s = s')"
      by (auto simp: truthy_def)
    with getCell_setCell [OF 2(3), of d s] assms(2) show ?thesis
      by auto
  qed
qed

lemma crossoverBatch_keeps:
  assumes "crossoverBatch g parent2 (i, b0) = Inr b'" and "getCell b0 d s = Inr (Class c)"
  shows "getCell b' d s = Inr (Class c)"
proof -
  let ?P = "\<lambda>b. getCell b d s = Inr (Class c)"
  from assms(1) show ?thesis
    unfolding crossoverBatch_def prod.case
  proof (rule foldE_invariant [where P = ?P])
    show "?P b0" by (rule assms(2))
  next
    fix x b b1
    assume P: "?P b"
      and step: "(case x of (dayIndex, d) \<Rightarrow> \<lambda>b.
               if int (length (days g)) \<le> 2 * int dayIndex
               then (case map_of (schedule b) d of None \<Rightarrow> Inl TypeError
                     | Some obj \<Rightarrow>
                         foldE (crossoverSlot (nthOpt (batches parent2) i) d) (keys obj) b)
               else Inr b) b = Inr b1"
    obtain dayIndex d' where [simp]: "x = (dayIndex, d')"
      by (cases x)
    show "?P b1"
    proof (cases "int (length (days g)) \<le> 2 * int dayIndex")
      case False
      with step P show ?thesis by simp
    next
      case True
      with step obtain obj :: dayObj where
        "foldE (crossoverSlot (nthOpt (batches parent2) i) d') (keys obj) b = Inr b1"
        by (auto split: option.splits)
      then show ?thesis
        by (rule foldE_invariant [where P = ?P]) (use P crossoverSlot_keeps in blast)+
    qed
  qed
qed


lemma in_keys_map_of: "k \<in> set (keys obj) \<Longrightarrow> \<exists>v. map_of obj k = Some v"
  by (induction obj) (auto simp: keys_def)

lemma length_deepCopy [simp]: "length (batches (deepCopy t)) = length (batches t)"
  by (simp add: deepCopy_def)

lemma keys_deepCopy:
  "i < length (batches t) \<Longrightarrow>
     keys (schedule (batches (deepCopy t) ! i)) = keys (schedule (batches t ! i))"
  by (simp add: deepCopy_def keys_def comp_def case_prod_unfold)

lemma getProp_filter_Class:
  "getProp obj s = Class c \<Longrightarrow> getProp (filter (\<lambda>(s, c). c \<noteq> Undefined) obj) s = Class c"
  by (induction obj) (auto simp: getProp_def split: if_splits)

lemma getCell_deepCopy_Class:
  assumes "i < length (batches t)" and "getCell (batches t ! i) d s = Inr (Class c)"
  shows "getCell (batches (deepCopy t) ! i) d s = Inr (Class c)"
proof -
  from assms(2) obtain obj where obj: "map_of (schedule (batches t ! i)) d = Some obj"
    and c: "getProp obj s = Class c"
    by (auto simp: getCell_def split: option.splits)
  from assms(1) have "schedule (batches (deepCopy t) ! i) =
      map (\<lambda>(d, obj). (d, filter (\<lambda>(s, c). c \<noteq> Undefined) obj)) (schedule (batches t ! i))"
    by (simp add: deepCopy_def)
  with obj have "map_of (schedule (batches (deepCopy t) ! i)) d =
      Some (filter (\<lambda>(s, c). c \<noteq> Undefined) obj)"
    by (simp add: map_of_map)
  with c show ?thesis
    by (simp add: getCell_def getProp_filter_Class)
qed

lemma deepCopy_noUndefined:
  "noUndefined t \<Longrightarrow> deepCopy t = t\<lparr>fitness := jsonNumber (fitness t)\<rparr>"
proof -
  assume a: "noUndefined t"
  have obj: "filter (\<lambda>(s, c). c \<noteq> Undefined) obj = obj"
    if "b \<in> set (batches t)" and "(d, obj) \<in> set (schedule b)" for b d obj
    using a that by (fastforce simp: noUndefined_def filter_id_conv)
  have "map (\<lambda>(d, obj). (d, filter (\<lambda>(s, c). c \<noteq> Undefined) obj)) (schedule b) = schedule b"
    if "b \<in> set (batches t)" for b
    by (rule map_idI) (use obj [OF that] in auto)
  then have "map (\<lambda>b. b\<lparr>schedule :=
                       map (\<lambda>(d, obj). (d, filter (\<lambda>(s, c). c \<noteq> Undefined) obj)) (schedule b)\<rparr>)
             (batches t) = batches t"
    by (simp add: map_idI)
  then show ?thesis
    by (simp add: deepCopy_def)
qed

lemma crossoverSlot_returns:
  assumes "d \<in> set (keys (schedule p2))" and "d \<in> set (keys (schedule b))"
  shows "\<exists>b'. crossoverSlot (Some p2) d s b = Inr b' \<and> keys (schedule b') = keys (schedule b)"
proof -
  from getCell_returns [OF assms(1)] obtain class2 where c2: "getCell p2 d s = Inr class2"
    by blast
  from getCell_returns [OF assms(2)] obtain c where c: "getCell b d s = Inr c"
    by blast
  from setCell_returns [OF assms(2)] obtain b' where b': "setCell b d s class2 = Inr b'"
    by blast
  with c2 c keys_setCell [OF b'] show ?thesis
    by (auto simp: crossoverSlot_def thenE_def)
qed

lemma crossoverBatch_returns:
  assumes "nthOpt (batches parent2) i = Some p2"
    and "keys (schedule p2) = keys (schedule b0)"
  shows "\<exists>b'. crossoverBatch g parent2 (i, b0) = Inr b'"
proof -
  let ?I = "\<lambda>b. keys (schedule b) = keys (schedule b0)"
  let ?f = "\<lambda>(dayIndex, d) b.
             if int (length (days g)) \<le> 2 * int dayIndex
             then (case map_of (schedule b) d of
                     None \<Rightarrow> Inl TypeError
                   | Some obj \<Rightarrow>
                       foldE (crossoverSlot (nthOpt (batches parent2) i) d) (keys obj) b)
             else Inr b"
  have "\<exists>b'. foldE ?f (enumerate 0 (keys (schedule b0))) b0 = Inr b' \<and> ?I b'"
  proof (rule foldE_returns [where I = ?I])
    show "?I b0" by simp
  next
    fix x and b :: Batch
    assume x: "x \<in> set (enumerate 0 (keys (schedule b0)))" and I: "?I b"
    obtain dayIndex d where [simp]: "x = (dayIndex, d)"
      by (cases x)
    from x have d: "d \<in> set (keys (schedule b0))"
      by (auto simp: in_set_enumerate_eq)
    with I have "d \<in> set (keys (schedule b))"
      by simp
    then obtain obj where obj: "map_of (schedule b) d = Some obj"
      by (auto dest: in_keys_map_of)
    have "\<exists>b'. foldE (crossoverSlot (Some p2) d) (keys obj) b = Inr b' \<and> ?I b'"
    proof (rule foldE_returns [where I = ?I])
      show "?I b" by (rule I)
    next
      fix s and b1 :: Batch
      assume "?I b1"
      with crossoverSlot_returns [of d p2 b1 s] d assms(2)
      show "\<exists>b'. crossoverSlot (Some p2) d s b1 = Inr b' \<and> ?I b'"
        by auto
    qed
    with obj I assms(1) show "\<exists>b'. ?f x b = Inr b' \<and> ?I b'"
      by auto
  qed
  then show ?thesis
    by (auto simp: crossoverBatch_def)
qed

text \<open>
  C10. Whenever \<open>crossover\<close> returns, the offspring has the batches of parent 1, and every
  coordinate that holds a class in parent 1 holds the same class in the offspring: a class
  of parent 2 is only ever written where the offspring has none. On parents with the same
  grid of batches, days and slots \<open>crossover\<close> does return.
\<close>

theorem crossover_keeps_parent1:
  "(\<forall>offspring. crossover g parent1 parent2 = Inr offspring \<longrightarrow>
      length (batches offspring) = length (batches parent1) \<and>
      (\<forall>i d s c. i < length (batches parent1) \<and> cellAt parent1 i d s = Class c \<longrightarrow>
                 cellAt offspring i d s = Class c)) \<and>
   (sameGrid parent1 parent2 \<longrightarrow> (\<exists>offspring. crossover g parent1 parent2 = Inr offspring))"
proof (intro conjI allI impI)
  fix offspring
  assume run: "crossover g parent1 parent2 = Inr offspring"
  then obtain bs where bs: "mapE (crossoverBatch g parent2) (enumerate 0 (batches (deepCopy parent1))) = Inr bs"
    and off: "batches offspring = bs"
    by (auto simp: crossover_def Let_def thenE_Inr_iff)
  from mapE_Inr [OF bs] have len: "length bs = length (batches parent1)"
    and each: "\<And>i. i < length (batches parent1) \<Longrightarrow>
                 crossoverBatch g parent2 (i, batches (deepCopy parent1) ! i) = Inr (bs ! i)"
    by (auto simp: nth_enumerate_eq)
  from len off show "length (batches offspring) = length (batches parent1)"
    by simp
  fix i d s c
  assume a: "i < length (batches parent1) \<and> cellAt parent1 i d s = Class c"
  then have "getCell (batches parent1 ! i) d s = Inr (Class c)"
    by (simp add: getCell_Class_iff cellAt_def)
  with a have "getCell (batches (deepCopy parent1) ! i) d s = Inr (Class c)"
    by (simp add: getCell_deepCopy_Class)
  with each a have "getCell (bs ! i) d s = Inr (Class c)"
    by (blast intro: crossoverBatch_keeps)
  with off show "cellAt offspring i d s = Class c"
    by (simp add: getCell_Class_iff cellAt_def)
next
  assume grid: "sameGrid parent1 parent2"
  then have len: "length (batches parent2) = length (batches parent1)"
    unfolding sameGrid_def by (metis length_map)
  have each: "\<exists>b'. crossoverBatch g parent2 x = Inr b'"
    if "x \<in> set (enumerate 0 (batches (deepCopy parent1)))" for x
  proof -
    obtain i b0 where [simp]: "x = (i, b0)"
      by (cases x)
    from that have i: "i < length (batches parent1)" and b0: "b0 = batches (deepCopy parent1) ! i"
      by (auto simp: in_set_enumerate_eq)
    from grid i len have "map (\<lambda>(d, obj). (d, keys obj)) (schedule (batches parent1 ! i)) =
        map (\<lambda>(d, obj). (d, keys obj)) (schedule (batches parent2 ! i))"
      unfolding sameGrid_def by (metis (no_types, lifting) nth_map)
    then have "map fst (map (\<lambda>(d, obj). (d, keys obj)) (schedule (batches parent1 ! i))) =
        map fst (map (\<lambda>(d, obj). (d, keys obj)) (schedule (batches parent2 ! i)))"
      by simp
    then have "keys (schedule (batches parent2 ! i)) = keys (schedule (batches parent1 ! i))"
      by (simp add: keys_def comp_def case_prod_unfold)
    with i b0 have "keys (schedule (batches parent2 ! i)) = keys (schedule b0)"
      by (simp add: keys_deepCopy)
    moreover from i len have "nthOpt (batches parent2) i = Some (batches parent2 ! i)"
      by (simp add: nthOpt_def)
    ultimately show ?thesis
      using crossoverBatch_returns by auto
  qed
  have "\<exists>bs. mapE (crossoverBatch g parent2) (enumerate 0 (batches (deepCopy parent1))) = Inr bs"
    by (rule mapE_returns) (rule each)
  then show "\<exists>offspring. crossover g parent1 parent2 = Inr offspring"
    by (auto simp: crossover_def Let_def thenE_def)
qed


text \<open>
  On the example, the Monday class of parent 1 stays and the empty Tuesday takes the class
  of parent 2.
\<close>

theorem crossover_keeps_parent1_witness:
  "sameGrid mondayOnly bothDays \<and>
   crossover twoDays mondayOnly bothDays =
     Inr (mondayOnly\<lparr>batches :=
        [\<lparr>batch_id = 0, name = ''Batch 1'',
          schedule = [(''Monday'', [(''09:00-10:00'', Class classA)]),
                      (''Tuesday'', [(''09:00-10:00'', Class classB)])]\<rparr>,
         \<lparr>batch_id = 1, name = ''Batch 2'',
          schedule = [(''Monday'', [(''09:00-10:00'', Class classB)]),
                      (''Tuesday'', [(''09:00-10:00'', Class classA)])]\<rparr>]\<rparr>) \<and>
   cellAt mondayOnly 0 ''Monday'' ''09:00-10:00'' = Class classA \<and>
   cellAt (mondayOnly\<lparr>batches :=
        [\<lparr>batch_id = 0, name = ''Batch 1'',
          schedule = [(''Monday'', [(''09:00-10:00'', Class classA)]),
                      (''Tuesday'', [(''09:00-10:00'', Class classB)])]\<rparr>,
         \<lparr>batch_id = 1, name = ''Batch 2'',
          schedule = [(''Monday'', [(''09:00-10:00'', Class classB)]),
                      (''Tuesday'', [(''09:00-10:00'', Class classA)])]\<rparr>]\<rparr>)
     0 ''Monday'' ''09:00-10:00'' = Class classA"
proof -
  let ?off = "mondayOnly\<lparr>batches :=
        [\<lparr>batch_id = 0, name = ''Batch 1'',
          schedule = [(''Monday'', [(''09:00-10:00'', Class classA)]),
                      (''Tuesday'', [(''09:00-10:00'', Class classB)])]\<rparr>,
         \<lparr>batch_id = 1, name = ''Batch 2'',
          schedule = [(''Monday'', [(''09:00-10:00'', Class classB)]),
                      (''Tuesday'', [(''09:00-10:00'', Class classA)])]\<rparr>]\<rparr>"
  have grid: "sameGrid mondayOnly bothDays"
    by (simp add: sameGrid_def mondayOnly_def bothDays_def keys_def)
  have run: "crossover twoDays mondayOnly bothDays = Inr ?off"
    by code_simp
  have c: "(0::nat) < length (batches mondayOnly) \<and>
           cellAt mondayOnly 0 ''Monday'' ''09:00-10:00'' = Class classA"
    by (simp add: cellAt_def mondayOnly_def getProp_def)
  from crossover_keeps_parent1 [of twoDays mondayOnly bothDays] run c
  have "cellAt ?off 0 ''Monday'' ''09:00-10:00'' = Class classA"
    by blast
  with grid run c show ?thesis
    by blast
qed

lemma concatMapE_returns:
  "(\<And>x. x \<in> set xs \<Longrightarrow> \<exists>y. f x = Inr y) \<Longrightarrow> \<exists>ys. concatMapE f xs = Inr ys"
proof (induction xs)
  case Nil
  then show ?case by simp
next
  case (Cons x xs)
  then obtain y ys where "f x = Inr y" "concatMapE f xs = Inr ys"
    by (meson list.set_intros)
  then show ?case by simp
qed

lemma coordinates_returns: "\<exists>cs. coordinates b = Inr cs"
  unfolding coordinates_def
  by (rule concatMapE_returns) (auto dest: in_keys_map_of)

lemma coordinates_days:
  assumes "coordinates b = Inr cs" and "((d, s), f) \<in> set cs"
  shows "d \<in> set (keys (schedule b))"
proof -
  from concatMapE_Inr [OF assms(1) [unfolded coordinates_def]] assms(2)
  show ?thesis
    by (auto split: option.splits)
qed

lemma moveClass_returns:
  assumes "fst e \<in> set (keys (schedule b))" and "fst f \<in> set (keys (schedule b))"
  shows "\<exists>b'. moveClass b e f = Inr b'"
proof -
  from getCell_returns [OF assms(2)] obtain c where c: "getCell b (fst f) (snd f) = Inr c"
    by blast
  from setCell_returns [OF assms(1)] obtain b1 where b1: "setCell b (fst e) (snd e) c = Inr b1"
    by blast
  from assms(2) keys_setCell [OF b1] have "fst f \<in> set (keys (schedule b1))"
    by simp
  from setCell_returns [OF this] obtain b2 where "setCell b1 (fst f) (snd f) Null = Inr b2"
    by blast
  with c b1 show ?thesis
    by (simp add: moveClass_def thenE_def)
qed

lemma swapSlots_returns:
  assumes "schedule b \<noteq> []"
  shows "\<exists>b'. swapSlots r b = Inr b'"
proof -
  from assms have ne: "keys (schedule b) \<noteq> []"
    by (simp add: keys_def)
  define day1 where "day1 = keys (schedule b) ! (day1Draw r mod length (keys (schedule b)))"
  define day2 where "day2 = keys (schedule b) ! (day2Draw r mod length (keys (schedule b)))"
  from ne have p: "pick (day1Draw r) (keys (schedule b)) = Some day1"
    "pick (day2Draw r) (keys (schedule b)) = Some day2"
    by (simp_all add: pick_def day1_def day2_def)
  from ne have in1: "day1 \<in> set (keys (schedule b))" and in2: "day2 \<in> set (keys (schedule b))"
    by (simp_all add: day1_def day2_def)
  from in_keys_map_of [OF in1] in_keys_map_of [OF in2]
  obtain slots1 slots2 where k: "dayKeys b day1 = Inr slots1" "dayKeys b day2 = Inr slots2"
    by (auto simp: dayKeys_def)
  define slot1 where "slot1 = str (pick (slot1Draw r) slots1)"
  define slot2 where "slot2 = str (pick (slot2Draw r) slots2)"
  from getCell_returns [OF in1] obtain temp where t: "getCell b day1 slot1 = Inr temp"
    by blast
  from getCell_returns [OF in2] obtain c where c: "getCell b day2 slot2 = Inr c"
    by blast
  from setCell_returns [OF in1] obtain b1 where b1: "setCell b day1 slot1 c = Inr b1"
    by blast
  from in2 keys_setCell [OF b1] have "day2 \<in> set (keys (schedule b1))"
    by simp
  from setCell_returns [OF this] obtain b2 where "setCell b1 day2 slot2 temp = Inr b2"
    by blast
  with p k t c b1 show ?thesis
    by (simp add: swapSlots_def thenE_def slot1_def slot2_def)
qed

text \<open>
  C8. Whenever \<open>mutate\<close> returns on a timetable that stores no \<open>undefined\<close> entry, the
  result has the same number of batches and every batch other than the one drawn for
  mutation is the batch of the input, schedule included. It does return when there is a
  batch and every batch has a day (with no batch, or no day in the drawn batch, a property
  of \<open>undefined\<close> is read).
\<close>

theorem mutate_one_batch:
  "(\<forall>mutated. mutate r t = Inr mutated \<and> noUndefined t \<longrightarrow>
      length (batches mutated) = length (batches t) \<and>
      (\<forall>j < length (batches t). j \<noteq> batchDraw r mod length (batches t) \<longrightarrow>
           batches mutated ! j = batches t ! j)) \<and>
   (batches t \<noteq> [] \<and> (\<forall>b \<in> set (batches t). schedule b \<noteq> []) \<longrightarrow>
      (\<exists>mutated. mutate r t = Inr mutated))"
proof (rule conjI; intro allI impI)
  fix mutated
  assume a: "mutate r t = Inr mutated \<and> noUndefined t"
  then have copy: "deepCopy t = t\<lparr>fitness := jsonNumber (fitness t)\<rparr>"
    by (simp add: deepCopy_noUndefined)
  with a obtain b' where
    "mutated = t\<lparr>fitness := jsonNumber (fitness t),
                 batches := (batches t)[batchDraw r mod length (batches t) := b']\<rparr>"
    by (auto simp: mutate_def Let_def thenE_Inr_iff split: if_splits)
  then show "length (batches mutated) = length (batches t) \<and>
      (\<forall>j < length (batches t). j \<noteq> batchDraw r mod length (batches t) \<longrightarrow>
           batches mutated ! j = batches t ! j)"
    by simp
next
  assume a: "batches t \<noteq> [] \<and> (\<forall>b \<in> set (batches t). schedule b \<noteq> [])"
  define m where "m = deepCopy t"
  define i where "i = batchDraw r mod length (batches m)"
  define b where "b = batches m ! i"
  from a have ne: "batches m \<noteq> []"
    by (simp add: deepCopy_def m_def)
  from a have i: "i < length (batches t)"
    by (simp add: i_def m_def)
  with a keys_deepCopy [OF i] have sched: "schedule b \<noteq> []"
    by (auto simp: keys_def b_def m_def)
  obtain cs where cs: "coordinates b = Inr cs"
    using coordinates_returns by blast
  define emptySlots where "emptySlots = map fst (filter (\<lambda>c. \<not> snd c) cs)"
  define filledSlots where "filledSlots = map fst (filter snd cs)"
  have "\<exists>b'. (if emptySlots \<noteq> [] \<and> filledSlots \<noteq> []
              then moveClass b
                     (emptySlots ! (emptyDraw r mod length emptySlots))
                     (filledSlots ! (filledDraw r mod length filledSlots))
              else swapSlots r b) = Inr b'"
  proof (cases "emptySlots \<noteq> [] \<and> filledSlots \<noteq> []")
    case False
    with swapSlots_returns [OF sched] show ?thesis
      by auto
  next
    case True
    have pick_in: "xs ! (n mod length xs) \<in> set xs" if "xs \<noteq> []"
      for xs :: "(string \<times> string) list" and n
      using that by simp
    have in_keys: "fst e \<in> set (keys (schedule b))" if "e \<in> fst ` set cs" for e
    proof -
      from that obtain f where "((fst e, snd e), f) \<in> set cs"
        by force
      then show ?thesis
        by (rule coordinates_days [OF cs])
    qed
    from True have "emptySlots ! (emptyDraw r mod length emptySlots) \<in> set emptySlots"
      and "filledSlots ! (filledDraw r mod length filledSlots) \<in> set filledSlots"
      by (blast intro: pick_in)+
    then have "fst (emptySlots ! (emptyDraw r mod length emptySlots)) \<in> set (keys (schedule b))"
      and "fst (filledSlots ! (filledDraw r mod length filledSlots)) \<in> set (keys (schedule b))"
      by (auto intro!: in_keys simp: emptySlots_def filledSlots_def)
    from moveClass_returns [OF this] True show ?thesis
      by auto
  qed
  then obtain b' where "(if emptySlots \<noteq> [] \<and> filledSlots \<noteq> []
              then moveClass b
                     (emptySlots ! (emptyDraw r mod length emptySlots))
                     (filledSlots ! (filledDraw r mod length filledSlots))
              else swapSlots r b) = Inr b'"
    by blast
  with ne cs have "mutate r t = Inr (m\<lparr>batches := (batches m)[i := b']\<rparr>)"
    unfolding mutate_def Let_def m_def i_def b_def emptySlots_def filledSlots_def
    by (simp add: thenE_def)
  then show "\<exists>mutated. mutate r t = Inr mutated"
    by blast
qed


text \<open>
  On the example with all draws \<open>0\<close> the class of batch 0 moves from Monday to Tuesday and
  batch 1 stays as it is.
\<close>

theorem mutate_one_batch_witness:
  "noUndefined mondayOnly \<and>
   mutate zeroDraws mondayOnly =
     Inr (mondayOnly\<lparr>batches :=
        [\<lparr>batch_id = 0, name = ''Batch 1'',
          schedule = [(''Monday'', [(''09:00-10:00'', Null)]),
                      (''Tuesday'', [(''09:00-10:00'', Class classA)])]\<rparr>,
         batches mondayOnly ! 1]\<rparr>)"
proof -
  have n: "noUndefined mondayOnly"
    by (simp add: noUndefined_def mondayOnly_def)
  have ne: "batches mondayOnly \<noteq> [] \<and> (\<forall>b \<in> set (batches mondayOnly). schedule b \<noteq> [])"
    by (simp add: mondayOnly_def)
  with mutate_one_batch [of zeroDraws mondayOnly] obtain mutated
    where m: "mutate zeroDraws mondayOnly = Inr mutated"
    by blast
  with mutate_one_batch [of zeroDraws mondayOnly] n
  have "length (batches mutated) = length (batches mondayOnly)"
    and "\<forall>j < length (batches mondayOnly).
           j \<noteq> batchDraw zeroDraws mod length (batches mondayOnly) \<longrightarrow>
           batches mutated ! j = batches mondayOnly ! j"
    by blast+
  then have "batches mutated ! 1 = batches mondayOnly ! 1"
    by (simp add: mondayOnly_def zeroDraws_def)
  moreover have "mutate zeroDraws mondayOnly =
     Inr (mondayOnly\<lparr>batches :=
        [\<lparr>batch_id = 0, name = ''Batch 1'',
          schedule = [(''Monday'', [(''09:00-10:00'', Null)]),
                      (''Tuesday'', [(''09:00-10:00'', Class classA)])]\<rparr>,
         \<lparr>batch_id = 1, name = ''Batch 2'',
          schedule = [(''Monday'', [(''09:00-10:00'', Class classB)]),
                      (''Tuesday'', [(''09:00-10:00'', Null)])]\<rparr>]\<rparr>)"
    by code_simp
  ultimately show ?thesis
    using n m by (simp add: mondayOnly_def)
qed

section \<open>Gap-Filling Optimizer: the reserved free slot\<close>

lemmas filledCount_alt = filledCount_def

lemma concat_map_Pair_product: "concat (map (\<lambda>d. map (\<lambda>s. (d, s)) ss) ds) = List.product ds ss"
  by (induction ds) simp_all

lemma distinct_gridCoordinates:
  "distinct (days g) \<Longrightarrow> distinct (slice0 (maxClasses (parameters g)) (timeSlots g)) \<Longrightarrow>
     distinct (gridCoordinates g)"
  by (simp add: gridCoordinates_def concat_map_Pair_product distinct_product)

lemma count_change_one:
  "distinct xs \<Longrightarrow> (\<And>x. x \<in> set xs \<Longrightarrow> x \<noteq> a \<Longrightarrow> P' x = P x) \<Longrightarrow>
     length (filter P' xs) \<le> length (filter P xs) + 1"
proof (induction xs)
  case Nil
  then show ?case by simp
next
  case (Cons x xs)
  show ?case
  proof (cases "x = a")
    case True
    with Cons.prems have "a \<notin> set xs"
      by simp
    with Cons.prems(2) have "filter P' xs = filter P xs"
      by (intro filter_cong) auto
    then show ?thesis
      by simp
  next
    case False
    with Cons.prems(2) have "P' x = P x"
      by simp
    moreover from Cons have "length (filter P' xs) \<le> length (filter P xs) + 1"
      by simp
    ultimately show ?thesis
      by simp
  qed
qed

lemma filledCount_setCell:
  assumes "setCell b d s v = Inr b'" and "distinct (gridCoordinates g)"
  shows "filledCount g b' \<le> filledCount g b + 1"
  unfolding filledCount_alt
proof (rule count_change_one [OF assms(2), where a = "(d, s)"])
  fix x
  assume "x \<noteq> (d, s)"
  then show "(case x of (d, s) \<Rightarrow> case getCell b' d s of Inr c \<Rightarrow> truthy c | Inl e \<Rightarrow> False) =
             (case x of (d, s) \<Rightarrow> case getCell b d s of Inr c \<Rightarrow> truthy c | Inl e \<Rightarrow> False)"
    by (cases x) (auto simp: getCell_setCell [OF assms(1)])
qed

lemma fillSlot_frame:
  assumes "fillSlot g r j ds tt = Inr tt'" and "j < length (batches tt)"
  shows "length (batches tt') = length (batches tt) \<and>
         (\<forall>i. i \<noteq> j \<longrightarrow> batches tt' ! i = batches tt ! i) \<and>
         (batches tt' ! j = batches tt ! j \<or>
          (\<exists>v. setCell (batches tt ! j) (fst ds) (snd ds) v = Inr (batches tt' ! j)))"
proof -
  from assms(1) consider "tt' = tt"
    | v b' where "setCell (batches tt ! j) (fst ds) (snd ds) v = Inr b'"
        "tt' = tt\<lparr>batches := (batches tt)[j := b']\<rparr>"
    unfolding fillSlot_def Let_def
    by (auto simp: thenE_Inr_iff split: if_splits)
  then show ?thesis
  proof cases
    case 1
    then show ?thesis by simp
  next
    case 2
    with assms(2) show ?thesis
      by auto
  qed
qed


lemma fillSlots_count:
  assumes "foldE (\<lambda>(k, emptySlot). fillSlot g (rnd k) j emptySlot) kds tt = Inr tt'"
    and "j < length (batches tt)" and "distinct (gridCoordinates g)"
  shows "length (batches tt') = length (batches tt) \<and>
         (\<forall>i. i \<noteq> j \<longrightarrow> batches tt' ! i = batches tt ! i) \<and>
         filledCount g (batches tt' ! j) \<le> filledCount g (batches tt ! j) + length kds"
  using assms(1,2)
proof (induction kds arbitrary: tt)
  case Nil
  then show ?case by simp
next
  case (Cons kd kds)
  obtain k ds where [simp]: "kd = (k, ds)"
    by (cases kd)
  from Cons.prems(1) obtain t1 where t1: "fillSlot g (rnd k) j ds tt = Inr t1"
    and rest: "foldE (\<lambda>(k, emptySlot). fillSlot g (rnd k) j emptySlot) kds t1 = Inr tt'"
    by (auto split: sum.splits)
  from fillSlot_frame [OF t1 Cons.prems(2)]
  have len: "length (batches t1) = length (batches tt)"
    and others: "\<forall>i. i \<noteq> j \<longrightarrow> batches t1 ! i = batches tt ! i"
    and this_one: "batches t1 ! j = batches tt ! j \<or>
          (\<exists>v. setCell (batches tt ! j) (fst ds) (snd ds) v = Inr (batches t1 ! j))"
    by simp_all
  from this_one have step: "filledCount g (batches t1 ! j) \<le> filledCount g (batches tt ! j) + 1"
    using filledCount_setCell [OF _ assms(3)] by auto
  from len Cons.prems(2) have "j < length (batches t1)"
    by simp
  from Cons.IH [OF rest this] len others step show ?case
    by auto
qed

lemma gridRow_Inr:
  "mapE (\<lambda>s. thenE (getCell b d s) (\<lambda>c. Inr ((d, s), c))) ss = Inr row \<Longrightarrow>
     map fst row = map (\<lambda>s. (d, s)) ss \<and> (\<forall>(ds, c) \<in> set row. getCell b (fst ds) (snd ds) = Inr c)"
proof (induction ss arbitrary: row)
  case Nil
  then show ?case by simp
next
  case (Cons s ss)
  from Cons.prems obtain c row' where "getCell b d s = Inr c"
    and "mapE (\<lambda>s. thenE (getCell b d s) (\<lambda>c. Inr ((d, s), c))) ss = Inr row'"
    and "row = ((d, s), c) # row'"
    by (auto simp: thenE_def split: sum.splits)
  with Cons.IH [of row'] show ?case
    by simp
qed

lemma gridCells_Inr:
  assumes "gridCells b ds ss = Inr cells"
  shows "map fst cells = concat (map (\<lambda>d. map (\<lambda>s. (d, s)) ss) ds) \<and>
         (\<forall>(x, c) \<in> set cells. getCell b (fst x) (snd x) = Inr c)"
  using assms unfolding gridCells_def
proof (induction ds arbitrary: cells)
  case Nil
  then show ?case by simp
next
  case (Cons d ds)
  from Cons.prems obtain row cells' where
    row: "mapE (\<lambda>s. thenE (getCell b d s) (\<lambda>c. Inr ((d, s), c))) ss = Inr row"
    and rest: "concatMapE (\<lambda>d. mapE (\<lambda>s. thenE (getCell b d s) (\<lambda>c. Inr ((d, s), c))) ss) ds
                 = Inr cells'"
    and cells: "cells = row @ cells'"
    by (auto split: sum.splits)
  from gridRow_Inr [OF row] Cons.IH [OF rest] cells show ?case
    by auto
qed

lemma gridCells_counts:
  assumes "gridCells b (days g) (slice0 (maxClasses (parameters g)) (timeSlots g)) = Inr cells"
  shows "length (filter (\<lambda>(ds, c). truthy c) cells) = filledCount g b"
    and "length (map fst (filter (\<lambda>(ds, c). \<not> truthy c) cells)) =
           length (gridCoordinates g) - filledCount g b"
proof -
  from gridCells_Inr [OF assms]
  have fst: "map fst cells = gridCoordinates g"
    and get: "\<forall>(x, c) \<in> set cells. getCell b (fst x) (snd x) = Inr c"
    by (simp_all add: gridCoordinates_def)
  have "filter (\<lambda>(d, s). case getCell b d s of Inr c \<Rightarrow> truthy c | Inl e \<Rightarrow> False) (map fst cells) =
        map fst (filter (\<lambda>(ds, c). truthy c) cells)"
    unfolding filter_map comp_def
    by (rule arg_cong [where f = "map fst"], rule filter_cong) (use get in auto)
  then show filled: "length (filter (\<lambda>(ds, c). truthy c) cells) = filledCount g b"
    by (simp add: filledCount_alt flip: fst)
  have "length (filter (\<lambda>(ds, c). \<not> truthy c) cells) + length (filter (\<lambda>(ds, c). truthy c) cells)
          = length cells"
    using sum_length_filter_compl [of "\<lambda>(ds, c). truthy c" cells]
    by (simp add: case_prod_unfold)
  moreover have "length cells = length (gridCoordinates g)"
    by (simp flip: fst)
  ultimately show "length (map fst (filter (\<lambda>(ds, c). \<not> truthy c) cells)) =
           length (gridCoordinates g) - filledCount g b"
    using filled by simp
qed

lemma length_slice0_le: "0 \<le> n \<Longrightarrow> length (slice0 n xs) \<le> nat n"
  by (simp add: slice0_def)

lemma fillBatch_count:
  assumes "fillBatch g rnd j tt = Inr tt'" and "j < length (batches tt)"
    and "distinct (gridCoordinates g)"
  shows "length (batches tt') = length (batches tt) \<and>
         (\<forall>i. i \<noteq> j \<longrightarrow> batches tt' ! i = batches tt ! i) \<and>
         int (filledCount g (batches tt' ! j)) \<le>
           int (filledCount g (batches tt ! j)) +
           max 0 (min (int (length (gridCoordinates g) - filledCount g (batches tt ! j)))
                      (int (length (days g)) * maxClasses (parameters g) - 1 -
                       int (filledCount g (batches tt ! j))))"
proof -
  let ?b = "batches tt ! j"
  from assms(1) obtain cells where
    cells: "gridCells ?b (days g) (slice0 (maxClasses (parameters g)) (timeSlots g)) = Inr cells"
    by (auto simp: fillBatch_def thenE_Inr_iff)
  define slotsToFill where "slotsToFill =
     min (int (length (map fst (filter (\<lambda>(ds, c). \<not> truthy c) cells))))
         (int (length (days g)) * maxClasses (parameters g) - 1 -
          int (length (filter (\<lambda>(ds, c). truthy c) cells)))"
  define targets where "targets =
     enumerate 0 (slice0 (max 0 slotsToFill) (map fst (filter (\<lambda>(ds, c). \<not> truthy c) cells)))"
  from assms(1) cells
  have run: "foldE (\<lambda>(k, emptySlot). fillSlot g (rnd j k) j emptySlot) targets tt = Inr tt'"
    unfolding fillBatch_def Let_def targets_def slotsToFill_def
    by (simp add: thenE_def)
  have "length targets \<le> nat (max 0 slotsToFill)"
    by (simp add: targets_def length_slice0_le)
  with fillSlots_count [OF run assms(2,3)]
  have "length (batches tt') = length (batches tt)"
    and "\<forall>i. i \<noteq> j \<longrightarrow> batches tt' ! i = batches tt ! i"
    and "int (filledCount g (batches tt' ! j)) \<le> int (filledCount g ?b) + max 0 slotsToFill"
    by auto
  then show ?thesis
    unfolding slotsToFill_def gridCells_counts [OF cells] by simp
qed


lemma fillBatches_count:
  assumes "foldE (fillBatch g rnd) js tt = Inr tt'" and "distinct js"
    and "\<forall>j \<in> set js. j < length (batches tt)" and "distinct (gridCoordinates g)"
  shows "length (batches tt') = length (batches tt) \<and>
         (\<forall>i. i \<notin> set js \<longrightarrow> batches tt' ! i = batches tt ! i) \<and>
         (\<forall>i \<in> set js. int (filledCount g (batches tt' ! i)) \<le> fillBound g (batches tt ! i))"
  using assms(1-3)
proof (induction js arbitrary: tt)
  case Nil
  then show ?case by simp
next
  case (Cons j js)
  from Cons.prems(1) obtain t1 where t1: "fillBatch g rnd j tt = Inr t1"
    and rest: "foldE (fillBatch g rnd) js t1 = Inr tt'"
    by (auto split: sum.splits)
  from Cons.prems(3) have j: "j < length (batches tt)"
    by simp
  from fillBatch_count [OF t1 j assms(4)]
  have len: "length (batches t1) = length (batches tt)"
    and others: "\<And>i. i \<noteq> j \<Longrightarrow> batches t1 ! i = batches tt ! i"
    and this_one: "int (filledCount g (batches t1 ! j)) \<le> fillBound g (batches tt ! j)"
    by (simp_all add: fillBound_def)
  from Cons.prems(2,3) len have "distinct js" and "\<forall>j \<in> set js. j < length (batches t1)"
    by simp_all
  from Cons.IH [OF rest this]
  have len': "length (batches tt') = length (batches t1)"
    and out: "\<And>i. i \<notin> set js \<Longrightarrow> batches tt' ! i = batches t1 ! i"
    and inside: "\<And>i. i \<in> set js \<Longrightarrow>
                   int (filledCount g (batches tt' ! i)) \<le> fillBound g (batches t1 ! i)"
    by simp_all
  from Cons.prems(2) have notin: "j \<notin> set js"
    by simp
  show ?case
  proof (intro conjI allI ballI impI)
    show "length (batches tt') = length (batches tt)"
      using len len' by simp
  next
    fix i assume "i \<notin> set (j # js)"
    then show "batches tt' ! i = batches tt ! i"
      using out [of i] others [of i] by simp
  next
    fix i assume i: "i \<in> set (j # js)"
    show "int (filledCount g (batches tt' ! i)) \<le> fillBound g (batches tt ! i)"
    proof (cases "i = j")
      case True
      with out [OF notin] this_one show ?thesis
        by simp
    next
      case False
      with i inside [of i] others [of i] show ?thesis
        by simp
    qed
  qed
qed

lemma getProp_filter_distinct:
  "distinct (keys obj) \<Longrightarrow> getProp (filter (\<lambda>(s, c). c \<noteq> Undefined) obj) s = getProp obj s"
proof (induction obj)
  case Nil
  then show ?case by simp
next
  case (Cons kv obj)
  obtain k v where [simp]: "kv = (k, v)"
    by (cases kv)
  from Cons.prems have "k \<notin> set (keys obj)" and "distinct (keys obj)"
    by (simp_all add: keys_def)
  then have "map_of (filter (\<lambda>(s, c). c \<noteq> Undefined) obj) k = None"
    by (auto simp: keys_def map_of_eq_None_iff)
  with Cons.IH [OF \<open>distinct (keys obj)\<close>] show ?case
    by (auto simp: getProp_def)
qed

lemma getCell_deepCopy:
  assumes "distinctKeys t" and "i < length (batches t)"
  shows "getCell (batches (deepCopy t) ! i) d s = getCell (batches t ! i) d s"
proof -
  from assms(2) have sched: "schedule (batches (deepCopy t) ! i) =
      map (\<lambda>(d, obj). (d, filter (\<lambda>(s, c). c \<noteq> Undefined) obj)) (schedule (batches t ! i))"
    by (simp add: deepCopy_def)
  show ?thesis
  proof (cases "map_of (schedule (batches t ! i)) d")
    case None
    with sched show ?thesis
      by (simp add: getCell_def map_of_map)
  next
    case (Some obj)
    then have "(d, obj) \<in> set (schedule (batches t ! i))"
      by (rule map_of_SomeD)
    with assms have "distinct (keys obj)"
      by (fastforce simp: distinctKeys_def)
    with Some sched show ?thesis
      by (simp add: getCell_def map_of_map getProp_filter_distinct)
  qed
qed

text \<open>
  With no subject to choose from and one faculty name, the candidate has no subject and
  the faculty \<open>faculty[-1 % 1]\<close>, the first one.
\<close>

lemma gapAssignment_no_subject:
  "gapAssignment (oneSlot\<lparr>parameters := (parameters oneSlot)\<lparr>subjects_param := 0\<rparr>\<rparr>) 0
     (batches (createEmptyTimetable oneSlot) ! 0) (''Monday'', ''09:00-10:00'')
     [((''Monday'', ''09:00-10:00''), Null)] =
   Inr \<lparr>subject = None, faculty = Some ''X'', room = Some ''Room-101'', color = None,
        batch = 0, day = ''Monday'', slot = ''09:00-10:00''\<rparr>"
  by code_simp

text \<open>
  What \<open>fillGaps\<close> does enforce, with \<open>totalSlots = days.length * maxClasses\<close> and the filled
  slots of a batch counted as it counts them: whenever it returns, a batch has at most
  \<open>max(0, min(emptyCount, (totalSlots - 1) - filledCount))\<close> more classes than before. The
  bound reserves a free slot only where the week of a batch does have \<open>totalSlots\<close> slots.
\<close>

lemma fillGaps_cap:
  assumes "fillGaps g rnd t = Inr t'" and "distinctKeys t"
    and "distinct (days g)" and "distinct (slice0 (maxClasses (parameters g)) (timeSlots g))"
    and "i < length (batches t)"
  shows "length (batches t') = length (batches t) \<and>
         int (filledCount g (batches t' ! i)) - int (filledCount g (batches t ! i)) \<le>
           max 0 (min (int (length (gridCoordinates g) - filledCount g (batches t ! i)))
                      (int (length (days g)) * maxClasses (parameters g) - 1 -
                       int (filledCount g (batches t ! i)))) \<and>
         int (filledCount g (batches t' ! i)) \<le>
           max (int (filledCount g (batches t ! i)))
               (int (length (days g)) * maxClasses (parameters g) - 1) \<and>
         (1 \<le> int (length (days g)) * maxClasses (parameters g) - int (filledCount g (batches t ! i)) \<longrightarrow>
          1 \<le> int (length (days g)) * maxClasses (parameters g) - int (filledCount g (batches t' ! i)))"
proof -
  from assms(1) have run:
    "foldE (fillBatch g rnd) [0..<length (batches (deepCopy t))] (deepCopy t) = Inr t'"
    by (simp add: fillGaps_def Let_def)
  have coords: "distinct (gridCoordinates g)"
    using assms(3,4) by (rule distinct_gridCoordinates)
  from fillBatches_count [OF run _ _ coords] assms(5)
  have len: "length (batches t') = length (batches t)"
    and le: "int (filledCount g (batches t' ! i)) \<le> fillBound g (batches (deepCopy t) ! i)"
    by simp_all
  have "filledCount g (batches (deepCopy t) ! i) = filledCount g (batches t ! i)"
    by (simp add: filledCount_def getCell_deepCopy [OF assms(2,5)])
  with le have "int (filledCount g (batches t' ! i)) \<le> fillBound g (batches t ! i)"
    by (simp add: fillBound_def)
  with len show ?thesis
    unfolding fillBound_def by auto
qed

text \<open>
  C4 fails on the code. From 09:00 to 12:00 there are three slots a day and fifteen in the
  week of a batch, while \<open>fillGaps\<close> takes \<open>totalSlots = days.length * maxClasses = 30\<close>. On
  the empty timetable \<open>slotsToFill\<close> is \<open>min(15, 29 - 0) = 15\<close>: every slot of the batch is
  filled and no free slot is left, against the comments of the code (\<open>Fill gaps while
  preserving at least one free period per week\<close>, \<open>Reserve at least 1 free period per
  week\<close>). Here all random draws are \<open>0\<close>.
\<close>

theorem fillGaps_fills_every_slot:
  "map freeSlots (batches (createEmptyTimetable shortDays)) = [15] \<and>
   (case fillGaps shortDays (\<lambda>i k. 0) (createEmptyTimetable shortDays) of
      Inr t \<Rightarrow> map freeSlots (batches t) = [0] \<and> map (filledCount shortDays) (batches t) = [15]
    | Inl e \<Rightarrow> False)"
  by code_simp

text \<open>The same with other draws: the \<open>k\<close>-th choice of a subject takes candidate \<open>k + 1\<close>.\<close>

lemma fillGaps_fills_every_slot_other_draws:
  "(case fillGaps shortDays (\<lambda>i k. k + 1) (createEmptyTimetable shortDays) of
      Inr t \<Rightarrow> map freeSlots (batches t) = [0]
    | Inl e \<Rightarrow> False)"
  by code_simp

section \<open>Fitness Evaluator: the formula and its constants\<close>

lemma map_of_tabulate:
  "map_of (map (\<lambda>s. (s, f s)) ys) x = (if x \<in> set ys then Some (f x) else None)"
  by (induction ys) auto

lemma setProp_new:
  "x \<notin> set ys \<Longrightarrow> setProp (map (\<lambda>s. (s, f s)) ys) x v = map (\<lambda>s. (s, f s)) ys @ [(x, v)]"
  by (induction ys) auto

lemma setProp_old:
  "x \<in> set ys \<Longrightarrow> distinct ys \<Longrightarrow>
     setProp (map (\<lambda>s. (s, f s)) ys) x v = map (\<lambda>s. (s, if s = x then v else f s)) ys"
  by (induction ys) auto

lemma countSubject_plain:
  assumes "spec_subjectOf c = [x]" and "x \<notin> set (''__proto__'' # inheritedFunctions)"
  shows "countSubject acc c =
           setProp acc x (case map_of acc x of
                            None \<Rightarrow> Counter 1
                          | Some (Counter n) \<Rightarrow> Counter (n + 1)
                          | Some FunctionText \<Rightarrow> FunctionText)"
  using assms
  by (auto simp: countSubject_def spec_subjectOf_def split: cell.splits option.splits if_splits)

lemma countSubject_none: "spec_subjectOf c = [] \<Longrightarrow> countSubject acc c = acc"
  by (auto simp: countSubject_def spec_subjectOf_def split: cell.splits option.splits if_splits)

lemma spec_subjectOf_cases: "spec_subjectOf c = [] \<or> (\<exists>x. spec_subjectOf c = [x])"
  by (auto simp: spec_subjectOf_def split: cell.splits option.splits)

lemma subjectCounts_fold:
  assumes "list_all (\<lambda>subj. subj \<notin> set (''__proto__'' # inheritedFunctions))
             (concat (map spec_subjectOf cells))"
  shows "fold (\<lambda>c subjectCounts. countSubject subjectCounts c) cells [] =
           map (\<lambda>subj. (subj, Counter (count_list (concat (map spec_subjectOf cells)) subj)))
               (rev (remdups (rev (concat (map spec_subjectOf cells)))))"
  using assms
proof (induction cells rule: rev_induct)
  case Nil
  then show ?case by simp
next
  case (snoc c cells)
  let ?xs = "concat (map spec_subjectOf cells)"
  let ?ys = "rev (remdups (rev ?xs))"
  from snoc have IH: "fold (\<lambda>c subjectCounts. countSubject subjectCounts c) cells [] =
      map (\<lambda>subj. (subj, Counter (count_list ?xs subj))) ?ys"
    by simp
  have d: "distinct ?ys" and st: "set ?ys = set ?xs"
    by simp_all
  from spec_subjectOf_cases [of c] show ?case
  proof
    assume "spec_subjectOf c = []"
    with IH show ?thesis
      by (simp add: countSubject_none)
  next
    assume "\<exists>x. spec_subjectOf c = [x]"
    then obtain x where x: "spec_subjectOf c = [x]"
      by blast
    with snoc.prems have plain: "x \<notin> set (''__proto__'' # inheritedFunctions)"
      by simp
    show ?thesis
    proof (cases "x \<in> set ?xs")
      case True
      with IH d st x show ?thesis
        by (simp add: countSubject_plain [OF x plain] map_of_tabulate setProp_old)
    next
      case False
      with IH d st x show ?thesis
        by (auto simp add: countSubject_plain [OF x plain] map_of_tabulate setProp_new
              count_list_0_iff)
    qed
  qed
qed

lemma subjectCountsOf_plain:
  "plainSubjects t \<Longrightarrow>
     subjectCountsOf t =
       map (\<lambda>subj. (subj, Counter (count_list (spec_subjects t) subj)))
           (rev (remdups (rev (spec_subjects t))))"
  unfolding subjectCountsOf_def plainSubjects_def spec_subjects_def
  by (rule subjectCounts_fold)

lemma numbersOf_Counter: "numbersOf (map (\<lambda>x. Counter (f x)) xs) = Some (map (\<lambda>x. real (f x)) xs)"
  by (induction xs) simp_all

lemma calculateSubjectDistribution_spec:
  assumes "plainSubjects t"
  shows "calculateSubjectDistribution t =
     (if spec_subjects t = [] then Number 0
      else Number (spec_distributionScore (spec_occurrenceCounts t)))"
proof -
  have "map snd (subjectCountsOf t) =
      map (\<lambda>subj. Counter (count_list (spec_subjects t) subj)) (rev (remdups (rev (spec_subjects t))))"
    by (simp add: subjectCountsOf_plain [OF assms] comp_def)
  moreover have "(rev (remdups (rev (spec_subjects t))) = []) = (spec_subjects t = [])"
    by (metis remdups_eq_nil_iff rev_is_Nil_conv)
  ultimately show ?thesis
    by (simp add: calculateSubjectDistribution_def Let_def numbersOf_Counter
          spec_distributionScore_def spec_variance_def spec_occurrenceCounts_def)
qed


lemma fitness_value:
  fixes r c gp sd :: real
  shows "max 0 (if r > 8 / 10
                then 100 - c * 25 +
                     (if r \<le> 85 / 100 then r * 50 else 85 / 100 * 50 - (r - 85 / 100) * 20) -
                     gp * 5 + sd * 8 + (r - 8 / 10) * 100
                else 100 - c * 25 +
                     (if r \<le> 85 / 100 then r * 50 else 85 / 100 * 50 - (r - 85 / 100) * 20) -
                     gp * 5 + sd * 8) =
         max 0 (100 - 25 * c + spec_utilizationScore r - 5 * gp + 8 * sd + spec_bonus r)"
  by (simp add: spec_utilizationScore_def spec_bonus_def max_def)

lemma calculateFitness_value:
  "calculateFitness g t =
     thenE (detectConflicts t)
       (\<lambda>conflicts.
          case calculateSubjectDistribution t of
            NaN \<Rightarrow> Inr NaN
          | Number sd \<Rightarrow>
              Inr (Number (max 0 (100 - 25 * real (length conflicts) +
                                  spec_utilizationScore (fillRatioOf t) -
                                  5 * real (gapPenaltyOf g t) + 8 * sd +
                                  spec_bonus (fillRatioOf t)))))"
  unfolding calculateFitness_def Let_def fillRatioOf_def [symmetric]
  by (simp only: fitness_value)

text \<open>
  C5 (as amended). Take a timetable on which the Conflict Detector returns and in which
  no class has a subject named like a property that every object inherits. Then
  \<open>calculateFitness\<close> returns
  \<open>max(0, 100 - 25 conflictCount + utilizationScore - 5 gapPenalty + 8 distributionScore + bonus)\<close>
  with \<open>utilizationScore\<close> and \<open>bonus\<close> as stated, and with
  \<open>distributionScore = max(0, 15 - variance)\<close> of the per-subject occurrence counts when at
  least one class with a subject is scheduled, and \<open>distributionScore = 0\<close> when none is.
  Such a timetable with no conflict, fill ratio exactly 85%, no interior gap and at least
  one subject with zero variance of the counts has fitness \<open>267.5\<close>.
\<close>

theorem calculateFitness_formula:
  "(plainSubjects t \<longrightarrow>
      (\<forall>conflicts. detectConflicts t = Inr conflicts \<longrightarrow>
         (spec_subjects t \<noteq> [] \<longrightarrow>
            calculateFitness g t =
              Inr (Number (spec_fitness (length conflicts) (fillRatioOf t) (gapPenaltyOf g t)
                             (spec_occurrenceCounts t)))) \<and>
         (spec_subjects t = [] \<longrightarrow>
            calculateFitness g t =
              Inr (Number (max 0 (100 - 25 * real (length conflicts) +
                                  spec_utilizationScore (fillRatioOf t) -
                                  5 * real (gapPenaltyOf g t) + 8 * 0 +
                                  spec_bonus (fillRatioOf t))))))) \<and>
   (plainSubjects t \<and> detectConflicts t = Inr [] \<and> fillRatioOf t = 85 / 100 \<and>
    gapPenaltyOf g t = 0 \<and> spec_subjects t \<noteq> [] \<and>
    spec_variance (spec_occurrenceCounts t) = 0 \<longrightarrow>
      calculateFitness g t = Inr (Number (2675 / 10)))"
proof (rule conjI; intro allI impI)
  fix conflicts
  assume plain: "plainSubjects t" and c: "detectConflicts t = Inr conflicts"
  show "(spec_subjects t \<noteq> [] \<longrightarrow>
            calculateFitness g t =
              Inr (Number (spec_fitness (length conflicts) (fillRatioOf t) (gapPenaltyOf g t)
                             (spec_occurrenceCounts t)))) \<and>
         (spec_subjects t = [] \<longrightarrow>
            calculateFitness g t =
              Inr (Number (max 0 (100 - 25 * real (length conflicts) +
                                  spec_utilizationScore (fillRatioOf t) -
                                  5 * real (gapPenaltyOf g t) + 8 * 0 +
                                  spec_bonus (fillRatioOf t)))))"
    using c
    by (simp add: calculateFitness_value thenE_def calculateSubjectDistribution_spec [OF plain]
          spec_fitness_def)
next
  assume a: "plainSubjects t \<and> detectConflicts t = Inr [] \<and> fillRatioOf t = 85 / 100 \<and>
    gapPenaltyOf g t = 0 \<and> spec_subjects t \<noteq> [] \<and>
    spec_variance (spec_occurrenceCounts t) = 0"
  then have "calculateSubjectDistribution t = Number 15"
    by (simp add: calculateSubjectDistribution_spec spec_distributionScore_def)
  with a show "calculateFitness g t = Inr (Number (2675 / 10))"
    by (simp add: calculateFitness_value thenE_def spec_utilizationScore_def spec_bonus_def)
qed

text \<open>
  The timetable with 17 of 20 slots filled by one subject has fitness
  \<open>100 + 42.5 + 0 + 120 + 5 = 267.5\<close>.
\<close>

theorem calculateFitness_formula_witness:
  "plainSubjects seventeenOfTwenty \<and>
   detectConflicts seventeenOfTwenty = Inr [] \<and>
   fillRatioOf seventeenOfTwenty = 85 / 100 \<and>
   gapPenaltyOf fourDays seventeenOfTwenty = 0 \<and>
   spec_occurrenceCounts seventeenOfTwenty = [17] \<and>
   spec_variance (spec_occurrenceCounts seventeenOfTwenty) = 0 \<and>
   calculateFitness fourDays seventeenOfTwenty = Inr (Number (2675 / 10)) \<and>
   spec_fitness 0 (85 / 100) 0 [17] = 2675 / 10 \<and>
   (2675 / 10 :: real) = 100 + 425 / 10 + 0 + 120 + 5"
proof -
  have c: "detectConflicts seventeenOfTwenty = Inr []"
    by code_simp
  have "filledSlotsOf seventeenOfTwenty = 17" and "totalSlotsOf seventeenOfTwenty = 20"
    by code_simp+
  then have r: "fillRatioOf seventeenOfTwenty = 85 / 100"
    by (simp add: fillRatioOf_def)
  have gp: "gapPenaltyOf fourDays seventeenOfTwenty = 0"
    by code_simp
  have subjects: "spec_subjects seventeenOfTwenty = replicate 17 ''A''"
    by code_simp
  then have plain: "plainSubjects seventeenOfTwenty"
    by (simp add: plainSubjects_def inheritedFunctions_def list_all_iff)
  have "rev (remdups (rev (replicate 17 ''A''))) = [''A'']"
    by code_simp
  moreover have "count_list (replicate 17 ''A'') ''A'' = 17"
    by code_simp
  ultimately have counts: "spec_occurrenceCounts seventeenOfTwenty = [17]"
    by (simp add: spec_occurrenceCounts_def subjects)
  then have v: "spec_variance (spec_occurrenceCounts seventeenOfTwenty) = 0"
    by (simp add: spec_variance_def)
  from subjects have ne: "spec_subjects seventeenOfTwenty \<noteq> []"
    by simp
  from calculateFitness_formula [of seventeenOfTwenty fourDays] plain c r gp ne v
  have result: "calculateFitness fourDays seventeenOfTwenty = Inr (Number (2675 / 10))"
    by blast
  from calculateFitness_formula [of seventeenOfTwenty fourDays] plain c ne
  have "calculateFitness fourDays seventeenOfTwenty =
          Inr (Number (spec_fitness (length ([] :: Conflict list)) (fillRatioOf seventeenOfTwenty)
                         (gapPenaltyOf fourDays seventeenOfTwenty)
                         (spec_occurrenceCounts seventeenOfTwenty)))"
    by blast
  then have "calculateFitness fourDays seventeenOfTwenty =
          Inr (Number (spec_fitness 0 (85 / 100) 0 [17]))"
    unfolding r gp counts by simp
  with result have formula: "spec_fitness 0 (85 / 100) 0 [17] = 2675 / 10"
    by simp
  have "(2675 / 10 :: real) = 100 + 425 / 10 + 0 + 120 + 5"
    by simp
  with plain c r gp counts v result formula show ?thesis
    by blast
qed

text \<open>
  C5 as stated fails on a timetable without any class: the code returns \<open>0\<close> for the
  distribution score by its guard \<open>counts.length === 0\<close> and the fitness is \<open>100\<close>, while
  the stated formula, with the variance of no counts taken as \<open>0\<close>, gives
  \<open>100 + 8 * 15 = 220\<close> (and no variance below 15 gives \<open>100\<close>).
\<close>

theorem calculateFitness_empty_counterexample:
  "calculateFitness twoDays (createEmptyTimetable twoDays) = Inr (Number 100) \<and>
   detectConflicts (createEmptyTimetable twoDays) = Inr [] \<and>
   spec_subjects (createEmptyTimetable twoDays) = [] \<and>
   spec_fitness 0 (fillRatioOf (createEmptyTimetable twoDays))
     (gapPenaltyOf twoDays (createEmptyTimetable twoDays))
     (spec_occurrenceCounts (createEmptyTimetable twoDays)) = 220"
proof -
  let ?t = "createEmptyTimetable twoDays"
  have c: "detectConflicts ?t = Inr []"
    by code_simp
  have "filledSlotsOf ?t = 0" and "totalSlotsOf ?t = 4"
    by code_simp+
  then have r: "fillRatioOf ?t = 0"
    by (simp add: fillRatioOf_def)
  have gp: "gapPenaltyOf twoDays ?t = 0"
    by code_simp
  have subjects: "spec_subjects ?t = []"
    by code_simp
  then have plain: "plainSubjects ?t"
    by (simp add: plainSubjects_def)
  from c r gp subjects have "calculateFitness twoDays ?t = Inr (Number 100)"
    by (simp add: calculateFitness_value thenE_def calculateSubjectDistribution_spec [OF plain]
          spec_utilizationScore_def spec_bonus_def)
  moreover from r gp subjects
  have "spec_fitness 0 (fillRatioOf ?t) (gapPenaltyOf twoDays ?t) (spec_occurrenceCounts ?t) = 220"
    by (simp add: spec_fitness_def spec_utilizationScore_def spec_bonus_def
          spec_distributionScore_def spec_variance_def spec_occurrenceCounts_def)
  ultimately show ?thesis
    using c subjects by simp
qed

text \<open>
  Outside the amended claim: a class whose subject is \<open>constructor\<close> makes the count a
  string and the fitness \<open>NaN\<close>, and a class whose subject is \<open>__proto__\<close> is not counted.
\<close>

lemma calculateFitness_inherited_names:
  "calculateFitness oneSlot
     (oneSlotFull\<lparr>batches :=
        [\<lparr>batch_id = 0, name = ''Batch 1'',
          schedule = [(''Monday'', [(''09:00-10:00'', Class (classA\<lparr>subject := Some ''constructor''\<rparr>))])]\<rparr>]\<rparr>)
     = Inr NaN"
  "subjectCountsOf
     (oneSlotFull\<lparr>batches :=
        [\<lparr>batch_id = 0, name = ''Batch 1'',
          schedule = [(''Monday'', [(''09:00-10:00'', Class (classA\<lparr>subject := Some ''__proto__''\<rparr>))])]\<rparr>]\<rparr>)
     = []"
  by code_simp+

section \<open>Constraint-first strategy: the free period\<close>

text \<open>
  C3 fails on the code. From 09:00 to 12:00 there are three slots a day, fifteen a week,
  while \<open>calculateOptimalClassCount\<close> and \<open>fillGaps\<close> count \<open>days.length * maxClasses = 30\<close>
  slots: 24 assignments are requested for the only batch, the first fifteen fill every
  slot of its week, and \<open>fillGaps\<close> finds nothing to reserve. Here all random draws are
  \<open>0\<close>; the batch has no free slot in the returned timetable.
\<close>

theorem constraintProgramming_fills_every_slot:
  "(case constraintProgramming shortDays (\<lambda>k. 0) (\<lambda>i k. 0) of
      Inr t \<Rightarrow> map freeSlots (batches t) = [0] \<and> map (filledCount shortDays) (batches t) = [15] \<and>
               algorithm t = Some ''constraint''
    | Inl e \<Rightarrow> False)"
  by code_simp

text \<open>
  In the scenario of the specification (five slots a day, so that the slots of the grid
  are the \<open>days.length * maxClasses\<close> the code counts) one slot stays free.
\<close>

lemma constraintProgramming_scenario:
  "(case constraintProgramming fiveByFive (\<lambda>k. 0) (\<lambda>i k. 0) of
      Inr t \<Rightarrow> map freeSlots (batches t) = [1]
    | Inl e \<Rightarrow> False)"
  by code_simp

section \<open>The store: every function writes to its own copy only\<close>

lemma keeps_refl [simp]: "keeps n h h"
  by (simp add: keeps_def)

lemma keeps_trans: "keeps n h h1 \<Longrightarrow> keeps n h1 h2 \<Longrightarrow> keeps n h h2"
  by (simp add: keeps_def)

lemma setCellH_keeps:
  assumes "setCellH h b d s v = Inr h'" and "above n b"
  shows "keeps n h h'"
proof -
  from assms(1) obtain a where a: "map_of (ref_schedule b) d = Some a"
    and h': "h' = h[a := setProp (deref h a) s v]"
    by (auto simp: setCellH_def split: option.splits)
  from a have "(d, a) \<in> set (ref_schedule b)"
    by (rule map_of_SomeD)
  with assms(2) have "n \<le> a"
    by (auto simp: above_def)
  with h' show ?thesis
    by (simp add: keeps_def)
qed

lemma foldE_keeps:
  assumes "foldE f xs h = Inr h'"
    and "\<And>x h1 h2. x \<in> set xs \<Longrightarrow> f x h1 = Inr h2 \<Longrightarrow> keeps n h1 h2"
  shows "keeps n h h'"
  using assms(1)
proof (rule foldE_invariant [where P = "keeps n h"])
  show "keeps n h h" by simp
next
  fix x h1 h2
  assume "x \<in> set xs" and "keeps n h h1" and "f x h1 = Inr h2"
  then show "keeps n h h2"
    using assms(2) keeps_trans by blast
qed

lemma copyDaysH_spec:
  "copyDaysH h sched = (h', sched') \<Longrightarrow>
     length h \<le> length h' \<and> take (length h) h' = h \<and>
     map fst sched' = map fst sched \<and>
     (\<forall>(d, a) \<in> set sched'. length h \<le> a \<and> a < length h')"
proof (induction h sched arbitrary: h' sched' rule: copyDaysH.induct)
  case (1 h)
  then show ?case by simp
next
  case (2 h d a rest)
  let ?h1 = "h @ [filter (\<lambda>(s, c). c \<noteq> Undefined) (deref h a)]"
  from "2.prems" obtain rest' where r: "copyDaysH ?h1 rest = (h', rest')"
    and s: "sched' = (d, length h) # rest'"
    by (auto split: prod.splits)
  from "2.IH" [OF r] have len: "length ?h1 \<le> length h'"
    and tk: "take (length ?h1) h' = ?h1"
    and ks: "map fst rest' = map fst rest"
    and as: "\<forall>(d, a) \<in> set rest'. length ?h1 \<le> a \<and> a < length h'"
    by simp_all
  from tk have "take (length h) (take (length ?h1) h') = take (length h) ?h1"
    by simp
  then have "take (length h) h' = h"
    by (simp add: min_def)
  with len ks as s show ?case
    by auto
qed

lemma copyBatchesH_spec:
  "copyBatchesH h bs = (h', bs') \<Longrightarrow>
     length h \<le> length h' \<and> take (length h) h' = h \<and> length bs' = length bs \<and>
     (\<forall>b \<in> set bs'. \<forall>(d, a) \<in> set (ref_schedule b). length h \<le> a \<and> a < length h')"
proof (induction h bs arbitrary: h' bs' rule: copyBatchesH.induct)
  case (1 h)
  then show ?case by simp
next
  case (2 h b bs)
  from "2.prems" obtain h1 sched bs1 where d: "copyDaysH h (ref_schedule b) = (h1, sched)"
    and r: "copyBatchesH h1 bs = (h', bs1)" and bs': "bs' = b\<lparr>ref_schedule := sched\<rparr> # bs1"
    by (auto split: prod.splits)
  from copyDaysH_spec [OF d] have len1: "length h \<le> length h1"
    and tk1: "take (length h) h1 = h"
    and as: "\<forall>(d, a) \<in> set sched. length h \<le> a \<and> a < length h1"
    by simp_all
  from "2.IH" [OF d [symmetric] r] have len: "length h1 \<le> length h'"
    and tk: "take (length h1) h' = h1" and n: "length bs1 = length bs"
    and fresh: "\<forall>b \<in> set bs1. \<forall>(d, a) \<in> set (ref_schedule b). length h1 \<le> a \<and> a < length h'"
    by simp_all
  from tk have "take (length h) (take (length h1) h') = take (length h) h1"
    by simp
  with len1 tk1 have tk': "take (length h) h' = h"
    by (simp add: min_def)
  from as len have "\<forall>(d, a) \<in> set sched. length h \<le> a \<and> a < length h'"
    by auto
  moreover from fresh len1 have
    "\<forall>b \<in> set bs1. \<forall>(d, a) \<in> set (ref_schedule b). length h \<le> a \<and> a < length h'"
    by fastforce
  ultimately show ?case
    using len1 len tk' n bs' by simp
qed

lemma deepCopyH_spec:
  assumes "deepCopyH h t = (h0, t')"
  shows "extends h h0 \<and> freshIn h h0 t' \<and> length (ref_batches t') = length (ref_batches t)"
proof -
  from assms obtain bs where "copyBatchesH h (ref_batches t) = (h0, bs)" and "ref_batches t' = bs"
    by (auto simp: deepCopyH_def split: prod.splits)
  with copyBatchesH_spec [of h "ref_batches t" h0 bs] show ?thesis
    by (simp add: extends_def freshIn_def)
qed


lemma freshIn_above: "freshIn h h0 t \<Longrightarrow> b \<in> set (ref_batches t) \<Longrightarrow> above (length h) b"
  by (fastforce simp: freshIn_def above_def)

lemma keeps_extends:
  assumes "extends h h0" and "freshIn h h0 t" and "keeps (length h) h0 h'"
  shows "extends h h' \<and> freshIn h h' t"
  using assms by (auto simp: extends_def keeps_def freshIn_def)

lemma extends_trans: "extends h h1 \<Longrightarrow> extends h1 h2 \<Longrightarrow> extends h h2"
proof -
  assume a: "extends h h1" and b: "extends h1 h2"
  from a b have le: "length h \<le> length h1" "length h1 \<le> length h2"
    and t1: "take (length h) h1 = h" and t2: "take (length h1) h2 = h1"
    by (simp_all add: extends_def)
  from le have "take (length h) h2 = take (length h) (take (length h1) h2)"
    by (simp add: min_def)
  also have "\<dots> = h"
    by (simp only: t2 t1)
  finally show ?thesis
    using le by (simp add: extends_def)
qed

lemma freshIn_mono: "extends h h1 \<Longrightarrow> freshIn h1 h2 t \<Longrightarrow> freshIn h h2 t"
  by (fastforce simp: extends_def freshIn_def)

lemma load_extends:
  assumes "extends h h'" and "allocated h t"
  shows "load h' t = load h t"
proof -
  have d: "deref h' a = deref h a" if "a < length h" for a
  proof -
    from assms(1) have le: "length h \<le> length h'" and t: "take (length h) h' = h"
      by (simp_all add: extends_def)
    from that have "take (length h) h' ! a = h' ! a"
      by simp
    with t have "h' ! a = h ! a"
      by simp
    with le that show ?thesis
      by (simp add: deref_def)
  qed
  have "loadBatch h' b = loadBatch h b" if "b \<in> set (ref_batches t)" for b
  proof -
    from assms(2) that have "\<forall>(d, a) \<in> set (ref_schedule b). a < length h"
      by (auto simp: allocated_def)
    then have "map (\<lambda>(d, a). (d, deref h' a)) (ref_schedule b) =
               map (\<lambda>(d, a). (d, deref h a)) (ref_schedule b)"
      by (intro map_cong) (auto simp: d)
    then show ?thesis
      by (simp add: loadBatch_def)
  qed
  then show ?thesis
    by (simp add: load_def)
qed

lemma fillSlotH_keeps:
  assumes "fillSlotH g r t i ds h = Inr h'" and "above n (ref_batches t ! i)"
  shows "keeps n h h'"
proof -
  from assms(1) consider "h' = h"
    | v where "setCellH h (ref_batches t ! i) (fst ds) (snd ds) v = Inr h'"
    unfolding fillSlotH_def Let_def
    by (auto simp: thenE_Inr_iff split: if_splits)
  then show ?thesis
    using setCellH_keeps [OF _ assms(2)] by cases auto
qed

lemma fillBatchH_keeps:
  assumes "fillBatchH g rnd t i h = Inr h'" and "above n (ref_batches t ! i)"
  shows "keeps n h h'"
proof -
  from assms(1) obtain targets where
    "foldE (\<lambda>(k, emptySlot). fillSlotH g (rnd i k) t i emptySlot) targets h = Inr h'"
    unfolding fillBatchH_def Let_def by (auto simp: thenE_Inr_iff)
  then show ?thesis
    by (rule foldE_keeps) (auto intro: fillSlotH_keeps [OF _ assms(2)])
qed

lemma fillGapsH_frame:
  assumes "fillGapsH g rnd h t = Inr (h', t')"
  shows "extends h h' \<and> freshIn h h' t'"
proof -
  from assms obtain h0 where c: "deepCopyH h t = (h0, t')"
    and run: "foldE (fillBatchH g rnd t') [0..<length (ref_batches t')] h0 = Inr h'"
    by (auto simp: fillGapsH_def thenE_Inr_iff split: prod.splits)
  from deepCopyH_spec [OF c] have e: "extends h h0" and f: "freshIn h h0 t'"
    by simp_all
  from run have "keeps (length h) h0 h'"
  proof (rule foldE_keeps)
    fix i h1 h2
    assume "i \<in> set [0..<length (ref_batches t')]" and "fillBatchH g rnd t' i h1 = Inr h2"
    with f show "keeps (length h) h1 h2"
      by (auto intro!: fillBatchH_keeps freshIn_above)
  qed
  with e f show ?thesis
    by (rule keeps_extends)
qed

lemma moveClassH_keeps:
  assumes "moveClassH h b e f = Inr h'" and "above n b"
  shows "keeps n h h'"
  using assms(1) unfolding moveClassH_def
  by (auto simp: thenE_Inr_iff intro: keeps_trans setCellH_keeps [OF _ assms(2)])

lemma swapSlotsH_keeps:
  assumes "swapSlotsH r h b = Inr h'" and "above n b"
  shows "keeps n h h'"
  using assms(1) unfolding swapSlotsH_def Let_def
  by (auto simp: thenE_Inr_iff split: option.splits
           intro: keeps_trans setCellH_keeps [OF _ assms(2)])

lemma mutateH_frame:
  assumes "mutateH r h t = Inr (h', t')"
  shows "extends h h' \<and> freshIn h h' t'"
proof -
  from assms obtain h0 where c: "deepCopyH h t = (h0, t')" and ne: "ref_batches t' \<noteq> []"
    by (auto simp: mutateH_def Let_def thenE_Inr_iff split: prod.splits if_splits)
  define b where "b = ref_batches t' ! (batchDraw r mod length (ref_batches t'))"
  from deepCopyH_spec [OF c] have e: "extends h h0" and f: "freshIn h h0 t'"
    by simp_all
  from ne have "b \<in> set (ref_batches t')"
    by (simp add: b_def)
  with f have ab: "above (length h) b"
    by (rule freshIn_above)
  from assms c ne obtain cs where
    step0: "(if map fst (filter (\<lambda>c. \<not> snd c) cs) \<noteq> [] \<and> map fst (filter snd cs) \<noteq> []
            then moveClassH h0 b
                   (map fst (filter (\<lambda>c. \<not> snd c) cs) !
                      (emptyDraw r mod length (map fst (filter (\<lambda>c. \<not> snd c) cs))))
                   (map fst (filter snd cs) !
                      (filledDraw r mod length (map fst (filter snd cs))))
            else swapSlotsH r h0 b) = Inr h'"
    unfolding mutateH_def Let_def b_def
    by (simp add: thenE_Inr_iff del: map_is_Nil_conv length_map) blast
  define emptySlots where "emptySlots = map fst (filter (\<lambda>c. \<not> snd c) cs)"
  define filledSlots where "filledSlots = map fst (filter snd cs)"
  from step0 have step: "(if emptySlots \<noteq> [] \<and> filledSlots \<noteq> []
            then moveClassH h0 b (emptySlots ! (emptyDraw r mod length emptySlots))
                   (filledSlots ! (filledDraw r mod length filledSlots))
            else swapSlotsH r h0 b) = Inr h'"
    unfolding emptySlots_def filledSlots_def .
  have "(\<exists>e f. moveClassH h0 b e f = Inr h') \<or> swapSlotsH r h0 b = Inr h'"
  proof (cases "emptySlots \<noteq> [] \<and> filledSlots \<noteq> []")
    case True
    with step have "moveClassH h0 b (emptySlots ! (emptyDraw r mod length emptySlots))
                   (filledSlots ! (filledDraw r mod length filledSlots)) = Inr h'"
      by simp
    then show ?thesis
      by blast
  next
    case False
    with step show ?thesis
      by auto
  qed
  then have "keeps (length h) h0 h'"
    using moveClassH_keeps [OF _ ab] swapSlotsH_keeps [OF _ ab] by blast
  with e f show ?thesis
    by (rule keeps_extends)
qed

lemma crossoverSlotH_keeps:
  assumes "crossoverSlotH p2 b d s h = Inr h'" and "above n b"
  shows "keeps n h h'"
  using assms(1) unfolding crossoverSlotH_def
  by (auto simp: thenE_Inr_iff split: option.splits if_splits
           intro: setCellH_keeps [OF _ assms(2)])

lemma crossoverBatchH_keeps:
  assumes "crossoverBatchH g parent2 (i, b) h = Inr h'" and "above n b"
  shows "keeps n h h'"
  using assms(1) unfolding crossoverBatchH_def prod.case
proof (rule foldE_keeps)
  fix x :: "nat \<times> string" and h1 h2
  obtain dayIndex d where x: "x = (dayIndex, d)"
    by (cases x)
  assume "(case x of (dayIndex, d) \<Rightarrow> \<lambda>h.
             if int (length (days g)) \<le> 2 * int dayIndex
             then thenE (dayKeys (loadBatch h b) d)
                    (\<lambda>slots. foldE (crossoverSlotH (nthOpt (ref_batches parent2) i) b d) slots h)
             else Inr h) h1 = Inr h2"
  with x have step: "(if int (length (days g)) \<le> 2 * int dayIndex
             then thenE (dayKeys (loadBatch h1 b) d)
                    (\<lambda>slots. foldE (crossoverSlotH (nthOpt (ref_batches parent2) i) b d) slots h1)
             else Inr h1) = Inr h2"
    by simp
  show "keeps n h1 h2"
  proof (cases "int (length (days g)) \<le> 2 * int dayIndex")
    case False
    with step show ?thesis by simp
  next
    case True
    with step obtain slots where
      "foldE (crossoverSlotH (nthOpt (ref_batches parent2) i) b d) slots h1 = Inr h2"
      by (auto simp: thenE_Inr_iff)
    then show ?thesis
      by (rule foldE_keeps) (rule crossoverSlotH_keeps [OF _ assms(2)])
  qed
qed

lemma crossoverH_frame:
  assumes "crossoverH g h parent1 parent2 = Inr (h', t')"
  shows "extends h h' \<and> freshIn h h' t'"
proof -
  from assms obtain h0 where c: "deepCopyH h parent1 = (h0, t')"
    and run: "foldE (crossoverBatchH g parent2) (enumerate 0 (ref_batches t')) h0 = Inr h'"
    by (auto simp: crossoverH_def thenE_Inr_iff split: prod.splits)
  from deepCopyH_spec [OF c] have e: "extends h h0" and f: "freshIn h h0 t'"
    by simp_all
  from run have "keeps (length h) h0 h'"
  proof (rule foldE_keeps)
    fix x h1 h2
    assume x: "x \<in> set (enumerate 0 (ref_batches t'))" and s: "crossoverBatchH g parent2 x h1 = Inr h2"
    obtain i b where [simp]: "x = (i, b)"
      by (cases x)
    from x have "b \<in> set (ref_batches t')"
      by (auto simp: in_set_enumerate_eq)
    with f have "above (length h) b"
      by (rule freshIn_above)
    with s show "keeps (length h) h1 h2"
      by (auto intro: crossoverBatchH_keeps)
  qed
  with e f show ?thesis
    by (rule keeps_extends)
qed


lemma tryMoveH_keeps:
  assumes "above n batch1"
  shows "tryMoveH t batch1 class1 conflict cs h = Inr h' \<Longrightarrow> keeps n h h'"
proof (induction cs)
  case Nil
  then show ?case by simp
next
  case (Cons ds cs)
  from Cons.prems consider "tryMoveH t batch1 class1 conflict cs h = Inr h'"
    | h1 where "setCellH h batch1 (fst ds) (snd ds) class1 = Inr h1"
        "setCellH h1 batch1 (conflictDay conflict) (conflictSlot conflict) Null = Inr h'"
    by (auto simp: thenE_Inr_iff split: if_splits)
  then show ?case
  proof cases
    case 1
    then show ?thesis by (rule Cons.IH)
  next
    case 2
    then show ?thesis
      by (blast intro: keeps_trans setCellH_keeps [OF _ assms])
  qed
qed

lemma nthOpt_Some_in_set: "nthOpt xs i = Some x \<Longrightarrow> x \<in> set xs"
  by (auto simp: nthOpt_def split: if_splits)

lemma resolveOneH_keeps:
  assumes "resolveOneH g t conflict h = Inr h'" and "\<forall>b \<in> set (ref_batches t). above n b"
  shows "keeps n h h'"
proof (cases "conflictType conflict = faculty_conflict")
  case False
  with assms(1) show ?thesis
    by (simp add: resolveOneH_def)
next
  case True
  with assms(1) obtain batch1 class1 where
    b1: "nthOpt (ref_batches t) (fst (conflictBatches conflict)) = Some batch1"
    and run: "tryMoveH t batch1 class1 conflict (gridCoordinates g) h = Inr h'"
    by (auto simp: resolveOneH_def thenE_Inr_iff split: option.splits)
  from b1 assms(2) have "above n batch1"
    by (blast dest: nthOpt_Some_in_set)
  from tryMoveH_keeps [OF this run] show ?thesis .
qed

lemma resolveConflictsBySwappingH_frame:
  assumes "resolveConflictsBySwappingH g h t = Inr (h', t')"
  shows "extends h h' \<and> freshIn h h' t'"
proof -
  from assms obtain h0 cs where c: "deepCopyH h t = (h0, t')"
    and run: "foldE (resolveOneH g t') cs h0 = Inr h'"
    by (auto simp: resolveConflictsBySwappingH_def thenE_Inr_iff split: prod.splits)
  from deepCopyH_spec [OF c] have e: "extends h h0" and f: "freshIn h h0 t'"
    by simp_all
  from f have "\<forall>b \<in> set (ref_batches t'). above (length h) b"
    by (blast intro: freshIn_above)
  with run have "keeps (length h) h0 h'"
    by (intro foldE_keeps [OF run]) (blast intro: resolveOneH_keeps)
  with e f show ?thesis
    by (rule keeps_extends)
qed

lemma intensiveRoundH_frame:
  assumes "intensiveRoundH g rnds k (h1, t1) = Inr (h2, t2)"
  shows "extends h1 h2 \<and> freshIn h1 h2 t2"
proof -
  from assms obtain hm tm where a: "fillGapsH g (rnds k) h1 t1 = Inr (hm, tm)"
    and b: "resolveConflictsBySwappingH g hm tm = Inr (h2, t2)"
    by (auto simp: intensiveRoundH_def thenE_Inr_iff)
  from fillGapsH_frame [OF a] resolveConflictsBySwappingH_frame [OF b] show ?thesis
    by (blast intro: extends_trans freshIn_mono)
qed

lemma intensiveGapFillingH_frame:
  assumes "intensiveGapFillingH g rnds h t = Inr (h', t')"
  shows "extends h h' \<and> freshIn h h' t'"
proof -
  obtain h0 t0 where c: "deepCopyH h t = (h0, t0)"
    by (cases "deepCopyH h t")
  from deepCopyH_spec [OF c] have start: "extends h h0 \<and> freshIn h h0 t0"
    by simp
  from assms c have run: "foldE (intensiveRoundH g rnds) [0..<3] (h0, t0) = Inr (h', t')"
    by (simp add: intensiveGapFillingH_def)
  let ?P = "\<lambda>st. extends h (fst st) \<and> freshIn h (fst st) (snd st)"
  have "?P (h', t')"
  proof (rule foldE_invariant [OF run, where P = ?P])
    show "?P (h0, t0)"
      using start by simp
  next
    fix k st st'
    assume P: "?P st" and step: "intensiveRoundH g rnds k st = Inr st'"
    obtain h1 t1 h2 t2 where [simp]: "st = (h1, t1)" "st' = (h2, t2)"
      by (cases st, cases st')
    from intensiveRoundH_frame [OF step [simplified]] P show "?P st'"
      by (auto intro: extends_trans freshIn_mono)
  qed
  then show ?thesis
    by simp
qed

text \<open>
  C9. Whenever \<open>fillGaps\<close>, \<open>mutate\<close>, \<open>crossover\<close> or \<open>intensiveGapFilling\<close> returns, run in
  a store \<open>h\<close>, the store \<open>h'\<close> it leaves has every day object of \<open>h\<close> at its address,
  unchanged, and every day object of the returned timetable was allocated by the call;
  so every timetable that lives in \<open>h\<close>, the argument (both parents for \<open>crossover\<close>)
  included, reads the same before and after the call. Batches, schedules and classes
  are never written by these functions and are values here.
\<close>

theorem argument_unchanged:
  "(\<forall>h' t'. fillGapsH g rnd h t = Inr (h', t') \<longrightarrow>
      extends h h' \<and> freshIn h h' t' \<and> (allocated h t \<longrightarrow> load h' t = load h t)) \<and>
   (\<forall>h' t'. mutateH r h t = Inr (h', t') \<longrightarrow>
      extends h h' \<and> freshIn h h' t' \<and> (allocated h t \<longrightarrow> load h' t = load h t)) \<and>
   (\<forall>h' t'. crossoverH g h t parent2 = Inr (h', t') \<longrightarrow>
      extends h h' \<and> freshIn h h' t' \<and> (allocated h t \<longrightarrow> load h' t = load h t) \<and>
      (allocated h parent2 \<longrightarrow> load h' parent2 = load h parent2)) \<and>
   (\<forall>h' t'. intensiveGapFillingH g rnds h t = Inr (h', t') \<longrightarrow>
      extends h h' \<and> freshIn h h' t' \<and> (allocated h t \<longrightarrow> load h' t = load h t))"
proof -
  have same: "load h' x = load h x" if "extends h h'" and "allocated h x" for h' x
    using that by (rule load_extends)
  show ?thesis
    using fillGapsH_frame [of g rnd h t] mutateH_frame [of r h t]
      crossoverH_frame [of g h t parent2] intensiveGapFillingH_frame [of g rnds h t]
    by (auto intro: same)
qed


lemma load_examples:
  "load exampleStore mondayRefs = mondayOnly" "load exampleStore bothRefs = bothDays"
  by code_simp+

text \<open>
  On the example store each of the four functions returns, the two example timetables
  read as before, and the returned timetable reads as the result computed by value.
\<close>

theorem argument_unchanged_witness:
  "allocated exampleStore mondayRefs \<and> allocated exampleStore bothRefs \<and>
   (case fillGapsH twoDays (\<lambda>i k. 0) exampleStore mondayRefs of
      Inr st \<Rightarrow> load (fst st) mondayRefs = mondayOnly \<and>
                fillGaps twoDays (\<lambda>i k. 0) mondayOnly = Inr (load (fst st) (snd st))
    | Inl e \<Rightarrow> False) \<and>
   (case mutateH zeroDraws exampleStore mondayRefs of
      Inr st \<Rightarrow> load (fst st) mondayRefs = mondayOnly \<and>
                mutate zeroDraws mondayOnly = Inr (load (fst st) (snd st))
    | Inl e \<Rightarrow> False) \<and>
   (case crossoverH twoDays exampleStore mondayRefs bothRefs of
      Inr st \<Rightarrow> load (fst st) mondayRefs = mondayOnly \<and> load (fst st) bothRefs = bothDays \<and>
                crossover twoDays mondayOnly bothDays = Inr (load (fst st) (snd st))
    | Inl e \<Rightarrow> False) \<and>
   (case intensiveGapFillingH twoDays (\<lambda>n i k. 0) exampleStore mondayRefs of
      Inr st \<Rightarrow> load (fst st) mondayRefs = mondayOnly
    | Inl e \<Rightarrow> False)"
proof -
  have a: "allocated exampleStore mondayRefs" "allocated exampleStore bothRefs"
    by code_simp+
  note frame = argument_unchanged [of twoDays "\<lambda>i k. 0" exampleStore mondayRefs zeroDraws
      bothRefs "\<lambda>n i k. 0"]
  have f: "case fillGapsH twoDays (\<lambda>i k. 0) exampleStore mondayRefs of
      Inr st \<Rightarrow> fillGaps twoDays (\<lambda>i k. 0) mondayOnly = Inr (load (fst st) (snd st))
    | Inl e \<Rightarrow> False"
    by code_simp
  have m: "case mutateH zeroDraws exampleStore mondayRefs of
      Inr st \<Rightarrow> mutate zeroDraws mondayOnly = Inr (load (fst st) (snd st))
    | Inl e \<Rightarrow> False"
    by code_simp
  have c: "case crossoverH twoDays exampleStore mondayRefs bothRefs of
      Inr st \<Rightarrow> crossover twoDays mondayOnly bothDays = Inr (load (fst st) (snd st))
    | Inl e \<Rightarrow> False"
    by code_simp
  have i: "case intensiveGapFillingH twoDays (\<lambda>n i k. 0) exampleStore mondayRefs of
      Inr st \<Rightarrow> True
    | Inl e \<Rightarrow> False"
    by code_simp
  from frame a f have "case fillGapsH twoDays (\<lambda>i k. 0) exampleStore mondayRefs of
      Inr st \<Rightarrow> load (fst st) mondayRefs = mondayOnly \<and>
                fillGaps twoDays (\<lambda>i k. 0) mondayOnly = Inr (load (fst st) (snd st))
    | Inl e \<Rightarrow> False"
    by (auto simp: load_examples split: sum.splits)
  moreover from frame a m have "case mutateH zeroDraws exampleStore mondayRefs of
      Inr st \<Rightarrow> load (fst st) mondayRefs = mondayOnly \<and>
                mutate zeroDraws mondayOnly = Inr (load (fst st) (snd st))
    | Inl e \<Rightarrow> False"
    by (auto simp: load_examples split: sum.splits)
  moreover from frame a c have "case crossoverH twoDays exampleStore mondayRefs bothRefs of
      Inr st \<Rightarrow> load (fst st) mondayRefs = mondayOnly \<and> load (fst st) bothRefs = bothDays \<and>
                crossover twoDays mondayOnly bothDays = Inr (load (fst st) (snd st))
    | Inl e \<Rightarrow> False"
    by (auto simp: load_examples split: sum.splits)
  moreover from frame a i
  have "case intensiveGapFillingH twoDays (\<lambda>n i k. 0) exampleStore mondayRefs of
      Inr st \<Rightarrow> load (fst st) mondayRefs = mondayOnly
    | Inl e \<Rightarrow> False"
    by (auto simp: load_examples split: sum.splits)
  ultimately show ?thesis
    using a by simp
qed

text \<open>
  On a timetable with free slots \<open>fillGaps\<close> and \<open>intensiveGapFilling\<close> do write: the
  returned timetable has a class more, and the argument reads as before.
\<close>

lemma fillGapsH_writes:
  "(case fillGapsH twoDays (\<lambda>i k. 0) exampleStore freeRefs of
      Inr st \<Rightarrow>
        load (fst st) freeRefs = load exampleStore freeRefs \<and>
        map freeSlots (batches (load exampleStore freeRefs)) = [2] \<and>
        map freeSlots (batches (load (fst st) (snd st))) = [1] \<and>
        fillGaps twoDays (\<lambda>i k. 0) (load exampleStore freeRefs) = Inr (load (fst st) (snd st))
    | Inl e \<Rightarrow> False)"
  "(case intensiveGapFillingH twoDays (\<lambda>n i k. 0) exampleStore freeRefs of
      Inr st \<Rightarrow>
        load (fst st) freeRefs = load exampleStore freeRefs \<and>
        map freeSlots (batches (load (fst st) (snd st))) = [1]
    | Inl e \<Rightarrow> False)"
  by code_simp+

end
